(* ===== verification/TC_Prelude.thy ===== *)
theory TC_Prelude
  imports Main "HOL-Library.Word"
begin

text \<open>
  Shared vocabulary of the development: the machine integer types of the C++ sources, the clock
  that the AgIsoStack timing functions are read from, the lemma collections, and generic facts
  about words, lists and transition systems that more than one component needs.
\<close>

unbundle bit_operations_syntax

section \<open>Types\<close>

type_synonym u8 = "8 word"
type_synonym u16 = "16 word"
type_synonym u32 = "32 word"
type_synonym u64 = "64 word"
type_synonym bytes = "8 word list"

text \<open>A 32-bit signed value is the same 32 bits, read with \<open>sint\<close>.\<close>

type_synonym i32 = "32 word"

text \<open>
  \<open>isobus::SystemTiming\<close> belongs to the ISOBUS library: its three observations are parameters. One
  clock value stands for one instant, so an operation that takes a clock sees the same instant
  throughout.
\<close>

record clock =
  timestamp_ms :: u32
  time_expired_ms :: "u32 \<Rightarrow> u32 \<Rightarrow> bool"
  time_elapsed_ms :: "u32 \<Rightarrow> u32"

text \<open>The clock the witnesses run on: a timeout has expired once at least that many milliseconds passed.\<close>

definition clock_at :: "u32 \<Rightarrow> clock" where
  "clock_at t = \<lparr>timestamp_ms = t, time_expired_ms = (\<lambda>last timeout. timeout \<le> t - last),
     time_elapsed_ms = (\<lambda>last. t - last)\<rparr>"

text \<open>
  Lemma collections: \<open>tc_wf\<close> gathers the preservation lemmas of the component invariants,
  \<open>tc_frame\<close> the facts that an operation leaves a field alone.
\<close>

named_theorems tc_wf
named_theorems tc_frame

section \<open>Words\<close>

lemma bit_fold_or:
  "bit (fold (\<lambda>i v. v OR f i) xs (v0 :: 'a::len word)) n \<longleftrightarrow>
     bit v0 n \<or> (\<exists>i\<in>set xs. bit (f i) n)"
  by (induction xs arbitrary: v0) (auto simp: bit_simps)

lemma and_3_eq_take_bit: "x AND 3 = take_bit 2 (x :: 'a::len word)"
  by (simp add: take_bit_eq_mask mask_eq_exp_minus_1)

lemma bit_and_3: "bit (x AND 3 :: 'a::len word) n \<longleftrightarrow> n < 2 \<and> bit x n"
  by (simp add: and_3_eq_take_bit bit_take_bit_iff)

lemma word_and_3_le: "(x AND 3 :: 'a::len word) \<le> 3"
  by (rule word_and_le1)

lemma less_of_bits_2:
  assumes "(x :: u8) \<le> 3" "2 \<le> n"
  shows "\<not> bit x n"
proof -
  have "x = take_bit 2 x"
    using assms(1)
    by (intro word_unat_eq_iff [THEN iffD2])
      (simp add: unsigned_take_bit_eq take_bit_nat_eq_self word_le_nat_alt)
  then show ?thesis
    using assms(2) by (metis bit_take_bit_iff linorder_not_less)
qed

lemma unat_inject [simp]: "unat a = unat b \<longleftrightarrow> a = (b :: 'a::len word)"
  by (simp add: word_unat_eq_iff)

lemma unat_of_nat_u8: "n < 256 \<Longrightarrow> unat (of_nat n :: u8) = n"
  by (simp add: unat_of_nat)

lemma u8_less_256: "unat (x :: u8) < 256"
  using unsigned_less [of x, where ?'a = nat] by simp

lemma of_nat_u8_less: "n < unat (x :: u8) \<Longrightarrow> (of_nat n :: u8) < x"
  using u8_less_256 [of x] by (simp add: word_less_nat_alt unat_of_nat)

lemma all_u8_less: "(\<forall>i::u8. i < x \<longrightarrow> P i) \<longleftrightarrow> (\<forall>n < unat x. P (of_nat n))"
  by (metis of_nat_u8_less unat_mono of_nat_unat word_unat_eq_iff ucast_id)

lemma ucast_of_nat_u8_u16: "b < 256 \<Longrightarrow> ucast (of_nat b :: u8) = (of_nat b :: u16)"
  by (rule unat_inject [THEN iffD1]) (simp add: unat_of_nat unsigned_ucast_eq take_bit_nat_eq_self)

lemma unat_block_offset: "b < 16 \<Longrightarrow> i < 16 \<Longrightarrow> unat (of_nat b * 16 + of_nat i :: u8) = 16 * b + i"
proof -
  assume "b < 16" "i < 16"
  then have "16 * b + i < 256" by linarith
  moreover have "of_nat b * 16 + of_nat i = (of_nat (16 * b + i) :: u8)" by simp
  ultimately show ?thesis by (metis unat_of_nat_u8)
qed

section \<open>Lists\<close>

text \<open>\<open>std::vector::resize\<close>: keep a prefix, pad with a value.\<close>

definition resize :: "nat \<Rightarrow> 'a \<Rightarrow> 'a list \<Rightarrow> 'a list" where
  "resize n v xs = take n xs @ replicate (n - length xs) v"

lemma length_resize [simp]: "length (resize n v xs) = n"
  by (simp add: resize_def)

lemma set_resize: "set (resize n v xs) \<subseteq> insert v (set xs)"
  by (auto simp: resize_def dest: in_set_takeD)

lemma nth_resize: "i < n \<Longrightarrow> resize n v xs ! i = (if i < length xs then xs ! i else v)"
  by (auto simp: resize_def nth_append)

lemma resize_Nil [simp]: "resize n v [] = replicate n v"
  by (simp add: resize_def)

section \<open>Transition systems\<close>

text \<open>
  The interface a state machine offers to a safety argument: steps keep the invariant. Clients get
  the invariant, and every property it implies, in all states reachable by any number of steps.
\<close>

locale safe_system =
  fixes step :: "'s \<Rightarrow> 's \<Rightarrow> bool"
    and inv :: "'s \<Rightarrow> bool"
  assumes step_inv: "inv s \<Longrightarrow> step s t \<Longrightarrow> inv t"
begin

lemma reach_inv: "step\<^sup>*\<^sup>* s t \<Longrightarrow> inv s \<Longrightarrow> inv t"
  by (induction rule: rtranclp_induct) (auto intro: step_inv)

lemma reach_safe:
  assumes "step\<^sup>*\<^sup>* s t" "inv s" "\<And>u. inv u \<Longrightarrow> P u"
  shows "P t"
  using assms reach_inv by blast

end

text \<open>
  A safe system whose steps append to a log of visible actions, each action allowed by the state
  the step starts in: then every logged action was allowed in some state on the way.
\<close>

locale audited_system = safe_system step inv
  for step :: "'s \<Rightarrow> 's \<Rightarrow> bool" and inv :: "'s \<Rightarrow> bool" +
  fixes log :: "'s \<Rightarrow> 'a list"
    and good :: "'s \<Rightarrow> 'a \<Rightarrow> bool"
  assumes step_log: "inv s \<Longrightarrow> step s t \<Longrightarrow> \<exists>new. log t = log s @ new \<and> (\<forall>a\<in>set new. good s a)"
begin

lemma reach_log:
  "step\<^sup>*\<^sup>* s t \<Longrightarrow> inv s \<Longrightarrow>
     \<exists>new. log t = log s @ new \<and> (\<forall>a\<in>set new. \<exists>u. step\<^sup>*\<^sup>* s u \<and> good u a)"
proof (induction rule: rtranclp_induct)
  case base
  show ?case by simp
next
  case (step t u)
  then obtain new where new: "log t = log s @ new" "\<forall>a\<in>set new. \<exists>u. step\<^sup>*\<^sup>* s u \<and> good u a" by blast
  obtain new' where "log u = log t @ new'" "\<forall>a\<in>set new'. good t a"
    using step_log reach_inv step by blast
  with new step.hyps(1) show ?case
    by (intro exI [of _ "new @ new'"]) auto
qed

end

end
