(* ===== verification/Std_Map.thy ===== *)
theory Std_Map
  imports TC_Prelude
begin

text \<open>
  \<open>std::map\<close> as the sources use it: an association list sorted strictly by key, so that iteration
  visits the keys in order and \<open>size\<close> is the length. The locale \<open>dictionary\<close> is the contract that
  the clients of a map rely on; it is interpreted on the sorted lists.
\<close>

type_synonym ('k, 'v) smap = "('k \<times> 'v) list"

definition sm_find :: "('k, 'v) smap \<Rightarrow> 'k \<Rightarrow> 'v option" where
  "sm_find m k = map_of m k"

fun sm_put :: "'k::linorder \<Rightarrow> 'v \<Rightarrow> ('k, 'v) smap \<Rightarrow> ('k, 'v) smap" where
  "sm_put k v [] = [(k, v)]"
| "sm_put k v ((k', v') # m) =
     (if k < k' then (k, v) # (k', v') # m
      else if k = k' then (k, v) # m
      else (k', v') # sm_put k v m)"

definition sm_erase :: "'k \<Rightarrow> ('k, 'v) smap \<Rightarrow> ('k, 'v) smap" where
  "sm_erase k m = filter (\<lambda>e. fst e \<noteq> k) m"

definition sm_keys :: "('k, 'v) smap \<Rightarrow> 'k list" where
  "sm_keys m = map fst m"

definition sm_wf :: "('k::linorder, 'v) smap \<Rightarrow> bool" where
  "sm_wf m \<longleftrightarrow> sorted_wrt (<) (map fst m)"

section \<open>The contract\<close>

locale dictionary =
  fixes find :: "'m \<Rightarrow> 'k \<Rightarrow> 'v option"
    and put :: "'k \<Rightarrow> 'v \<Rightarrow> 'm \<Rightarrow> 'm"
    and erase :: "'k \<Rightarrow> 'm \<Rightarrow> 'm"
    and keys :: "'m \<Rightarrow> 'k list"
    and empty :: 'm
    and wf :: "'m \<Rightarrow> bool"
  assumes find_empty: "find empty k = None"
    and find_put: "wf m \<Longrightarrow> find (put k v m) k' = (if k' = k then Some v else find m k')"
    and find_erase: "wf m \<Longrightarrow> find (erase k m) k' = (if k' = k then None else find m k')"
    and keys_find: "wf m \<Longrightarrow> k \<in> set (keys m) \<longleftrightarrow> find m k \<noteq> None"
    and distinct_keys: "wf m \<Longrightarrow> distinct (keys m)"
    and wf_empty: "wf empty"
    and wf_put: "wf m \<Longrightarrow> wf (put k v m)"
    and wf_erase: "wf m \<Longrightarrow> wf (erase k m)"
begin

lemma find_put_same: "wf m \<Longrightarrow> find (put k v m) k = Some v"
  by (simp add: find_put)

lemma find_put_other: "wf m \<Longrightarrow> k' \<noteq> k \<Longrightarrow> find (put k v m) k' = find m k'"
  by (simp add: find_put)

lemma erase_absent: "wf m \<Longrightarrow> find m k = None \<Longrightarrow> find (erase k m) = find m"
  by (auto simp: find_erase)

lemma keys_put: "wf m \<Longrightarrow> set (keys (put k v m)) = insert k (set (keys m))"
  by (auto simp: keys_find find_put wf_put split: if_splits)

lemma keys_erase: "wf m \<Longrightarrow> set (keys (erase k m)) = set (keys m) - {k}"
  by (auto simp: keys_find find_erase wf_erase split: if_splits)

lemma put_all:
  assumes "wf m" "\<And>k v. find m k = Some v \<Longrightarrow> P k v" "P k v"
  shows "find (put k v m) k' = Some v' \<Longrightarrow> P k' v'"
  using assms by (auto simp: find_put split: if_splits)

lemma erase_all:
  assumes "wf m" "\<And>k v. find m k = Some v \<Longrightarrow> P k v"
  shows "find (erase k m) k' = Some v' \<Longrightarrow> P k' v'"
  using assms by (auto simp: find_erase split: if_splits)

end

section \<open>Sorted association lists satisfy it\<close>

lemma sm_find_put:
  "sm_wf m \<Longrightarrow> sm_find (sm_put k v m) k' = (if k' = k then Some v else sm_find m k')"
  by (induction k v m rule: sm_put.induct) (auto simp: sm_find_def sm_wf_def)

lemma sm_find_erase: "sm_find (sm_erase k m) k' = (if k' = k then None else sm_find m k')"
  by (induction m) (auto simp: sm_find_def sm_erase_def)

lemma set_sm_put: "fst ` set (sm_put k v m) = insert k (fst ` set m)"
  by (induction k v m rule: sm_put.induct) auto

lemma sm_wf_put: "sm_wf m \<Longrightarrow> sm_wf (sm_put k v m)"
proof (induction k v m rule: sm_put.induct)
  case (2 k v k' v' m)
  then have "\<forall>x \<in> fst ` set (sm_put k v m). k' < x" if "k' < k"
    using that by (auto simp: set_sm_put sm_wf_def)
  with 2 show ?case
    by (auto simp: sm_wf_def)
qed (simp add: sm_wf_def)

lemma sm_wf_erase: "sm_wf m \<Longrightarrow> sm_wf (sm_erase k m)"
  by (induction m) (auto simp: sm_wf_def sm_erase_def)

lemma sm_find_Some_in: "sm_find m k = Some v \<Longrightarrow> (k, v) \<in> set m"
  by (simp add: sm_find_def map_of_SomeD)

lemma sm_in_find: "sm_wf m \<Longrightarrow> (k, v) \<in> set m \<Longrightarrow> sm_find m k = Some v"
  by (auto simp: sm_find_def sm_wf_def strict_sorted_iff intro: map_of_is_SomeI)

interpretation smap: dictionary sm_find sm_put sm_erase sm_keys "[]" sm_wf
proof unfold_locales
  fix m :: "('k::linorder, 'v) smap" and k
  show "sm_wf m \<Longrightarrow> k \<in> set (sm_keys m) \<longleftrightarrow> sm_find m k \<noteq> None"
    by (auto simp: sm_keys_def sm_find_def map_of_eq_None_iff)
  show "sm_wf m \<Longrightarrow> distinct (sm_keys m)"
    by (simp add: sm_wf_def sm_keys_def strict_sorted_iff)
qed (auto simp: sm_find_put sm_find_erase sm_wf_put sm_wf_erase sm_find_def [of "[]"] sm_wf_def [of "[]"])

lemma sm_find_Nil [simp]: "sm_find [] k = None"
  by (simp add: sm_find_def)

lemma sm_wf_Nil [simp]: "sm_wf []"
  by (simp add: sm_wf_def)

lemma sm_erase_Nil [simp]: "sm_erase k [] = []"
  by (simp add: sm_erase_def)

lemma sm_keys_Nil [simp]: "sm_keys [] = []"
  by (simp add: sm_keys_def)

lemma dom_sm_find: "dom (sm_find m) = set (sm_keys m)"
  by (auto simp: sm_find_def [abs_def] sm_keys_def dom_map_of_conv_image_fst)

lemma card_dom_sm_find: "card (dom (sm_find m)) \<le> length m"
  by (metis dom_sm_find card_length length_map sm_keys_def)

declare smap.wf_put [tc_wf] smap.wf_erase [tc_wf]

text \<open>Updating the value under a key that is already there does not move any entry.\<close>

lemma sm_put_keys_present:
  "sm_wf m \<Longrightarrow> sm_find m k \<noteq> None \<Longrightarrow> sm_keys (sm_put k v m) = sm_keys m"
  by (induction k v m rule: sm_put.induct)
    (auto simp: sm_find_def sm_keys_def sm_wf_def split: if_splits dest!: map_of_SomeD)

end
