(* ===== verification/Text_Format.thy ===== *)
theory Text_Format
  imports TC_Prelude
begin

text \<open>
  The text formatting the sources use: decimal and zero-padded hexadecimal numbers, \<open>std::setw\<close>
  padding, lower-casing, and the file-name helpers of the task controller
  (\<open>sanitize_filename\<close>, the localization-label trim and the FNV-1a file hash of
  \<open>src/src/task_controller.cpp\<close>). A string is a list of bytes, as \<open>std::string\<close> is.
\<close>

section \<open>Numbers\<close>

definition digit_char :: "nat \<Rightarrow> char" where
  "digit_char d = (if d < 10 then char_of (48 + d) else char_of (87 + d))"

text \<open>Digits of \<open>n\<close> in base \<open>b\<close>, most significant first; at least one digit.\<close>

fun digits_base :: "nat \<Rightarrow> nat \<Rightarrow> nat list" where
  "digits_base b n = (if n < b \<or> b < 2 then [n] else digits_base b (n div b) @ [n mod b])"

declare digits_base.simps [simp del]

definition to_string :: "nat \<Rightarrow> string" where
  "to_string n = map digit_char (digits_base 10 n)"

text \<open>\<open>std::to_string\<close> and \<open>operator<<\<close> of a signed value.\<close>

definition int_to_string :: "int \<Rightarrow> string" where
  "int_to_string i = (if i < 0 then CHR ''-'' # to_string (nat (- i)) else to_string (nat i))"

text \<open>\<open>std::setw(w) << std::setfill(c)\<close>, right-aligned (the stream default) and left-aligned.\<close>

definition pad_left :: "nat \<Rightarrow> char \<Rightarrow> string \<Rightarrow> string" where
  "pad_left w c s = replicate (w - length s) c @ s"

definition pad_right :: "nat \<Rightarrow> char \<Rightarrow> string \<Rightarrow> string" where
  "pad_right w c s = s @ replicate (w - length s) c"

definition hex_string :: "nat \<Rightarrow> nat \<Rightarrow> string" where
  "hex_string w n = pad_left w (CHR ''0'') (map digit_char (digits_base 16 n))"

definition value_of_digits :: "nat \<Rightarrow> nat list \<Rightarrow> nat" where
  "value_of_digits b ds = foldl (\<lambda>acc d. acc * b + d) 0 ds"

lemma value_of_digits_append: "value_of_digits b (ds @ [d]) = value_of_digits b ds * b + d"
  by (simp add: value_of_digits_def)

lemma value_digits_base: "2 \<le> b \<Longrightarrow> value_of_digits b (digits_base b n) = n"
proof (induction b n rule: digits_base.induct)
  case (1 b n)
  show ?case
  proof (cases "n < b")
    case True
    then show ?thesis by (simp add: digits_base.simps [of b n] value_of_digits_def)
  next
    case False
    with 1 show ?thesis
      by (simp add: digits_base.simps [of b n] value_of_digits_append)
  qed
qed

lemma digits_base_less: "2 \<le> b \<Longrightarrow> d \<in> set (digits_base b n) \<Longrightarrow> d < b"
proof (induction b n rule: digits_base.induct)
  case (1 b n)
  then show ?case
    by (cases "n < b") (auto simp: digits_base.simps [of b n])
qed

lemma digits_base_nonempty [simp]: "digits_base b n \<noteq> []"
  by (simp add: digits_base.simps)

lemma length_digits_base_le: "2 \<le> b \<Longrightarrow> n < b ^ k \<Longrightarrow> 0 < k \<Longrightarrow> length (digits_base b n) \<le> k"
proof (induction b n arbitrary: k rule: digits_base.induct)
  case (1 b n)
  show ?case
  proof (cases "n < b")
    case True
    with 1 show ?thesis by (simp add: digits_base.simps [of b n])
  next
    case False
    with 1 obtain j where k: "k = Suc j" "0 < j"
      by (metis less_numeral_extra(3) linorder_not_less not0_implies_Suc power_one_right
          One_nat_def gr0I)
    with 1 False have "n div b < b ^ j"
      by (simp add: less_mult_imp_div_less mult.commute)
    with 1 False k show ?thesis
      by (simp add: digits_base.simps [of b n])
  qed
qed

lemma of_digit_char: "d < 16 \<Longrightarrow> of_char (digit_char d) = (if d < 10 then 48 + d else 87 + d)"
  by (simp add: digit_char_def take_bit_eq_mod)

lemma digit_char_inject: "a < 16 \<Longrightarrow> b < 16 \<Longrightarrow> digit_char a = digit_char b \<Longrightarrow> a = b"
  by (drule arg_cong [of _ _ "of_char :: char \<Rightarrow> nat"]) (simp add: of_digit_char split: if_splits)

lemma map_digit_char_inject:
  assumes "map digit_char ds = map digit_char es" "\<And>d. d \<in> set ds \<union> set es \<Longrightarrow> d < 16"
  shows "ds = es"
  using assms(1)
proof (rule map_inj_on)
  show "inj_on digit_char (set ds \<union> set es)"
    using assms(2) by (meson digit_char_inject inj_onI)
qed

lemma digits_10_less: "d \<in> set (digits_base 10 n) \<Longrightarrow> d < 10"
  by (rule digits_base_less [of 10]) simp_all

lemma digits_16_less: "d \<in> set (digits_base 16 n) \<Longrightarrow> d < 16"
  by (rule digits_base_less [of 16]) simp_all

lemma to_string_inject:
  assumes "to_string m = to_string n"
  shows "m = n"
proof -
  have "d < 16" if "d \<in> set (digits_base 10 m) \<union> set (digits_base 10 n)" for d
  proof -
    from that have "d < 10" by (auto dest: digits_10_less)
    then show ?thesis by simp
  qed
  with assms have "digits_base 10 m = digits_base 10 n"
    unfolding to_string_def by (rule map_digit_char_inject)
  then have "value_of_digits 10 (digits_base 10 m) = value_of_digits 10 (digits_base 10 n)"
    by (rule arg_cong)
  then show "m = n"
    by (simp add: value_digits_base)
qed

lemma to_string_chars:
  assumes "c \<in> set (to_string n)"
  shows "48 \<le> (of_char c :: nat) \<and> (of_char c :: nat) \<le> 57"
proof -
  obtain d where "c = digit_char d" "d < 10"
    using assms digits_10_less by (auto simp: to_string_def)
  then show ?thesis by (simp add: of_digit_char)
qed

lemma length_to_string_u8: "n < 256 \<Longrightarrow> length (to_string n) \<le> 3"
  using length_digits_base_le [of 10 n 3] by (simp add: to_string_def)

lemma value_of_leading_zeros: "value_of_digits b (replicate j 0 @ ds) = value_of_digits b ds"
  by (induction j) (simp_all add: value_of_digits_def)

lemma char_of_48: "char_of (48 :: nat) = CHR ''0''"
  by (simp add: char_of_eq_iff)

lemma hex_string_inject:
  assumes "hex_string w m = hex_string w n"
  shows "m = n"
proof -
  define pad where "pad k = replicate (w - length (digits_base 16 k)) 0 @ digits_base 16 k" for k
  have chars: "hex_string w k = map digit_char (pad k)" for k
    by (simp add: hex_string_def pad_left_def pad_def digit_char_def char_of_48)
  have "d < 16" if "d \<in> set (pad m) \<union> set (pad n)" for d
    using that by (auto simp: pad_def dest: digits_16_less)
  with assms have "pad m = pad n"
    unfolding chars by (rule map_digit_char_inject)
  then have "value_of_digits 16 (pad m) = value_of_digits 16 (pad n)" by simp
  then show ?thesis
    by (simp add: pad_def value_of_leading_zeros value_digits_base)
qed

section \<open>Characters and file names\<close>

definition newline :: char where "newline = CHR 0x0A"

text \<open>\<open>std::tolower\<close> in the C locale.\<close>

definition tolower :: "char \<Rightarrow> char" where
  "tolower c = (let n = of_char c :: nat in if 65 \<le> n \<and> n \<le> 90 then char_of (n + 32) else c)"

text \<open>
  \<open>std::fixed << std::setprecision(d)\<close> of the double quotient of two whole numbers: the quotient is
  rounded to the nearest 53-bit significand, ties to even, and that number is printed with \<open>d\<close>
  decimals, again rounded to nearest, ties to even.
\<close>

definition round_half_even :: "nat \<Rightarrow> nat \<Rightarrow> nat" where
  "round_half_even p q =
     (let d = p div q; r = p mod q
      in if 2 * r < q then d else if 2 * r > q then d + 1 else if even d then d else d + 1)"

definition double_exponent :: "nat \<Rightarrow> nat \<Rightarrow> nat" where
  "double_exponent q p = (case find (\<lambda>k. q * 2 ^ 52 \<le> p * 2 ^ k) [0..<80] of None \<Rightarrow> 0 | Some k \<Rightarrow> k)"

definition fixed_units :: "nat \<Rightarrow> nat \<Rightarrow> nat \<Rightarrow> nat" where
  "fixed_units d q p =
     (let k = double_exponent q p; m = round_half_even (p * 2 ^ k) q
      in round_half_even (m * 10 ^ d) (2 ^ k))"

definition fixed_text :: "nat \<Rightarrow> nat \<Rightarrow> nat \<Rightarrow> string" where
  "fixed_text d q p = (let u = fixed_units d q p
     in to_string (u div 10 ^ d) @ ''.'' @ pad_left d (CHR ''0'') (to_string (u mod 10 ^ d)))"

text \<open>The characters \<open>sanitize_filename\<close> replaces: backslash, slash, star, colon, question mark, quote, angle brackets, bar.\<close>

definition invalid_chars :: "string" where
  "invalid_chars = [CHR 0x5C, CHR ''/'', CHR ''*'', CHR '':'', CHR ''?'', CHR 0x22, CHR ''<'', CHR ''>'', CHR ''|'']"

definition sanitize_filename :: "string \<Rightarrow> string" where
  "sanitize_filename input = map (\<lambda>c. if c \<in> set invalid_chars then CHR ''_'' else c) input"

text \<open>The localization label is cut at its first byte outside the printable ASCII range.\<close>

definition printable :: "char \<Rightarrow> bool" where
  "printable c \<longleftrightarrow> \<not> (of_char c < (0x20 :: nat) \<or> of_char c \<ge> (0x7F :: nat))"

definition trim_label :: "bytes \<Rightarrow> string" where
  "trim_label label = takeWhile printable (map (\<lambda>b. char_of (unat b)) label)"

text \<open>FNV-1a, 64 bit.\<close>

definition fnv1a :: "bytes \<Rightarrow> u64" where
  "fnv1a raw = foldl (\<lambda>hash b. (hash XOR ucast b) * 0x100000001b3) 0xcbf29ce484222325 raw"

lemma sanitize_filename_valid: "set (sanitize_filename s) \<inter> set invalid_chars = {}"
  by (auto simp: sanitize_filename_def invalid_chars_def)

lemma length_sanitize_filename [simp]: "length (sanitize_filename s) = length s"
  by (simp add: sanitize_filename_def)

lemma sanitize_filename_idem: "sanitize_filename (sanitize_filename s) = sanitize_filename s"
  by (auto simp: sanitize_filename_def invalid_chars_def)

lemma trim_label_printable: "c \<in> set (trim_label label) \<Longrightarrow> printable c"
  by (auto simp: trim_label_def dest: set_takeWhileD)

lemma sanitize_trim_chars:
  assumes "c \<in> set (sanitize_filename (trim_label label))"
  shows "printable c \<and> c \<notin> set invalid_chars"
proof
  from assms show "printable c"
    by (auto simp: sanitize_filename_def printable_def split: if_splits
        dest: trim_label_printable [unfolded printable_def])
  from assms show "c \<notin> set invalid_chars"
    using sanitize_filename_valid [of "trim_label label"] by blast
qed

section \<open>Lengths\<close>

lemma length_to_string_le: "n < 10 ^ k \<Longrightarrow> 0 < k \<Longrightarrow> length (to_string n) \<le> k"
  unfolding to_string_def length_map by (rule length_digits_base_le) simp_all

lemma length_pad_left [simp]: "length (pad_left w c s) = max w (length s)"
  by (simp add: pad_left_def)

lemma length_pad_right [simp]: "length (pad_right w c s) = max w (length s)"
  by (simp add: pad_right_def)

lemma round_half_even_le: "round_half_even p q \<le> p div q + 1"
  by (simp add: round_half_even_def Let_def)

lemma fixed_units_le:
  assumes "0 < q"
  shows "fixed_units d q p \<le> p * 10 ^ d div q + 10 ^ d + 1"
proof -
  define K D m where "K = (2 :: nat) ^ double_exponent q p" and "D = (10 :: nat) ^ d" and "m = round_half_even (p * K) q"
  define y where "y = m * D div K"
  have K: "1 \<le> K" by (simp add: K_def)
  have "m \<le> p * K div q + 1" unfolding m_def by (rule round_half_even_le)
  then have "m * q \<le> (p * K div q) * q + q" by (metis add_mult_distrib mult_1 mult_le_mono1)
  also have "\<dots> \<le> p * K + q" by simp
  finally have "m * q * D \<le> (p * K + q) * D" by simp
  moreover have "y * K \<le> m * D" by (simp add: y_def)
  then have "y * K * q \<le> m * D * q" by (rule mult_le_mono1)
  moreover have "m * D * q = m * q * D" by (simp only: ac_simps)
  ultimately have "y * K * q \<le> (p * K + q) * D" by linarith
  also have "\<dots> \<le> (p * K + q * K) * D" using K by simp
  also have "\<dots> = ((p + q) * D) * K" by (simp add: algebra_simps)
  finally have "y * q \<le> (p + q) * D" using K by (simp add: mult.commute mult.left_commute)
  then have "y * q div q \<le> (p * D + q * D) div q" by (intro div_le_mono) (simp add: algebra_simps)
  then have "y \<le> p * D div q + D" using assms by simp
  moreover have "fixed_units d q p \<le> y + 1"
    unfolding fixed_units_def Let_def y_def m_def K_def D_def by (rule round_half_even_le)
  ultimately show ?thesis by (simp add: D_def)
qed

text \<open>A number below \<open>b * 10 ^ j\<close> with \<open>d\<close> decimals has at most \<open>j\<close> digits before the point, when there is room for the rounding.\<close>

lemma length_fixed_text:
  assumes "0 < q" "0 < d" "0 < j" "p * 10 ^ d div q + 10 ^ d + 1 < 10 ^ (j + d)"
  shows "length (fixed_text d q p) \<le> j + 1 + d"
proof -
  let ?u = "fixed_units d q p"
  have "?u < 10 ^ (j + d)" using fixed_units_le [OF assms(1), of d p] assms(4) by linarith
  then have "?u div 10 ^ d < 10 ^ j" by (simp add: div_less_iff_less_mult power_add)
  then have "length (to_string (?u div 10 ^ d)) \<le> j" using assms(3) by (rule length_to_string_le)
  moreover have "length (to_string (?u mod 10 ^ d)) \<le> d" using assms(2) by (intro length_to_string_le) simp_all
  ultimately show ?thesis by (simp add: fixed_text_def Let_def)
qed

end
