(* ===== verification/Ddop.thy ===== *)
theory Ddop
  imports Std_Map Text_Format
begin

text \<open>
  The device descriptor object pool (DDOP) as the sources see it. The pool class and its objects
  belong to the ISOBUS library, so a pool is a value of the model that records what the library's
  accessors answer: \<open>pool_objects\<close> lists the results of \<open>get_object_by_index\<close> (\<open>None\<close> is the null
  pointer that call can return for an index in range) and \<open>get_object_by_id\<close> is a field. The
  queries the task controller makes over a pool (\<open>find_owning_element_number\<close>,
  \<open>is_ddi_settable\<close>, the scan for the section control method) follow
  \<open>src/src/task_controller.cpp\<close>.
\<close>

record device_element =
  el_object_id :: u16
  el_number :: u16
  el_parent_object :: u16
  el_child_object_ids :: "u16 list"

record device_process_data =
  pd_object_id :: u16
  pd_ddi :: u16
  pd_settable :: bool
  pd_on_change :: bool
  pd_time_interval :: bool

datatype ddop_object =
  DeviceObject (designator: string) (localization_label: bytes)
| DeviceElementObject (designator: string) (element: device_element)
| DeviceProcessDataObject (designator: string) (process_data: device_process_data)
| OtherObject (designator: string)

record ddop =
  pool_objects :: "ddop_object option list"
  get_object_by_id :: "u16 \<Rightarrow> ddop_object option"
  compatibility_level :: u8

definition empty_pool :: ddop where
  "empty_pool = \<lparr>pool_objects = [], get_object_by_id = (\<lambda>_. None), compatibility_level = 0\<rparr>"

section \<open>Data dictionary identifiers\<close>

text \<open>
  The identifiers the sources name with their numbers. The condensed work states are sixteen
  consecutive identifiers each, one per block of sixteen sections.
\<close>

definition ActualWorkState :: u16 where "ActualWorkState = 141"
definition SectionControlState :: u16 where "SectionControlState = 160"
definition ActualCondensedWorkState1_16 :: u16 where "ActualCondensedWorkState1_16 = 161"
definition ActualCondensedWorkState241_256 :: u16 where "ActualCondensedWorkState241_256 = 176"
definition SetpointWorkState :: u16 where "SetpointWorkState = 289"
definition SetpointCondensedWorkState1_16 :: u16 where "SetpointCondensedWorkState1_16 = 290"
definition SetpointCondensedWorkState241_256 :: u16 where "SetpointCondensedWorkState241_256 = 305"
definition GNSSQuality :: u16 where "GNSSQuality = 514"

lemmas ddi_defs = ActualWorkState_def SectionControlState_def ActualCondensedWorkState1_16_def
  ActualCondensedWorkState241_256_def SetpointWorkState_def SetpointCondensedWorkState1_16_def
  SetpointCondensedWorkState241_256_def GNSSQuality_def

definition is_actual_condensed :: "u16 \<Rightarrow> bool" where
  "is_actual_condensed ddi \<longleftrightarrow> ActualCondensedWorkState1_16 \<le> ddi \<and> ddi \<le> ActualCondensedWorkState241_256"

definition is_setpoint_condensed :: "u16 \<Rightarrow> bool" where
  "is_setpoint_condensed ddi \<longleftrightarrow> SetpointCondensedWorkState1_16 \<le> ddi \<and> ddi \<le> SetpointCondensedWorkState241_256"

section \<open>Queries over a pool\<close>

text \<open>The process data objects of a pool, in index order: what every scan over the pool visits.\<close>

fun process_data_of :: "ddop_object option \<Rightarrow> device_process_data option" where
  "process_data_of (Some (DeviceProcessDataObject _ pd)) = Some pd"
| "process_data_of _ = None"

fun element_of :: "ddop_object option \<Rightarrow> device_element option" where
  "element_of (Some (DeviceElementObject _ el)) = Some el"
| "element_of _ = None"

text \<open>
  \<open>find_owning_element_number\<close>: the number of the first device element that lists the process data
  object as a child; \<open>None\<close> is the \<open>false\<close> result that leaves the out parameter alone.
\<close>

fun find_owning_element_loop :: "ddop_object option list \<Rightarrow> u16 \<Rightarrow> u16 option" where
  "find_owning_element_loop [] oid = None"
| "find_owning_element_loop (x # xs) oid =
     (case element_of x of
        None \<Rightarrow> find_owning_element_loop xs oid
      | Some el \<Rightarrow>
          if oid \<in> set (el_child_object_ids el) then Some (el_number el)
          else find_owning_element_loop xs oid)"

definition find_owning_element_number :: "ddop \<Rightarrow> device_process_data \<Rightarrow> u16 option" where
  "find_owning_element_number pool pd = find_owning_element_loop (pool_objects pool) (pd_object_id pd)"

text \<open>\<open>is_ddi_settable\<close>: the first process data object with the identifier decides.\<close>

fun is_ddi_settable_loop :: "ddop_object option list \<Rightarrow> u16 \<Rightarrow> bool" where
  "is_ddi_settable_loop [] ddi = False"
| "is_ddi_settable_loop (x # xs) ddi =
     (case process_data_of x of
        None \<Rightarrow> is_ddi_settable_loop xs ddi
      | Some pd \<Rightarrow> if pd_ddi pd = ddi then pd_settable pd else is_ddi_settable_loop xs ddi)"

text \<open>The flags that the activation scan collects, and the method it selects from them.\<close>

record control_flags =
  hasCondensedSetpoint :: bool
  hasSettableCondensedActual :: bool
  hasSettableActualWorkState :: bool

fun scan_control_methods :: "ddop_object option list \<Rightarrow> control_flags \<Rightarrow> control_flags" where
  "scan_control_methods [] fl = fl"
| "scan_control_methods (x # xs) fl =
     (case process_data_of x of
        None \<Rightarrow> scan_control_methods xs fl
      | Some pd \<Rightarrow>
          let fl1 = (if is_setpoint_condensed (pd_ddi pd) then fl\<lparr>hasCondensedSetpoint := True\<rparr> else fl);
              fl2 = (if is_actual_condensed (pd_ddi pd) \<and> pd_settable pd
                     then fl1\<lparr>hasSettableCondensedActual := True\<rparr> else fl1);
              fl3 = (if pd_ddi pd = ActualWorkState \<and> pd_settable pd
                     then fl2\<lparr>hasSettableActualWorkState := True\<rparr> else fl2)
          in scan_control_methods xs fl3)"

definition no_control_flags :: control_flags where
  "no_control_flags = \<lparr>hasCondensedSetpoint = False, hasSettableCondensedActual = False, hasSettableActualWorkState = False\<rparr>"

text \<open>The first \<open>Device\<close> object of a pool, which activation requires.\<close>

fun find_device_label :: "ddop_object option list \<Rightarrow> bytes option" where
  "find_device_label [] = None"
| "find_device_label (Some (DeviceObject _ label) # xs) = Some label"
| "find_device_label (_ # xs) = find_device_label xs"

section \<open>What the queries answer\<close>

definition pool_process_data :: "ddop \<Rightarrow> device_process_data set" where
  "pool_process_data pool = {pd. \<exists>d. Some (DeviceProcessDataObject d pd) \<in> set (pool_objects pool)}"

lemma process_data_of_eq_Some: "process_data_of x = Some pd \<longleftrightarrow> (\<exists>d. x = Some (DeviceProcessDataObject d pd))"
  by (cases x rule: process_data_of.cases) auto

lemma element_of_eq_Some: "element_of x = Some el \<longleftrightarrow> (\<exists>d. x = Some (DeviceElementObject d el))"
  by (cases x rule: element_of.cases) auto

lemma scan_control_methods_eq:
  "scan_control_methods xs fl =
     \<lparr>hasCondensedSetpoint = hasCondensedSetpoint fl \<or>
        (\<exists>x\<in>set xs. \<exists>pd. process_data_of x = Some pd \<and> is_setpoint_condensed (pd_ddi pd)),
      hasSettableCondensedActual = hasSettableCondensedActual fl \<or>
        (\<exists>x\<in>set xs. \<exists>pd. process_data_of x = Some pd \<and> is_actual_condensed (pd_ddi pd) \<and> pd_settable pd),
      hasSettableActualWorkState = hasSettableActualWorkState fl \<or>
        (\<exists>x\<in>set xs. \<exists>pd. process_data_of x = Some pd \<and> pd_ddi pd = ActualWorkState \<and> pd_settable pd)\<rparr>"
  by (induction xs arbitrary: fl) (auto simp: Let_def split: option.split)

lemma find_owning_element_loop_Some:
  "find_owning_element_loop xs oid = Some n \<Longrightarrow>
     \<exists>d el. Some (DeviceElementObject d el) \<in> set xs \<and> oid \<in> set (el_child_object_ids el) \<and> el_number el = n"
  by (induction xs oid rule: find_owning_element_loop.induct)
    (fastforce simp: element_of_eq_Some split: option.splits if_splits)+

lemma find_owning_element_loop_None:
  "find_owning_element_loop xs oid = None \<longleftrightarrow>
     (\<forall>d el. Some (DeviceElementObject d el) \<in> set xs \<longrightarrow> oid \<notin> set (el_child_object_ids el))"
proof (induction xs oid rule: find_owning_element_loop.induct)
  case (2 x xs oid)
  then show ?case
    by (cases x rule: element_of.cases) auto
qed simp

lemma is_ddi_settable_loop_witness:
  "is_ddi_settable_loop xs ddi \<Longrightarrow>
     \<exists>d pd. Some (DeviceProcessDataObject d pd) \<in> set xs \<and> pd_ddi pd = ddi \<and> pd_settable pd"
  by (induction xs ddi rule: is_ddi_settable_loop.induct)
    (fastforce simp: process_data_of_eq_Some split: option.splits if_splits)+

lemma is_ddi_settable_loop_none:
  "(\<And>d pd. Some (DeviceProcessDataObject d pd) \<in> set xs \<Longrightarrow> pd_ddi pd = ddi \<Longrightarrow> \<not> pd_settable pd) \<Longrightarrow>
     \<not> is_ddi_settable_loop xs ddi"
  using is_ddi_settable_loop_witness by blast

end
