(* ===== verification/Element_Hierarchy.thy ===== *)
theory Element_Hierarchy
  imports Ddop
begin

text \<open>
  Parent lookup for the device elements of a pool: \<open>src/include/element_hierarchy.hpp\<close>.
  \<open>build_parent_map\<close> reads the hierarchy from the elements' parent object identifiers;
  \<open>any_in_chain\<close> walks it with a counter that stops after \<open>parents.size() + 1\<close> elements. The main
  result is that the bounded walk is exact: it answers for every ancestor, on cyclic maps too.
\<close>

type_synonym parent_map = "(u16, u16) smap"

text \<open>One iteration of \<open>build_parent_map\<close>: the guards that \<open>continue\<close> leave the map alone.\<close>

definition build_parent_step :: "ddop \<Rightarrow> ddop_object option \<Rightarrow> parent_map \<Rightarrow> parent_map" where
  "build_parent_step pool object parents =
     (case element_of object of
        None \<Rightarrow> parents
      | Some el \<Rightarrow>
          (case element_of (get_object_by_id pool (el_parent_object el)) of
             None \<Rightarrow> parents
           | Some parent \<Rightarrow>
               if el_number parent \<noteq> el_number el
               then sm_put (el_number el) (el_number parent) parents
               else parents))"

definition build_parent_map :: "ddop \<Rightarrow> parent_map" where
  "build_parent_map pool = fold (build_parent_step pool) (pool_objects pool) []"

fun any_in_chain_loop :: "nat \<Rightarrow> parent_map \<Rightarrow> u16 \<Rightarrow> (u16 \<Rightarrow> bool) \<Rightarrow> bool" where
  "any_in_chain_loop 0 parents elementNumber predicate = False"
| "any_in_chain_loop (Suc remaining) parents elementNumber predicate =
     (if predicate elementNumber then True
      else (case sm_find parents elementNumber of
              None \<Rightarrow> False
            | Some parent \<Rightarrow> any_in_chain_loop remaining parents parent predicate))"

definition any_in_chain :: "parent_map \<Rightarrow> u16 \<Rightarrow> (u16 \<Rightarrow> bool) \<Rightarrow> bool" where
  "any_in_chain parents elementNumber predicate =
     any_in_chain_loop (Suc (length parents)) parents elementNumber predicate"

text \<open>The specification: the element itself or one of its ancestors, at any distance.\<close>

definition parent_rel :: "parent_map \<Rightarrow> (u16 \<times> u16) set" where
  "parent_rel parents = {(e, p). sm_find parents e = Some p}"

fun ancestor :: "parent_map \<Rightarrow> nat \<Rightarrow> u16 \<Rightarrow> u16 option" where
  "ancestor parents 0 e = Some e"
| "ancestor parents (Suc k) e = Option.bind (ancestor parents k e) (sm_find parents)"

section \<open>The walk is exact\<close>

lemma ancestor_shift:
  "sm_find parents e = Some p \<Longrightarrow> ancestor parents (Suc k) e = ancestor parents k p"
  by (induction k) simp_all

lemma ancestor_stop:
  "sm_find parents e = None \<Longrightarrow> ancestor parents (Suc k) e = None"
  by (induction k) simp_all

lemma any_in_chain_loop_iff:
  "any_in_chain_loop n parents e P \<longleftrightarrow> (\<exists>k < n. \<exists>a. ancestor parents k e = Some a \<and> P a)"
proof (induction n parents e P rule: any_in_chain_loop.induct)
  case (2 n parents e P)
  have split: "(\<exists>k < Suc n. Q k) \<longleftrightarrow> Q 0 \<or> (\<exists>k < n. Q (Suc k))" for Q
    by (metis Ex_less_Suc2)
  show ?case
    using 2 by (cases "sm_find parents e") (auto simp: split ancestor_shift ancestor_stop simp del: ancestor.simps(2))
qed simp

lemma ancestor_rtrancl:
  "(e, a) \<in> (parent_rel parents)\<^sup>* \<longleftrightarrow> (\<exists>k. ancestor parents k e = Some a)"
proof
  assume "(e, a) \<in> (parent_rel parents)\<^sup>*"
  then show "\<exists>k. ancestor parents k e = Some a"
  proof (induction rule: rtrancl_induct)
    case base
    have "ancestor parents 0 e = Some e" by simp
    then show ?case ..
  next
    case (step b c)
    then obtain k where "ancestor parents k e = Some b" by blast
    with step.hyps have "ancestor parents (Suc k) e = Some c" by (simp add: parent_rel_def)
    then show ?case ..
  qed
next
  assume "\<exists>k. ancestor parents k e = Some a"
  then obtain k where "ancestor parents k e = Some a" ..
  then show "(e, a) \<in> (parent_rel parents)\<^sup>*"
  proof (induction k arbitrary: a)
    case (Suc k)
    then obtain b where b: "ancestor parents k e = Some b" "(b, a) \<in> parent_rel parents"
      by (auto simp: parent_rel_def split: bind_splits)
    show ?case
      using Suc.IH [OF b(1)] b(2) by (rule rtrancl_into_rtrancl)
  qed simp
qed

text \<open>A repeated element shortens the walk, so the first visit of any ancestor comes early.\<close>

lemma ancestor_repeat:
  assumes "ancestor parents i e = ancestor parents j e"
  shows "ancestor parents (i + d) e = ancestor parents (j + d) e"
  using assms by (induction d) simp_all

lemma ancestor_prefix: "ancestor parents k e = Some a \<Longrightarrow> j \<le> k \<Longrightarrow> \<exists>b. ancestor parents j e = Some b"
proof (induction k arbitrary: a)
  case (Suc k)
  then show ?case by (cases "j = Suc k") (auto split: bind_splits)
qed simp

lemma first_visit_early:
  assumes first: "ancestor parents k e = Some a" "\<And>j. j < k \<Longrightarrow> ancestor parents j e \<noteq> Some a"
  shows "k \<le> length parents"
proof -
  let ?node = "\<lambda>i. the (ancestor parents i e)"
  have dom: "?node i \<in> dom (sm_find parents)" if "i < k" for i
  proof -
    from that first(1) obtain b where "ancestor parents (Suc i) e = Some b"
      using ancestor_prefix by (meson Suc_leI)
    then show ?thesis by (auto split: bind_splits)
  qed
  have inj: "inj_on ?node {..<k}"
  proof (rule linorder_inj_onI)
    fix i j assume ij: "i < j" "i \<in> {..<k}" "j \<in> {..<k}"
    show "?node i \<noteq> ?node j"
    proof
      assume "?node i = ?node j"
      moreover obtain b c where "ancestor parents i e = Some b" "ancestor parents j e = Some c"
        using ij first(1) ancestor_prefix by (meson lessThan_iff less_imp_le)
      ultimately have "ancestor parents i e = ancestor parents j e" by simp
      then have "ancestor parents (i + (k - j)) e = ancestor parents (j + (k - j)) e"
        by (rule ancestor_repeat)
      then have "ancestor parents (i + (k - j)) e = Some a"
        using ij first(1) by simp
      moreover have "i + (k - j) < k" using ij by auto
      ultimately show False using first(2) by blast
    qed
  qed auto
  have "k = card (?node ` {..<k})"
    using inj by (simp add: card_image)
  also have "\<dots> \<le> card (dom (sm_find parents))"
    by (rule card_mono) (use dom in \<open>auto simp: dom_sm_find\<close>)
  also have "\<dots> \<le> length parents" by (rule card_dom_sm_find)
  finally show ?thesis .
qed

lemma any_in_chain_iff:
  "any_in_chain parents e P \<longleftrightarrow> (\<exists>a. (e, a) \<in> (parent_rel parents)\<^sup>* \<and> P a)"
proof
  assume "any_in_chain parents e P"
  then show "\<exists>a. (e, a) \<in> (parent_rel parents)\<^sup>* \<and> P a"
    by (auto simp: any_in_chain_def any_in_chain_loop_iff ancestor_rtrancl simp del: any_in_chain_loop.simps)
next
  assume "\<exists>a. (e, a) \<in> (parent_rel parents)\<^sup>* \<and> P a"
  then obtain a k where "ancestor parents k e = Some a" "P a"
    by (auto simp: ancestor_rtrancl)
  moreover define j where "j = (LEAST j. ancestor parents j e = Some a)"
  ultimately have "ancestor parents j e = Some a" "P a"
    and "\<And>i. i < j \<Longrightarrow> ancestor parents i e \<noteq> Some a"
    by (auto intro: LeastI dest: not_less_Least)
  moreover from this have "j \<le> length parents" by (intro first_visit_early)
  ultimately show "any_in_chain parents e P"
    by (auto simp: any_in_chain_def any_in_chain_loop_iff less_Suc_eq_le simp del: any_in_chain_loop.simps)
qed

section \<open>The map that is built\<close>

lemma sm_wf_build_parent_step [tc_wf]: "sm_wf parents \<Longrightarrow> sm_wf (build_parent_step pool x parents)"
  by (auto simp: build_parent_step_def tc_wf split: option.split)

lemma sm_wf_build_parent_fold: "sm_wf parents \<Longrightarrow> sm_wf (fold (build_parent_step pool) xs parents)"
  by (induction xs arbitrary: parents) (auto intro: tc_wf)

lemma sm_wf_build_parent_map [tc_wf, simp]: "sm_wf (build_parent_map pool)"
  by (simp add: build_parent_map_def sm_wf_build_parent_fold)

text \<open>An element of the pool under a parent element with another number.\<close>

definition pool_parent :: "ddop \<Rightarrow> u16 \<Rightarrow> u16 \<Rightarrow> bool" where
  "pool_parent pool n p \<longleftrightarrow>
     (\<exists>d el d' el'. Some (DeviceElementObject d el) \<in> set (pool_objects pool) \<and> el_number el = n \<and>
        get_object_by_id pool (el_parent_object el) = Some (DeviceElementObject d' el') \<and>
        el_number el' = p \<and> p \<noteq> n)"

lemma build_parent_step_cases:
  "build_parent_step pool x parents = parents \<or>
   (\<exists>d el d' el'. x = Some (DeviceElementObject d el) \<and>
      get_object_by_id pool (el_parent_object el) = Some (DeviceElementObject d' el') \<and>
      el_number el' \<noteq> el_number el \<and>
      build_parent_step pool x parents = sm_put (el_number el) (el_number el') parents)"
  by (auto simp: build_parent_step_def element_of_eq_Some split: option.split)

lemma build_parent_fold_sound:
  assumes "set xs \<subseteq> set (pool_objects pool)" "sm_wf parents"
    and "\<And>n p. sm_find parents n = Some p \<Longrightarrow> pool_parent pool n p"
  shows "sm_find (fold (build_parent_step pool) xs parents) n = Some p \<Longrightarrow> pool_parent pool n p"
  using assms
proof (induction xs arbitrary: parents)
  case (Cons x xs)
  have "pool_parent pool n' p'" if "sm_find (build_parent_step pool x parents) n' = Some p'" for n' p'
    using build_parent_step_cases [of pool x parents]
  proof (elim disjE exE conjE)
    fix d el d' el'
    assume x: "x = Some (DeviceElementObject d el)"
      and by_id: "get_object_by_id pool (el_parent_object el) = Some (DeviceElementObject d' el')"
      and ne: "el_number el' \<noteq> el_number el"
      and eq: "build_parent_step pool x parents = sm_put (el_number el) (el_number el') parents"
    have "pool_parent pool (el_number el) (el_number el')"
      using x by_id ne Cons.prems(2) unfolding pool_parent_def by auto
    then show "pool_parent pool n' p'"
      using that Cons.prems(3,4) unfolding eq by (auto simp: smap.find_put split: if_splits)
  qed (use that Cons.prems in auto)
  then show ?case
    using Cons.IH [OF _ _ sm_wf_build_parent_step] Cons.prems by simp
qed simp

lemma build_parent_fold_keeps:
  "sm_wf parents \<Longrightarrow> sm_find parents n \<noteq> None \<Longrightarrow> sm_find (fold (build_parent_step pool) xs parents) n \<noteq> None"
proof (induction xs arbitrary: parents)
  case (Cons x xs)
  have "sm_find (build_parent_step pool x parents) n \<noteq> None"
    using build_parent_step_cases [of pool x parents] Cons.prems by (auto simp: smap.find_put)
  then show ?case using Cons by (simp add: tc_wf)
qed simp

lemma build_parent_fold_complete:
  assumes "sm_wf parents" "Some (DeviceElementObject d el) \<in> set xs"
    and "get_object_by_id pool (el_parent_object el) = Some (DeviceElementObject d' el')"
    and "el_number el' \<noteq> el_number el"
  shows "sm_find (fold (build_parent_step pool) xs parents) (el_number el) \<noteq> None"
  using assms(1,2)
proof (induction xs arbitrary: parents)
  case (Cons x xs)
  show ?case
  proof (cases "x = Some (DeviceElementObject d el)")
    case True
    then have "build_parent_step pool x parents = sm_put (el_number el) (el_number el') parents"
      using assms(3,4) by (simp add: build_parent_step_def)
    then show ?thesis
      using build_parent_fold_keeps [OF smap.wf_put [OF Cons.prems(1)]] Cons.prems(1)
      by (simp add: smap.find_put)
  next
    case False
    with Cons show ?thesis by (simp add: tc_wf)
  qed
qed simp

lemma build_parent_map_sound: "sm_find (build_parent_map pool) n = Some p \<Longrightarrow> pool_parent pool n p"
  unfolding build_parent_map_def by (rule build_parent_fold_sound) auto

lemma build_parent_map_dom: "sm_find (build_parent_map pool) n \<noteq> None \<longleftrightarrow> (\<exists>p. pool_parent pool n p)"
proof
  assume "\<exists>p. pool_parent pool n p"
  then show "sm_find (build_parent_map pool) n \<noteq> None"
    unfolding build_parent_map_def pool_parent_def
    by (auto dest: build_parent_fold_complete [of "[]", simplified, rotated])
qed (use build_parent_map_sound in blast)

end
