(* ===== verification/Section_Codec.thy ===== *)
theory Section_Codec
  imports TC_Prelude
begin

text \<open>
  The three bit layouts that carry section states: the condensed work state of a process data
  value (sixteen sections, two bits each, in 32 bits; \<open>MyTCServer::on_value_command\<close> and
  \<open>MyTCServer::send_section_setpoint_states\<close>), the 64 section bits of PGN 229 and the section
  bytes of the heartbeat PGN 240 (one bit per section, least significant first).
\<close>

section \<open>Condensed work states\<close>

text \<open>\<open>((processDataValue >> (2 * i)) & 0x03)\<close> on a signed 32-bit value.\<close>

definition condensed_state :: "i32 \<Rightarrow> nat \<Rightarrow> u8" where
  "condensed_state processDataValue i = ucast (signed_drop_bit (2 * i) processDataValue AND 3)"

text \<open>\<open>value |= state << (2 * i)\<close> for \<open>i\<close> from 0 to 15.\<close>

definition condensed_value :: "(nat \<Rightarrow> u8) \<Rightarrow> u32" where
  "condensed_value state = fold (\<lambda>i value. value OR push_bit (2 * i) (ucast (state i))) [0..<16] 0"

lemma condensed_state_eq: "condensed_state v i = ucast (take_bit 2 (signed_drop_bit (2 * i) v))"
  by (simp add: condensed_state_def and_3_eq_take_bit)

lemma bit_condensed_state: "i < 16 \<Longrightarrow> bit (condensed_state v i) n \<longleftrightarrow> n < 2 \<and> bit v (2 * i + n)"
  by (auto simp: condensed_state_eq bit_simps)

lemma condensed_state_le: "condensed_state v i \<le> 3"
proof -
  have "condensed_state v i = ucast (signed_drop_bit (2 * i) v) AND 3"
    unfolding and_3_eq_take_bit condensed_state_eq
    by (intro bit_word_eqI) (auto simp: bit_simps)
  then show ?thesis by (simp add: word_and_3_le)
qed

lemma bit_condensed_value:
  assumes "\<And>i. i < 16 \<Longrightarrow> state i \<le> 3" "n < 32"
  shows "bit (condensed_value state) n \<longleftrightarrow> bit (state (n div 2)) (n mod 2)"
proof -
  have "bit (condensed_value state) n \<longleftrightarrow>
      (\<exists>i<16. 2 * i \<le> n \<and> bit (state i) (n - 2 * i))"
    using assms(2)
    by (simp add: condensed_value_def bit_fold_or bit_simps Bex_def)
      (metis bit_imp_le_length diff_le_self le_less_trans)
  also have "\<dots> \<longleftrightarrow> bit (state (n div 2)) (n mod 2)"
  proof
    assume "\<exists>i<16. 2 * i \<le> n \<and> bit (state i) (n - 2 * i)"
    then obtain i where i: "i < 16" "2 * i \<le> n" "bit (state i) (n - 2 * i)" by blast
    then have "n - 2 * i < 2"
      using assms(1) less_of_bits_2 by (meson linorder_not_less)
    then have "i = n div 2" "n - 2 * i = n mod 2" using i(2) by presburger+
    with i(3) show "bit (state (n div 2)) (n mod 2)" by simp
  next
    assume "bit (state (n div 2)) (n mod 2)"
    moreover have "n div 2 < 16" "2 * (n div 2) \<le> n" "n - 2 * (n div 2) = n mod 2"
      using assms(2) by presburger+
    ultimately show "\<exists>i<16. 2 * i \<le> n \<and> bit (state i) (n - 2 * i)" by metis
  qed
  finally show ?thesis .
qed

lemma condensed_decode_encode:
  assumes "\<And>i. i < 16 \<Longrightarrow> state i \<le> 3" "i < 16"
  shows "condensed_state (condensed_value state) i = state i"
proof (rule bit_word_eqI)
  fix n
  have "bit (condensed_state (condensed_value state) i) n \<longleftrightarrow> n < 2 \<and> bit (state i) n"
    using assms by (auto simp: bit_condensed_state bit_condensed_value less_2_cases_iff)
  also have "\<dots> \<longleftrightarrow> bit (state i) n"
    using less_of_bits_2 [OF assms(1) [OF assms(2)]] by (meson linorder_not_less)
  finally show "bit (condensed_state (condensed_value state) i) n = bit (state i) n" .
qed

lemma condensed_encode_decode: "condensed_value (condensed_state v) = v"
proof (rule bit_word_eqI)
  fix n assume "n < LENGTH(32)"
  then have n: "n < 32" by simp
  have "bit (condensed_value (condensed_state v)) n \<longleftrightarrow> bit (condensed_state v (n div 2)) (n mod 2)"
    using n by (intro bit_condensed_value condensed_state_le)
  also have "\<dots> \<longleftrightarrow> bit v n"
    using n by (simp add: bit_condensed_state)
  finally show "bit (condensed_value (condensed_state v)) n = bit v n" .
qed

lemma condensed_value_cong: "(\<And>i. i < 16 \<Longrightarrow> f i = g i) \<Longrightarrow> condensed_value f = condensed_value g"
  unfolding condensed_value_def by (rule fold_cong) auto

section \<open>One bit per section\<close>

text \<open>
  The two nested loops of the PGN 229 handler: bit \<open>i\<close> of byte \<open>j\<close>, for eight bytes, appended in
  order. \<open>data[j] & (1 << i)\<close> converts to \<open>true\<close> when it is not zero.
\<close>

definition decode_sections :: "bytes \<Rightarrow> bool list" where
  "decode_sections data = concat (map (\<lambda>j. map (\<lambda>i. data ! j AND push_bit i 1 \<noteq> 0) [0..<8]) [0..<8])"

text \<open>
  The heartbeat's inner loop: eight sections per byte while the index is below the count. The state
  is the byte under construction and the running section index.
\<close>

fun heartbeat_byte :: "(u8 \<Rightarrow> bool) \<Rightarrow> u8 \<Rightarrow> nat list \<Rightarrow> u8 \<times> u8 \<Rightarrow> u8 \<times> u8" where
  "heartbeat_byte on n [] (byte, idx) = (byte, idx)"
| "heartbeat_byte on n (i # is) (byte, idx) =
     (if idx < n then heartbeat_byte on n is (byte OR push_bit i (if on idx then 1 else 0), idx + 1)
      else heartbeat_byte on n is (byte, idx))"

lemma and_push_bit_1: "x AND push_bit i (1 :: 'a::len word) \<noteq> 0 \<longleftrightarrow> bit x i"
proof
  assume "x AND push_bit i 1 \<noteq> 0"
  then obtain k where "bit (x AND push_bit i 1) k" by (metis bit_0_eq bot_apply bot_bool_def bit_word_eqI)
  then show "bit x i" by (auto simp: bit_simps)
next
  assume b: "bit x i"
  then have "bit (x AND push_bit i 1) i" by (auto simp: bit_simps dest: bit_imp_le_length)
  then show "x AND push_bit i 1 \<noteq> 0" by auto
qed

lemma and_two_power: "x AND 2 ^ i \<noteq> (0 :: 'a::len word) \<longleftrightarrow> bit x i"
  using and_push_bit_1 [of x i] by simp

lemma length_decode_sections [simp]: "length (decode_sections data) = 64"
  by (simp add: decode_sections_def length_concat o_def sum_list_triv)

lemma nth_concat_blocks:
  assumes "\<And>j. j < m \<Longrightarrow> length (f j) = b" "j < m" "i < b"
  shows "concat (map f [0..<m]) ! (b * j + i) = f j ! i"
  using assms
proof (induction m)
  case (Suc m)
  have len: "length (concat (map f [0..<m])) = b * m"
    using Suc.prems(1) by (simp add: length_concat o_def) (induction m, auto)
  show ?case
  proof (cases "j < m")
    case True
    then have "b * j + i < b * m"
      using Suc.prems(3) by (metis add_less_cancel_left less_le_trans mult_Suc_right mult_le_mono2 Suc_leI add.commute)
    with True Suc show ?thesis by (simp add: nth_append len)
  next
    case False
    with Suc.prems(2) have "j = m" by simp
    then show ?thesis by (simp add: nth_append len)
  qed
qed simp

lemma nth_decode_sections:
  assumes "j < 8" "i < 8"
  shows "decode_sections data ! (8 * j + i) \<longleftrightarrow> bit (data ! j) i"
proof -
  have "decode_sections data ! (8 * j + i) \<longleftrightarrow>
      map (\<lambda>i. data ! j AND push_bit i 1 \<noteq> 0) [0..<8] ! i"
    unfolding decode_sections_def by (rule nth_concat_blocks) (use assms in auto)
  then show ?thesis using assms(2) by (simp add: and_two_power)
qed


section \<open>The heartbeat bytes\<close>

lemma heartbeat_byte_snd:
  "unat idx \<le> unat n \<Longrightarrow>
     unat (snd (heartbeat_byte on n is (byte, idx))) = min (unat n) (unat idx + length is)"
proof (induction "is" arbitrary: byte idx)
  case (Cons i "is")
  show ?case
  proof (cases "idx < n")
    case True
    then have "unat (idx + 1) = unat idx + 1"
      using u8_less_256 [of n] by (simp add: word_less_nat_alt unat_word_ariths)
    with True Cons show ?thesis by (simp add: word_less_nat_alt)
  next
    case False
    with Cons show ?thesis by (simp add: word_less_nat_alt)
  qed
qed simp

text \<open>The outer loop pushes one byte per round until the index reaches the section count.\<close>

function heartbeat_bytes :: "(u8 \<Rightarrow> bool) \<Rightarrow> u8 \<Rightarrow> u8 \<Rightarrow> bytes" where
  "heartbeat_bytes on n idx =
     (if idx < n
      then (case heartbeat_byte on n [0..<8] (0, idx) of
              (byte, idx') \<Rightarrow> byte # heartbeat_bytes on n idx')
      else [])"
  by pat_completeness auto
termination
proof (relation "measure (\<lambda>(on, n, idx). unat n - unat idx)")
  fix on :: "u8 \<Rightarrow> bool" and n idx byte idx'
  assume "idx < n" "(byte, idx') = heartbeat_byte on n [0..<8] (0, idx)"
  then show "((on, n, idx'), on, n, idx) \<in> measure (\<lambda>(on, n, idx). unat n - unat idx)"
    using heartbeat_byte_snd [of idx n on "[0..<8]" 0]
    by (cases "heartbeat_byte on n [0..<8] (0, idx)") (simp add: word_less_nat_alt min_def split: if_splits)
qed simp

declare heartbeat_bytes.simps [simp del]

lemma bit_or_shifted:
  "bit (byte OR push_bit k (if c then 1 else 0) :: u8) t \<longleftrightarrow> bit byte t \<or> (c \<and> t = k \<and> t < 8)"
  by (auto simp: bit_simps)

lemma bit_heartbeat_byte:
  "unat idx \<le> unat n \<Longrightarrow>
     bit (fst (heartbeat_byte on n [k..<k + m] (byte, idx))) t \<longleftrightarrow>
     bit byte t \<or> (k \<le> t \<and> t < k + m \<and> t < 8 \<and> unat idx + (t - k) < unat n \<and> on (of_nat (unat idx + (t - k))))"
proof (induction m arbitrary: k byte idx)
  case (Suc m)
  have upt: "[k..<k + Suc m] = k # [Suc k..<Suc k + m]"
    by (simp add: upt_rec)
  show ?case
  proof (cases "idx < n")
    case True
    then have idx: "unat (idx + 1) = Suc (unat idx)" "unat idx < unat n"
      using u8_less_256 [of n] by (simp_all add: word_less_nat_alt unat_word_ariths)
    have "bit (fst (heartbeat_byte on n [k..<k + Suc m] (byte, idx))) t \<longleftrightarrow>
        bit (byte OR push_bit k (if on idx then 1 else 0)) t \<or>
        (Suc k \<le> t \<and> t < Suc k + m \<and> t < 8 \<and> unat (idx + 1) + (t - Suc k) < unat n \<and>
         on (of_nat (unat (idx + 1) + (t - Suc k))))"
      unfolding upt heartbeat_byte.simps using True Suc.IH [of "idx + 1" "Suc k"] idx by simp
    moreover have "Suc k \<le> t \<Longrightarrow> Suc (unat idx) + (t - Suc k) = unat idx + (t - k)" by simp
    ultimately show ?thesis
      unfolding bit_or_shifted idx(1) using idx(2) by (cases "t = k") auto
  next
    case False
    then have "\<not> unat idx + d < unat n" for d
      by (simp add: word_less_nat_alt)
    with False show ?thesis
      unfolding upt heartbeat_byte.simps using Suc.IH [of idx "Suc k"] Suc.prems by simp
  qed
qed auto

lemma heartbeat_bytes_length:
  "unat idx \<le> unat n \<Longrightarrow> length (heartbeat_bytes on n idx) = (unat n - unat idx + 7) div 8"
proof (induction on n idx rule: heartbeat_bytes.induct)
  case (1 on n idx)
  obtain byte idx' where step: "heartbeat_byte on n [0..<8] (0, idx) = (byte, idx')" by fastforce
  then have idx': "unat idx' = min (unat n) (unat idx + 8)"
    using heartbeat_byte_snd [OF "1.prems", of on "[0..<8]" 0] by simp
  show ?case
  proof (cases "idx < n")
    case True
    then have "length (heartbeat_bytes on n idx') = (unat n - unat idx' + 7) div 8"
      using "1.IH" step idx' by auto
    moreover have "Suc ((unat n - unat idx' + 7) div 8) = (unat n - unat idx + 7) div 8"
    proof -
      define d where "d = unat n - unat idx"
      have "0 < d" "unat n - unat idx' = d - 8"
        using True idx' by (auto simp: d_def word_less_nat_alt)
      moreover have "Suc ((d - 8 + 7) div 8) = (d + 7) div 8" if "0 < d"
        using that by (cases "d \<le> 8") (auto simp: le_div_geq)
      ultimately show ?thesis by (simp add: d_def)
    qed
    ultimately show ?thesis
      using True step by (simp add: heartbeat_bytes.simps [of on n idx])
  next
    case False
    with "1.prems" show ?thesis
      by (simp add: heartbeat_bytes.simps [of on n n] heartbeat_bytes.simps [of on n idx] word_less_nat_alt)
  qed
qed

lemma bit_heartbeat_bytes:
  "unat idx \<le> unat n \<Longrightarrow> i < 8 \<Longrightarrow> j < length (heartbeat_bytes on n idx) \<Longrightarrow>
     bit (heartbeat_bytes on n idx ! j) i \<longleftrightarrow>
     unat idx + (8 * j + i) < unat n \<and> on (of_nat (unat idx + (8 * j + i)))"
proof (induction on n idx arbitrary: j rule: heartbeat_bytes.induct)
  case (1 on n idx)
  obtain byte idx' where step: "heartbeat_byte on n [0..<8] (0, idx) = (byte, idx')" by fastforce
  then have idx': "unat idx' = min (unat n) (unat idx + 8)"
    using heartbeat_byte_snd [OF "1.prems"(1), of on "[0..<8]" 0] by simp
  from "1.prems" have less: "idx < n"
    by (auto simp: heartbeat_bytes.simps [of on n idx] split: if_splits)
  have unfolded: "heartbeat_bytes on n idx = byte # heartbeat_bytes on n idx'"
    using less step by (simp add: heartbeat_bytes.simps [of on n idx])
  show ?case
  proof (cases j)
    case 0
    then show ?thesis
      using bit_heartbeat_byte [OF "1.prems"(1), of on 0 8 0 i] "1.prems"(2) step
      by (simp add: unfolded)
  next
    case (Suc j')
    then have "bit (heartbeat_bytes on n idx' ! j') i \<longleftrightarrow>
        unat idx' + (8 * j' + i) < unat n \<and> on (of_nat (unat idx' + (8 * j' + i)))"
      using "1.IH" [OF less step [symmetric]] "1.prems" idx' by (simp add: unfolded)
    moreover have "heartbeat_bytes on n idx ! j = heartbeat_bytes on n idx' ! j'"
      using Suc by (simp add: unfolded)
    moreover have "unat idx' + (8 * j' + i) = unat idx + (8 * j + i)" if "unat idx + 8 < unat n"
      using that idx' Suc by simp
    ultimately show ?thesis
      using idx' Suc by (cases "unat idx + 8 < unat n") (auto simp only: min_def split: if_splits, auto)
  qed
qed

end
