(* ===== verification/Client_State.thy ===== *)
theory Client_State
  imports Element_Hierarchy Section_Codec
begin

text \<open>
  \<open>ClientState\<close> of \<open>src/include/task_controller.hpp\<close> and \<open>src/src/task_controller.cpp\<close>: what the
  task controller keeps per connected implement. One definition per method. A section index is a
  \<open>uint8_t\<close> and the vectors are indexed with it unchecked, so the invariant \<open>client_wf\<close> says that
  every vector is as long as the section count and every stored state fits two bits.
\<close>

section \<open>State\<close>

text \<open>\<open>SectionState\<close>.\<close>

definition OFF :: u8 where "OFF = 0"
definition ON :: u8 where "ON = 1"
definition ERROR_SATE :: u8 where "ERROR_SATE = 2"
definition NOT_INSTALLED :: u8 where "NOT_INSTALLED = 3"

lemmas section_state_defs = OFF_def ON_def ERROR_SATE_def NOT_INSTALLED_def

record client_state =
  client_pool :: ddop
  areMeasurementCommandsSent :: bool
  ddiToElementNumber :: "(u16, u16) smap"
  numberOfSections :: u8
  sectionSetpointStates :: "u8 list"
  sectionActualStates :: "u8 list"
  sectionToElementNumber :: "u16 list"
  elementToSection :: "(u16, u8) smap"
  setpointWorkState :: bool
  actualWorkState :: bool
  elementWorkStates :: "(u16, bool) smap"
  elementParents :: parent_map
  isSectionControlEnabled :: bool
  usesPerElementControl :: bool
  perElementSetpointDDI :: u16

text \<open>A value-initialised \<open>ClientState()\<close>: the members without an initialiser are zero.\<close>

definition new_client_state :: client_state where
  "new_client_state =
     \<lparr>client_pool = empty_pool, areMeasurementCommandsSent = False, ddiToElementNumber = [],
      numberOfSections = 0, sectionSetpointStates = [], sectionActualStates = [],
      sectionToElementNumber = [], elementToSection = [], setpointWorkState = False,
      actualWorkState = False, elementWorkStates = [], elementParents = [],
      isSectionControlEnabled = False, usesPerElementControl = False, perElementSetpointDDI = 0\<rparr>"

section \<open>Operations\<close>

definition set_number_of_sections :: "u8 \<Rightarrow> client_state \<Rightarrow> client_state" where
  "set_number_of_sections number c = c\<lparr>
     numberOfSections := number,
     sectionSetpointStates := resize (unat number) 0 (sectionSetpointStates c),
     sectionActualStates := resize (unat number) 0 (sectionActualStates c),
     sectionToElementNumber := resize (unat number) 0 (sectionToElementNumber c)\<rparr>"

definition set_section_setpoint_state :: "u8 \<Rightarrow> u8 \<Rightarrow> client_state \<Rightarrow> client_state" where
  "set_section_setpoint_state sec state c =
     (if sec < numberOfSections c
      then c\<lparr>sectionSetpointStates := (sectionSetpointStates c)[unat sec := state]\<rparr> else c)"

definition set_section_actual_state :: "u8 \<Rightarrow> u8 \<Rightarrow> client_state \<Rightarrow> client_state" where
  "set_section_actual_state sec state c =
     (if sec < numberOfSections c
      then c\<lparr>sectionActualStates := (sectionActualStates c)[unat sec := state]\<rparr> else c)"

definition get_element_number_for_section :: "client_state \<Rightarrow> u8 \<Rightarrow> u16" where
  "get_element_number_for_section c sec =
     (if sec < numberOfSections c \<and> unat sec < length (sectionToElementNumber c)
      then sectionToElementNumber c ! unat sec else 0)"

definition set_element_number_for_section :: "u8 \<Rightarrow> u16 \<Rightarrow> client_state \<Rightarrow> client_state" where
  "set_element_number_for_section sec elementNumber c =
     (if sec < numberOfSections c \<and> unat sec < length (sectionToElementNumber c)
      then c\<lparr>sectionToElementNumber := (sectionToElementNumber c)[unat sec := elementNumber],
             elementToSection := sm_put elementNumber sec (elementToSection c)\<rparr>
      else c)"

definition try_get_section_for_element :: "client_state \<Rightarrow> u16 \<Rightarrow> u8 option" where
  "try_get_section_for_element c elementNumber = sm_find (elementToSection c) elementNumber"

definition get_section_setpoint_state :: "client_state \<Rightarrow> u8 \<Rightarrow> u8" where
  "get_section_setpoint_state c sec =
     (if sec < numberOfSections c then sectionSetpointStates c ! unat sec else NOT_INSTALLED)"

definition try_get_element_work_state :: "client_state \<Rightarrow> u16 \<Rightarrow> bool option" where
  "try_get_element_work_state c elementNumber = sm_find (elementWorkStates c) elementNumber"

definition set_element_work_state :: "u16 \<Rightarrow> bool \<Rightarrow> client_state \<Rightarrow> client_state" where
  "set_element_work_state elementNumber isWorking c =
     c\<lparr>elementWorkStates := sm_put elementNumber isWorking (elementWorkStates c)\<rparr>"

definition is_element_or_parent_off :: "client_state \<Rightarrow> u16 \<Rightarrow> bool" where
  "is_element_or_parent_off c elementNumber =
     any_in_chain (elementParents c) elementNumber
       (\<lambda>el. try_get_element_work_state c el = Some False)"

definition get_section_actual_state :: "client_state \<Rightarrow> u8 \<Rightarrow> u8" where
  "get_section_actual_state c sec =
     (if sec < numberOfSections c
      then if usesPerElementControl c then sectionActualStates c ! unat sec
           else if is_element_or_parent_off c (get_element_number_for_section c sec) then OFF
           else sectionActualStates c ! unat sec
      else NOT_INSTALLED)"

definition is_any_section_setpoint_on :: "client_state \<Rightarrow> bool" where
  "is_any_section_setpoint_on c = list_ex (\<lambda>state. state = ON) (sectionSetpointStates c)"

definition set_setpoint_work_state :: "bool \<Rightarrow> client_state \<Rightarrow> client_state" where
  "set_setpoint_work_state state c = c\<lparr>setpointWorkState := state\<rparr>"

definition set_actual_work_state :: "bool \<Rightarrow> client_state \<Rightarrow> client_state" where
  "set_actual_work_state state c = c\<lparr>actualWorkState := state\<rparr>"

definition set_section_control_enabled :: "bool \<Rightarrow> client_state \<Rightarrow> client_state" where
  "set_section_control_enabled state c = c\<lparr>isSectionControlEnabled := state\<rparr>"

definition set_uses_per_element_control :: "bool \<Rightarrow> client_state \<Rightarrow> client_state" where
  "set_uses_per_element_control state c = c\<lparr>usesPerElementControl := state\<rparr>"

definition set_per_element_setpoint_ddi :: "u16 \<Rightarrow> client_state \<Rightarrow> client_state" where
  "set_per_element_setpoint_ddi ddi c = c\<lparr>perElementSetpointDDI := ddi\<rparr>"

definition mark_measurement_commands_sent :: "client_state \<Rightarrow> client_state" where
  "mark_measurement_commands_sent c = c\<lparr>areMeasurementCommandsSent := True\<rparr>"

definition get_element_number_for_ddi :: "client_state \<Rightarrow> u16 \<Rightarrow> u16" where
  "get_element_number_for_ddi c ddi =
     (case sm_find (ddiToElementNumber c) ddi of Some el \<Rightarrow> el | None \<Rightarrow> 0)"

definition set_element_number_for_ddi :: "u16 \<Rightarrow> u16 \<Rightarrow> client_state \<Rightarrow> client_state" where
  "set_element_number_for_ddi ddi elementNumber c =
     c\<lparr>ddiToElementNumber := sm_put ddi elementNumber (ddiToElementNumber c)\<rparr>"

definition has_element_number_for_ddi :: "client_state \<Rightarrow> u16 \<Rightarrow> bool" where
  "has_element_number_for_ddi c ddi \<longleftrightarrow> sm_find (ddiToElementNumber c) ddi \<noteq> None"

definition build_element_hierarchy :: "client_state \<Rightarrow> client_state" where
  "build_element_hierarchy c = c\<lparr>elementParents := build_parent_map (client_pool c)\<rparr>"

section \<open>Invariant\<close>

definition is_setpoint :: "u8 \<Rightarrow> bool" where
  "is_setpoint v \<longleftrightarrow> v = OFF \<or> v = ON"

definition client_wf :: "client_state \<Rightarrow> bool" where
  "client_wf c \<longleftrightarrow>
     length (sectionSetpointStates c) = unat (numberOfSections c) \<and>
     length (sectionActualStates c) = unat (numberOfSections c) \<and>
     length (sectionToElementNumber c) = unat (numberOfSections c) \<and>
     (\<forall>v\<in>set (sectionSetpointStates c). is_setpoint v) \<and>
     (\<forall>v\<in>set (sectionActualStates c). v \<le> 3) \<and>
     sm_wf (ddiToElementNumber c) \<and> sm_wf (elementToSection c) \<and>
     sm_wf (elementWorkStates c) \<and> sm_wf (elementParents c) \<and>
     (\<forall>el sec. sm_find (elementToSection c) el = Some sec \<longrightarrow> sec < numberOfSections c) \<and>
     (numberOfSections c = 0 \<longrightarrow> ddiToElementNumber c = [])"

lemmas client_ops = set_section_setpoint_state_def set_section_actual_state_def
  set_element_number_for_section_def set_element_work_state_def set_setpoint_work_state_def
  set_actual_work_state_def set_section_control_enabled_def set_uses_per_element_control_def
  set_per_element_setpoint_ddi_def mark_measurement_commands_sent_def set_element_number_for_ddi_def
  build_element_hierarchy_def

lemma numberOfSections_frame [simp, tc_frame]:
  "numberOfSections (set_section_setpoint_state i v c) = numberOfSections c"
  "numberOfSections (set_section_actual_state i v c) = numberOfSections c"
  "numberOfSections (set_element_number_for_section i el c) = numberOfSections c"
  "numberOfSections (set_element_work_state el b c) = numberOfSections c"
  "numberOfSections (set_setpoint_work_state b c) = numberOfSections c"
  "numberOfSections (set_section_control_enabled b c) = numberOfSections c"
  "numberOfSections (mark_measurement_commands_sent c) = numberOfSections c"
  "numberOfSections (set_element_number_for_ddi d el c) = numberOfSections c"
  by (simp_all add: client_ops)

lemma client_wf_new [simp, tc_wf]: "client_wf new_client_state"
  by (simp add: client_wf_def new_client_state_def)

lemma client_wf_set_setpoint [tc_wf]: "client_wf c \<Longrightarrow> is_setpoint v \<Longrightarrow> client_wf (set_section_setpoint_state i v c)"
  by (auto simp: client_wf_def set_section_setpoint_state_def dest!: subsetD [OF set_update_subset_insert])

lemma client_wf_set_actual [tc_wf]: "client_wf c \<Longrightarrow> v \<le> 3 \<Longrightarrow> client_wf (set_section_actual_state i v c)"
  by (auto simp: client_wf_def set_section_actual_state_def dest!: subsetD [OF set_update_subset_insert])

lemma client_wf_set_element [tc_wf]: "client_wf c \<Longrightarrow> client_wf (set_element_number_for_section i el c)"
  by (auto simp: client_wf_def set_element_number_for_section_def tc_wf smap.find_put split: if_splits)

lemma client_wf_set_work_state [tc_wf]: "client_wf c \<Longrightarrow> client_wf (set_element_work_state el b c)"
  by (auto simp: client_wf_def set_element_work_state_def tc_wf)

lemma client_wf_set_ddi [tc_wf]:
  "client_wf c \<Longrightarrow> 0 < numberOfSections c \<Longrightarrow> client_wf (set_element_number_for_ddi d el c)"
  by (auto simp: client_wf_def set_element_number_for_ddi_def tc_wf)

lemma client_wf_flags [tc_wf]:
  "client_wf c \<Longrightarrow> client_wf (set_setpoint_work_state b c)"
  "client_wf c \<Longrightarrow> client_wf (set_actual_work_state b c)"
  "client_wf c \<Longrightarrow> client_wf (set_section_control_enabled b c)"
  "client_wf c \<Longrightarrow> client_wf (set_uses_per_element_control b c)"
  "client_wf c \<Longrightarrow> client_wf (set_per_element_setpoint_ddi d c)"
  "client_wf c \<Longrightarrow> client_wf (mark_measurement_commands_sent c)"
  "client_wf c \<Longrightarrow> client_wf (build_element_hierarchy c)"
  by (simp_all add: client_wf_def client_ops)

lemma client_wf_resize:
  assumes "client_wf c" "ddiToElementNumber c = []" "elementToSection c = []"
  shows "client_wf (set_number_of_sections n c)"
  using assms set_resize [of "unat n" 0 "sectionSetpointStates c"]
    set_resize [of "unat n" 0 "sectionActualStates c"]
  by (fastforce simp: client_wf_def set_number_of_sections_def is_setpoint_def OFF_def)

section \<open>The section vectors\<close>

text \<open>
  The contract of a bounded vector of section states: a read outside the range says
  \<open>NOT_INSTALLED\<close>, a write outside is ignored, a write inside is read back and touches no other
  section. The setpoint vector and the raw actual vector both satisfy it.
\<close>

locale section_vector =
  fixes count :: "'s \<Rightarrow> u8"
    and fetch :: "'s \<Rightarrow> u8 \<Rightarrow> u8"
    and store :: "u8 \<Rightarrow> u8 \<Rightarrow> 's \<Rightarrow> 's"
    and valid :: "u8 \<Rightarrow> bool"
    and ok :: "'s \<Rightarrow> bool"
  assumes count_store: "count (store i v s) = count s"
    and fetch_store: "ok s \<Longrightarrow> fetch (store i v s) j = (if j = i \<and> i < count s then v else fetch s j)"
    and fetch_outside: "\<not> j < count s \<Longrightarrow> fetch s j = NOT_INSTALLED"
    and ok_store: "ok s \<Longrightarrow> valid v \<Longrightarrow> ok (store i v s)"
begin

lemma count_fold: "count (fold (\<lambda>i. store (ix i) (f i)) is s) = count s"
  by (induction "is" arbitrary: s) (simp_all add: count_store)

lemma ok_fold: "ok s \<Longrightarrow> (\<And>i. i \<in> set is \<Longrightarrow> valid (f i)) \<Longrightarrow> ok (fold (\<lambda>i. store (ix i) (f i)) is s)"
  by (induction "is" arbitrary: s) (simp_all add: ok_store)

text \<open>Writing a block of sections: each section of the block reads back what was written to it.\<close>

lemma fetch_fold:
  assumes "ok s" "\<And>i. i \<in> set is \<Longrightarrow> valid (f i)" "inj_on ix (set is)" "distinct is"
  shows "fetch (fold (\<lambda>i. store (ix i) (f i)) is s) j =
           (if j < count s \<and> (\<exists>i\<in>set is. ix i = j) then f (THE i. i \<in> set is \<and> ix i = j) else fetch s j)"
  using assms
proof (induction "is" arbitrary: s)
  case (Cons i "is")
  have ok': "ok (store (ix i) (f i) s)" using Cons.prems by (simp add: ok_store)
  have the_i: "(THE i'. i' \<in> set (i # is) \<and> ix i' = ix i) = i"
    using Cons.prems(3) by (auto simp: inj_on_def)
  have the_tl: "(THE i'. i' \<in> set (i # is) \<and> ix i' = j) = (THE i'. i' \<in> set is \<and> ix i' = j)" if "ix i \<noteq> j"
    using that by (metis (no_types, opaque_lifting) list.set_intros(2) set_ConsD)
  have fresh: "\<not> (\<exists>i'\<in>set is. ix i' = ix i)"
    using Cons.prems(3,4) by (auto simp: inj_on_def)
  show ?case
    using Cons.IH [OF ok'] Cons.prems fresh the_i the_tl
    by (cases "ix i = j") (auto simp: fetch_store count_store inj_on_def)
qed simp

end

text \<open>The actual state as stored, before the element hierarchy is consulted.\<close>

definition raw_actual_state :: "client_state \<Rightarrow> u8 \<Rightarrow> u8" where
  "raw_actual_state c sec = (if sec < numberOfSections c then sectionActualStates c ! unat sec else NOT_INSTALLED)"

interpretation setpoints: section_vector numberOfSections get_section_setpoint_state set_section_setpoint_state is_setpoint client_wf
proof unfold_locales
  fix i v c j
  show "client_wf c \<Longrightarrow> get_section_setpoint_state (set_section_setpoint_state i v c) j =
      (if j = i \<and> i < numberOfSections c then v else get_section_setpoint_state c j)"
    by (auto simp: get_section_setpoint_state_def set_section_setpoint_state_def client_wf_def
        word_less_nat_alt nth_list_update)
qed (auto simp: get_section_setpoint_state_def tc_wf)

interpretation actuals: section_vector numberOfSections raw_actual_state set_section_actual_state "\<lambda>v. v \<le> 3" client_wf
proof unfold_locales
  fix i v c j
  show "client_wf c \<Longrightarrow> raw_actual_state (set_section_actual_state i v c) j =
      (if j = i \<and> i < numberOfSections c then v else raw_actual_state c j)"
    by (auto simp: raw_actual_state_def set_section_actual_state_def client_wf_def
        word_less_nat_alt nth_list_update)
qed (auto simp: raw_actual_state_def tc_wf)

lemma get_section_setpoint_state_cases:
  "client_wf c \<Longrightarrow> i < numberOfSections c \<Longrightarrow> is_setpoint (get_section_setpoint_state c i)"
  by (auto simp: get_section_setpoint_state_def client_wf_def word_less_nat_alt)

lemma get_section_setpoint_state_le:
  assumes "client_wf c"
  shows "get_section_setpoint_state c i \<le> 3"
proof (cases "i < numberOfSections c")
  case True
  then have "is_setpoint (get_section_setpoint_state c i)"
    by (rule get_section_setpoint_state_cases [OF assms])
  then show ?thesis by (auto simp: is_setpoint_def section_state_defs)
next
  case False
  then show ?thesis by (simp add: setpoints.fetch_outside NOT_INSTALLED_def)
qed

lemma raw_actual_state_le: "client_wf c \<Longrightarrow> raw_actual_state c i \<le> 3"
  by (auto simp: raw_actual_state_def client_wf_def NOT_INSTALLED_def word_less_nat_alt)

section \<open>The element hierarchy decides the actual state\<close>

lemma is_element_or_parent_off_iff:
  "is_element_or_parent_off c el \<longleftrightarrow>
     (\<exists>a. (el, a) \<in> (parent_rel (elementParents c))\<^sup>* \<and> sm_find (elementWorkStates c) a = Some False)"
  by (simp add: is_element_or_parent_off_def any_in_chain_iff try_get_element_work_state_def)

lemma get_section_actual_state_eq:
  "get_section_actual_state c i =
     (if \<not> i < numberOfSections c then NOT_INSTALLED
      else if \<not> usesPerElementControl c \<and> is_element_or_parent_off c (get_element_number_for_section c i) then OFF
      else raw_actual_state c i)"
  by (auto simp: get_section_actual_state_def raw_actual_state_def)

lemma is_any_section_setpoint_on_iff:
  assumes "client_wf c"
  shows "is_any_section_setpoint_on c \<longleftrightarrow> (\<exists>i < numberOfSections c. get_section_setpoint_state c i = ON)"
proof -
  have "is_any_section_setpoint_on c \<longleftrightarrow> (\<exists>k < unat (numberOfSections c). sectionSetpointStates c ! k = ON)"
    using assms by (simp add: is_any_section_setpoint_on_def list_ex_iff client_wf_def in_set_conv_nth)
  also have "\<dots> \<longleftrightarrow> (\<exists>i < numberOfSections c. get_section_setpoint_state c i = ON)"
  proof
    assume "\<exists>k < unat (numberOfSections c). sectionSetpointStates c ! k = ON"
    then obtain k where k: "k < unat (numberOfSections c)" "sectionSetpointStates c ! k = ON" by blast
    then have "unat (of_nat k :: u8) = k"
      using u8_less_256 [of "numberOfSections c"] by (simp add: unat_of_nat)
    then show "\<exists>i < numberOfSections c. get_section_setpoint_state c i = ON"
      using k by (intro exI [of _ "of_nat k"]) (simp add: get_section_setpoint_state_def word_less_nat_alt)
  qed (auto simp: get_section_setpoint_state_def word_less_nat_alt)
  finally show ?thesis .
qed

end
