(* ===== verification/Config_Path.thy ===== *)
theory Config_Path
  imports TC_Prelude
begin

text \<open>
  Where the program keeps its files: \<open>get_base_config_dir\<close> and \<open>Settings::get_filename_path\<close> of
  \<open>src/src/settings.cpp\<close>. The environment variables, the folder the Windows shell call answers and
  whether a directory can be created are observations of the operating system. \<open>None\<close> is the thrown
  \<open>std::runtime_error\<close>.
\<close>

datatype platform = Windows | Apple | Posix

record os_env =
  os_platform :: platform
  os_appdata :: "string option"
  os_home :: "string option"
  os_xdg_config_home :: "string option"
  os_create_directories :: "string \<Rightarrow> bool"
  os_can_write :: "string \<Rightarrow> bool"

definition project_name :: string where
  "project_name = ''AOG-TaskController''"

definition separator :: "platform \<Rightarrow> char" where
  "separator p = (if p = Windows then CHR 0x5C else CHR ''/'')"

text \<open>
  \<open>operator/\<close> of \<open>std::filesystem::path\<close> for a relative right-hand side: a separator is added
  unless the left-hand side is empty or already ends with one.
\<close>

definition is_sep :: "platform \<Rightarrow> char \<Rightarrow> bool" where
  "is_sep p c \<longleftrightarrow> c = CHR ''/'' \<or> (p = Windows \<and> c = CHR 0x5C)"

definition path_join :: "platform \<Rightarrow> string \<Rightarrow> string \<Rightarrow> string" where
  "path_join p a b = (if a = [] \<or> is_sep p (last a) then a @ b else a @ separator p # b)"

text \<open>\<open>parent_path\<close>: everything before the last separator.\<close>

definition parent_path :: "platform \<Rightarrow> string \<Rightarrow> string" where
  "parent_path p path = rev (tl (dropWhile (\<lambda>c. \<not> is_sep p c) (rev path)))"

definition get_base_config_dir :: "os_env \<Rightarrow> string option" where
  "get_base_config_dir env =
     (case os_platform env of
        Windows \<Rightarrow> map_option (\<lambda>path. path_join Windows path project_name) (os_appdata env)
      | Apple \<Rightarrow> map_option (\<lambda>home. path_join Apple (path_join Apple (path_join Apple home ''Library'')
                    ''Application Support'') project_name) (os_home env)
      | Posix \<Rightarrow>
          (case os_xdg_config_home env of
             Some (c # cs) \<Rightarrow> Some (path_join Posix (c # cs) project_name)
           | _ \<Rightarrow> map_option (\<lambda>home. path_join Posix (path_join Posix home ''.config'') project_name) (os_home env)))"

definition get_filename_path :: "os_env \<Rightarrow> string \<Rightarrow> string option" where
  "get_filename_path env fileName =
     (case get_base_config_dir env of
        None \<Rightarrow> None
      | Some basePath \<Rightarrow>
          (let fullPath = path_join (os_platform env) basePath fileName
           in if os_create_directories env (parent_path (os_platform env) fullPath)
              then Some fullPath else None))"

section \<open>Facts\<close>

lemma path_join_suffix: "\<exists>pre. path_join p a b = pre @ b"
  by (auto simp: path_join_def)

lemma path_join_inject: "path_join p a b = path_join p a b' \<longleftrightarrow> b = b'"
  by (auto simp: path_join_def)

lemma get_filename_path_Some:
  "get_filename_path env f = Some path \<Longrightarrow>
     \<exists>base. get_base_config_dir env = Some base \<and> path = path_join (os_platform env) base f"
  by (auto simp: get_filename_path_def Let_def split: option.splits if_splits)

text \<open>Different file names never collide on disk.\<close>

lemma get_filename_path_inject:
  "get_filename_path env f = Some path \<Longrightarrow> get_filename_path env g = Some path \<Longrightarrow> f = g"
  by (auto dest!: get_filename_path_Some simp: path_join_inject)

text \<open>A concrete operating system to run the model on.\<close>

definition sample_os :: os_env where
  "sample_os = \<lparr>os_platform = Posix, os_appdata = None, os_home = Some ''/root'', os_xdg_config_home = Some ''/c'',
     os_create_directories = (\<lambda>_. True), os_can_write = (\<lambda>_. True)\<rparr>"

end
