(* ===== verification/Tc_Server.thy ===== *)
theory Tc_Server
  imports Client_State Config_Path
begin

text \<open>
  The task controller server \<open>MyTCServer\<close> of \<open>src/src/task_controller.cpp\<close>: its two maps, the
  object pool life cycle (upload, activation, deactivation, timeout) and the value commands that
  implements send. Every entry point of the class takes \<open>clientsMutex\<close> for its whole body, so each
  is one atomic state transformer here. The calls into the base class that put a message on the bus
  are recorded in \<open>bus\<close>, in order; log lines are left out.
\<close>

section \<open>State and environment\<close>

text \<open>A \<open>shared_ptr\<close> to a control function, the key of both maps; the order is that of the pointers.\<close>

type_synonym cf = nat

datatype bus_msg =
  SetValue cf u16 u16 u32
| ChangeThreshold cf u16 u16 u32
| TimeInterval cf u16 u16 u32

fun msg_target :: "bus_msg \<Rightarrow> cf" where
  "msg_target (SetValue client ddi el v) = client"
| "msg_target (ChangeThreshold client ddi el v) = client"
| "msg_target (TimeInterval client ddi el v) = client"

text \<open>The implement geometry that the library derives from a pool.\<close>

record section_geometry =
  sec_element :: u16
  sec_width_mm :: "i32 option"

record sub_boom =
  sub_element :: u16
  sub_width_mm :: "i32 option"
  sub_sections :: "section_geometry list"

record boom_geometry =
  boom_element :: u16
  boom_x_mm :: "i32 option"
  boom_y_mm :: "i32 option"
  boom_sub_booms :: "sub_boom list"
  boom_sections :: "section_geometry list"

text \<open>
  Everything the server calls that is not in the repository: the pool parser and writer, the geometry
  helper, the NAME of a control function and the numbers of the override work states.
\<close>

record tc_env =
  deserialize_binary_object_pool :: "ddop \<Rightarrow> bytes \<Rightarrow> u64 \<Rightarrow> bool \<times> ddop"
  generate_binary_object_pool :: "ddop \<Rightarrow> bytes option"
  get_implement_geometry :: "ddop \<Rightarrow> boom_geometry list"
  get_full_name :: "cf \<Rightarrow> u64"
  CondensedSectionOverrideState1_16 :: u16
  CondensedSectionOverrideState241_256 :: u16
  env_os :: os_env

record tc_server =
  clients :: "(cf, client_state) smap"
  uploadedPools :: "(cf, bytes list) smap"
  bus :: "bus_msg list"
  files :: "string \<rightharpoonup> bytes"

definition new_server :: tc_server where
  "new_server = \<lparr>clients = [], uploadedPools = [], bus = [], files = Map.empty\<rparr>"

text \<open>
  \<open>clients[cf]\<close>: \<open>std::map::operator[]\<close> inserts a value-initialised state under a missing key.
  \<open>modify_client\<close> is an access that writes through the reference.
\<close>

definition client_at :: "tc_server \<Rightarrow> cf \<Rightarrow> client_state" where
  "client_at s client = (case sm_find (clients s) client of Some c \<Rightarrow> c | None \<Rightarrow> new_client_state)"

definition modify_client :: "cf \<Rightarrow> (client_state \<Rightarrow> client_state) \<Rightarrow> tc_server \<Rightarrow> tc_server" where
  "modify_client client f s = s\<lparr>clients := sm_put client (f (client_at s client)) (clients s)\<rparr>"

section \<open>Upload\<close>

definition store_device_descriptor_object_pool :: "cf \<Rightarrow> bytes \<Rightarrow> bool \<Rightarrow> tc_server \<Rightarrow> bool \<times> tc_server" where
  "store_device_descriptor_object_pool partnerCF binaryPool appendToPool s =
     (let queue = (case sm_find (uploadedPools s) partnerCF of None \<Rightarrow> [] | Some q \<Rightarrow> q)
      in (True, s\<lparr>uploadedPools := sm_put partnerCF (queue @ [binaryPool]) (uploadedPools s)\<rparr>))"

section \<open>Activation\<close>

datatype activation_error = NoErrors | ThereAreErrorsInTheDDOP | AnyOtherError
datatype pool_error = NoPoolErrors | UnknownObjectReference | AnyOtherPoolError

record activation_result =
  accepted :: bool
  activationError :: activation_error
  objectPoolError :: pool_error
  parentObjectIDOfFaultyObject :: u16
  faultyObjectID :: u16

definition NULL_OBJECT_ID :: u16 where "NULL_OBJECT_ID = 0xFFFF"

definition activation_outcome :: "bool \<Rightarrow> activation_error \<Rightarrow> pool_error \<Rightarrow> activation_result" where
  "activation_outcome ok ae pe =
     \<lparr>accepted = ok, activationError = ae, objectPoolError = pe,
      parentObjectIDOfFaultyObject = NULL_OBJECT_ID, faultyObjectID = NULL_OBJECT_ID\<rparr>"

text \<open>
  \<open>save_received_ddop\<close>: the received bytes go to a file named by their hash, once. A failure to find
  the directory is caught, a file that cannot be opened is only logged.
\<close>

definition received_ddop_name :: "u64 \<Rightarrow> bytes \<Rightarrow> string" where
  "received_ddop_name clientName rawPool =
     to_string (unat clientName) @ ''/received/'' @ hex_string 16 (unat (fnv1a rawPool)) @ ''.ddop''"

definition save_received_ddop :: "tc_env \<Rightarrow> u64 \<Rightarrow> bytes \<Rightarrow> (string \<rightharpoonup> bytes) \<Rightarrow> (string \<rightharpoonup> bytes)" where
  "save_received_ddop env clientName rawPool fs =
     (case get_filename_path (env_os env) (received_ddop_name clientName rawPool) of
        None \<Rightarrow> fs
      | Some path \<Rightarrow>
          if fs path \<noteq> None then fs
          else if os_can_write (env_os env) path then fs(path \<mapsto> rawPool) else fs)"

text \<open>The queued chunks are parsed one after the other into the same pool; the last answer is kept.\<close>

fun deserialize_chunks :: "tc_env \<Rightarrow> u64 \<Rightarrow> bytes list \<Rightarrow> bool \<times> ddop \<Rightarrow> bool \<times> ddop" where
  "deserialize_chunks env name [] (deserialized, pool) = (deserialized, pool)"
| "deserialize_chunks env name (chunk # chunks) (deserialized, pool) =
     deserialize_chunks env name chunks (deserialize_binary_object_pool env pool chunk name)"

text \<open>The sections in the order of the geometry: sub-booms of a boom first, then the boom's own.\<close>

definition boom_section_list :: "boom_geometry \<Rightarrow> section_geometry list" where
  "boom_section_list boom = concat (map sub_sections (boom_sub_booms boom)) @ boom_sections boom"

definition geometry_sections :: "boom_geometry list \<Rightarrow> section_geometry list" where
  "geometry_sections booms = concat (map boom_section_list booms)"

text \<open>\<open>numberOfSections++\<close> on a \<open>uint8_t\<close> beside the growing list of element numbers.\<close>

fun enumerate_sections :: "section_geometry list \<Rightarrow> u8 \<times> u16 list \<Rightarrow> u8 \<times> u16 list" where
  "enumerate_sections [] (number, elements) = (number, elements)"
| "enumerate_sections (x # xs) (number, elements) = enumerate_sections xs (number + 1, elements @ [sec_element x])"

text \<open>The loop that maps each section index to its element, \<open>i\<close> a \<open>uint8_t\<close> below both bounds.\<close>

definition map_section_elements :: "u8 \<Rightarrow> u16 list \<Rightarrow> client_state \<Rightarrow> client_state" where
  "map_section_elements number elements c =
     fold (\<lambda>i. set_element_number_for_section (of_nat i) (elements ! i)) [0..<min (unat number) (length elements)] c"

definition choose_control_method :: "control_flags \<Rightarrow> client_state \<Rightarrow> client_state" where
  "choose_control_method fl c =
     (if hasCondensedSetpoint fl then c
      else if hasSettableCondensedActual fl then c
      else if hasSettableActualWorkState fl
      then set_per_element_setpoint_ddi ActualWorkState (set_uses_per_element_control True c)
      else c)"

text \<open>The \<open>ClientState\<close> that a successfully parsed pool gives.\<close>

definition activated_state :: "tc_env \<Rightarrow> ddop \<Rightarrow> client_state" where
  "activated_state env pool =
     (let c0 = build_element_hierarchy (new_client_state\<lparr>client_pool := pool\<rparr>);
          (number, elements) = enumerate_sections (geometry_sections (get_implement_geometry env pool)) (0, []);
          c1 = set_number_of_sections number c0;
          c2 = map_section_elements number elements c1
      in choose_control_method (scan_control_methods (pool_objects pool) no_control_flags) c2)"

text \<open>The copy of the parsed pool kept under the client's localization label.\<close>

definition ddop_file_name :: "u64 \<Rightarrow> bytes \<Rightarrow> string" where
  "ddop_file_name name label = to_string (unat name) @ ''/'' @ sanitize_filename (trim_label label) @ ''.ddop''"

text \<open>\<open>None\<close>: the directory could not be made and the exception leaves \<open>activate_object_pool\<close>.\<close>

definition save_parsed_ddop :: "tc_env \<Rightarrow> u64 \<Rightarrow> bytes \<Rightarrow> ddop \<Rightarrow> (string \<rightharpoonup> bytes) \<Rightarrow> (string \<rightharpoonup> bytes) option" where
  "save_parsed_ddop env name label pool fs =
     (case generate_binary_object_pool env pool of
        None \<Rightarrow> Some fs
      | Some binaryPool \<Rightarrow>
          (case get_filename_path (env_os env) (ddop_file_name name label) of
             None \<Rightarrow> None
           | Some path \<Rightarrow> Some (if os_can_write (env_os env) path then fs(path \<mapsto> binaryPool) else fs)))"

definition SecondEditionDraft :: u8 where "SecondEditionDraft = 3"

text \<open>\<open>activate_object_pool\<close>; the result \<open>None\<close> is an exception that leaves the function.\<close>

definition activate_object_pool :: "tc_env \<Rightarrow> cf \<Rightarrow> tc_server \<Rightarrow> activation_result option \<times> tc_server" where
  "activate_object_pool env partnerCF s =
     (case sm_find (uploadedPools s) partnerCF of
        None \<Rightarrow> (Some (activation_outcome False AnyOtherError NoPoolErrors), s)
      | Some chunks \<Rightarrow>
          (let name = get_full_name env partnerCF;
               pool0 = empty_pool\<lparr>compatibility_level := SecondEditionDraft\<rparr>;
               (deserialized, pool) = deserialize_chunks env name chunks (False, pool0);
               s1 = s\<lparr>uploadedPools := sm_put partnerCF [] (uploadedPools s),
                      files := save_received_ddop env name (concat chunks) (files s)\<rparr>
           in if \<not> deserialized
              then (Some (activation_outcome False ThereAreErrorsInTheDDOP AnyOtherPoolError), s1)
              else case find_device_label (pool_objects pool) of
                None \<Rightarrow> (Some (activation_outcome False ThereAreErrorsInTheDDOP UnknownObjectReference), s1)
              | Some label \<Rightarrow>
                  (case save_parsed_ddop env name label pool (files s1) of
                     None \<Rightarrow> (None, s1)
                   | Some fs \<Rightarrow>
                       (Some (activation_outcome True NoErrors NoPoolErrors),
                        s1\<lparr>files := fs, clients := sm_put partnerCF (activated_state env pool) (clients s1)\<rparr>))))"

section \<open>Removal\<close>

definition deactivate_object_pool :: "cf \<Rightarrow> tc_server \<Rightarrow> bool \<times> tc_server" where
  "deactivate_object_pool partnerCF s =
     (True, s\<lparr>clients := sm_erase partnerCF (clients s), uploadedPools := sm_erase partnerCF (uploadedPools s)\<rparr>)"

definition delete_device_descriptor_object_pool :: "cf \<Rightarrow> tc_server \<Rightarrow> bool \<times> tc_server" where
  "delete_device_descriptor_object_pool partnerCF s =
     (True, s\<lparr>clients := sm_erase partnerCF (clients s), uploadedPools := sm_erase partnerCF (uploadedPools s)\<rparr>)"

definition on_client_timeout :: "cf \<Rightarrow> tc_server \<Rightarrow> tc_server" where
  "on_client_timeout partner s = s\<lparr>clients := sm_erase partner (clients s)\<rparr>"

section \<open>Constant answers\<close>

definition change_designator :: "cf \<Rightarrow> u16 \<Rightarrow> bytes \<Rightarrow> bool" where
  "change_designator partner objectID newDesignator = True"

definition get_is_stored_by_structure_label :: "cf \<Rightarrow> bytes \<Rightarrow> bytes \<Rightarrow> bool" where
  "get_is_stored_by_structure_label partner structureLabel extendedLabel = False"

definition get_is_stored_by_localization_label :: "cf \<Rightarrow> bytes \<Rightarrow> bool" where
  "get_is_stored_by_localization_label partner localizationLabel = False"

definition get_is_enough_memory_available :: "u32 \<Rightarrow> bool" where
  "get_is_enough_memory_available bytesNeeded = True"

section \<open>Value commands from an implement\<close>

text \<open>One condensed work state: sixteen sections from the offset of its identifier.\<close>

definition condensed_step :: "u8 \<Rightarrow> u16 \<Rightarrow> i32 \<Rightarrow> nat \<Rightarrow> client_state \<Rightarrow> client_state" where
  "condensed_step sectionIndexOffset elementNumber processDataValue i c =
     set_element_number_for_section (of_nat i + sectionIndexOffset) elementNumber
       (set_section_actual_state (of_nat i + sectionIndexOffset) (condensed_state processDataValue i) c)"

definition condensed_offset :: "u16 \<Rightarrow> u8" where
  "condensed_offset ddi = 16 * ucast (ddi - ActualCondensedWorkState1_16)"

definition on_value_command :: "cf \<Rightarrow> u16 \<Rightarrow> u16 \<Rightarrow> i32 \<Rightarrow> tc_server \<Rightarrow> bool \<times> tc_server" where
  "on_value_command partner ddi elementNumber processDataValue s =
     (True,
      if is_actual_condensed ddi
      then fold (\<lambda>i. modify_client partner (condensed_step (condensed_offset ddi) elementNumber processDataValue i))
             [0..<16] s
      else if ddi = SectionControlState
      then modify_client partner (set_section_control_enabled (processDataValue = 1)) s
      else if ddi = ActualWorkState
      then (let s1 = modify_client partner (set_element_work_state elementNumber (processDataValue = 1)) s;
                c = client_at s1 partner
            in if usesPerElementControl c
               then (case try_get_section_for_element c elementNumber of
                       None \<Rightarrow> s1
                     | Some sectionIndex \<Rightarrow>
                         modify_client partner
                           (set_section_actual_state sectionIndex (if processDataValue = 1 then ON else OFF)) s1)
               else s1)
      else s)"


section \<open>Well-formed servers\<close>

definition server_wf :: "tc_server \<Rightarrow> bool" where
  "server_wf s \<longleftrightarrow> sm_wf (clients s) \<and> sm_wf (uploadedPools s) \<and>
     (\<forall>client c. sm_find (clients s) client = Some c \<longrightarrow> client_wf c)"

lemma server_wf_new [tc_wf]: "server_wf new_server"
  by (simp add: server_wf_def new_server_def)

lemma server_wf_client_at [tc_wf]: "server_wf s \<Longrightarrow> client_wf (client_at s client)"
  by (auto simp: server_wf_def client_at_def split: option.split)

lemma server_wf_modify [tc_wf]:
  "server_wf s \<Longrightarrow> client_wf (f (client_at s client)) \<Longrightarrow> server_wf (modify_client client f s)"
  by (auto simp: server_wf_def modify_client_def smap.find_put tc_wf split: if_splits)

lemma modify_simps [simp]:
  "uploadedPools (modify_client client f s) = uploadedPools s"
  "files (modify_client client f s) = files s" "bus (modify_client client f s) = bus s"
  by (simp_all add: modify_client_def)

lemma client_at_modify:
  "server_wf s \<Longrightarrow> client_at (modify_client client f s) other =
     (if other = client then f (client_at s client) else client_at s other)"
  by (simp add: client_at_def modify_client_def server_wf_def smap.find_put)

lemma find_modify:
  "server_wf s \<Longrightarrow> sm_find (clients (modify_client client f s)) other =
     (if other = client then Some (f (client_at s client)) else sm_find (clients s) other)"
  by (simp add: modify_client_def server_wf_def smap.find_put)

lemma sm_put_put: "sm_put k v (sm_put k w m) = sm_put k v m"
  by (induction k w m rule: sm_put.induct) auto

lemma modify_modify:
  assumes "server_wf s"
  shows "modify_client client g (modify_client client f s) = modify_client client (\<lambda>c. g (f c)) s"
proof -
  have "client_at (modify_client client f s) client = f (client_at s client)"
    using assms by (auto simp: client_at_def modify_client_def server_wf_def smap.find_put)
  then show ?thesis by (simp add: modify_client_def sm_put_put)
qed

text \<open>A loop that only writes one client is one write of the whole loop's effect.\<close>

lemma fold_modify_client:
  assumes "server_wf s" "is \<noteq> []" "\<And>i c. i \<in> set is \<Longrightarrow> client_wf c \<Longrightarrow> client_wf (f i c)"
  shows "fold (\<lambda>i. modify_client client (f i)) is s = modify_client client (fold f is) s"
  using assms
proof (induction "is" arbitrary: s)
  case (Cons i "is")
  show ?case
  proof (cases "is = []")
    case True
    then show ?thesis by (simp add: comp_def)
  next
    case False
    have "server_wf (modify_client client (f i) s)"
      using Cons.prems by (auto intro!: tc_wf)
    with Cons False have "fold (\<lambda>i. modify_client client (f i)) is (modify_client client (f i) s) =
        modify_client client (fold f is) (modify_client client (f i) s)" by simp
    then show ?thesis
      using Cons.prems(1) by (simp add: modify_modify comp_def)
  qed
qed simp

section \<open>Activation: what a parsed pool gives\<close>

lemma enumerate_sections_eq:
  "enumerate_sections xs (number, elements) = (number + of_nat (length xs), elements @ map sec_element xs)"
  by (induction xs arbitrary: number elements) (simp_all add: algebra_simps)

lemma fold_set_element_wf:
  "client_wf c \<Longrightarrow> client_wf (fold (\<lambda>i. set_element_number_for_section (ix i) (f i)) is c)"
  by (induction "is" arbitrary: c) (auto intro: tc_wf)

lemma client_wf_choose [tc_wf]: "client_wf c \<Longrightarrow> client_wf (choose_control_method fl c)"
  by (auto simp: choose_control_method_def intro!: tc_wf)

lemma client_wf_with_pool: "client_wf c \<Longrightarrow> client_wf (c\<lparr>client_pool := pool\<rparr>)"
  by (simp add: client_wf_def)

lemma client_wf_activated [tc_wf]: "client_wf (activated_state env pool)"
proof -
  let ?c0 = "build_element_hierarchy (new_client_state\<lparr>client_pool := pool\<rparr>)"
  have "client_wf ?c0" by (intro tc_wf client_wf_with_pool)
  then have "client_wf (set_number_of_sections n ?c0)" for n
    by (rule client_wf_resize) (simp_all add: build_element_hierarchy_def new_client_state_def)
  then show ?thesis
    by (auto simp: activated_state_def Let_def map_section_elements_def split: prod.split
        intro!: tc_wf fold_set_element_wf)
qed

lemma choose_control_method_sections [simp]:
  "numberOfSections (choose_control_method fl c) = numberOfSections c"
  "sectionToElementNumber (choose_control_method fl c) = sectionToElementNumber c"
  "client_pool (choose_control_method fl c) = client_pool c"
  "elementParents (choose_control_method fl c) = elementParents c"
  "sectionActualStates (choose_control_method fl c) = sectionActualStates c"
  "sectionSetpointStates (choose_control_method fl c) = sectionSetpointStates c"
  by (simp_all add: choose_control_method_def client_ops)

lemma map_section_elements_frame [simp]:
  "numberOfSections (map_section_elements n es c) = numberOfSections c"
  "client_pool (map_section_elements n es c) = client_pool c"
  "elementParents (map_section_elements n es c) = elementParents c"
  "usesPerElementControl (map_section_elements n es c) = usesPerElementControl c"
  "perElementSetpointDDI (map_section_elements n es c) = perElementSetpointDDI c"
  "sectionActualStates (map_section_elements n es c) = sectionActualStates c"
  "sectionSetpointStates (map_section_elements n es c) = sectionSetpointStates c"
proof -
  define ks where "ks = [0..<min (unat n) (length es)]"
  show "numberOfSections (map_section_elements n es c) = numberOfSections c"
    "client_pool (map_section_elements n es c) = client_pool c"
    "elementParents (map_section_elements n es c) = elementParents c"
    "usesPerElementControl (map_section_elements n es c) = usesPerElementControl c"
    "perElementSetpointDDI (map_section_elements n es c) = perElementSetpointDDI c"
    "sectionActualStates (map_section_elements n es c) = sectionActualStates c"
    "sectionSetpointStates (map_section_elements n es c) = sectionSetpointStates c"
    unfolding map_section_elements_def ks_def [symmetric]
    by (induction ks arbitrary: c) (simp_all add: set_element_number_for_section_def)
qed

lemma fold_update_prefix:
  "k \<le> length xs \<Longrightarrow> k \<le> length es \<Longrightarrow> fold (\<lambda>i xs. xs[i := es ! i]) [0..<k] xs = take k es @ drop k xs"
proof (induction k)
  case (Suc k)
  then have "fold (\<lambda>i xs. xs[i := es ! i]) [0..<Suc k] xs = (take k es @ drop k xs)[k := es ! k]"
    by simp
  also have "\<dots> = take (Suc k) es @ drop (Suc k) xs"
    using Suc.prems by (simp add: list_update_append take_Suc_conv_app_nth flip: Cons_nth_drop_Suc)
  finally show ?case .
qed simp

lemma map_section_elements_vector:
  assumes "client_wf c" "numberOfSections c = n"
  shows "sectionToElementNumber (map_section_elements n es c) =
           take (unat n) es @ drop (length es) (sectionToElementNumber c)"
proof -
  define k where "k = min (unat n) (length es)"
  have len: "length (sectionToElementNumber c) = unat n"
    using assms by (simp add: client_wf_def)
  have "sectionToElementNumber (fold (\<lambda>i. set_element_number_for_section (of_nat i) (es ! i)) [0..<j] c) =
      fold (\<lambda>i xs. xs[i := es ! i]) [0..<j] (sectionToElementNumber c) \<and>
      numberOfSections (fold (\<lambda>i. set_element_number_for_section (of_nat i) (es ! i)) [0..<j] c) = n" if "j \<le> k" for j
    using that
  proof (induction j)
    case (Suc j)
    then have j: "j < unat n" by (simp add: k_def)
    then have "(of_nat j :: u8) < n" "unat (of_nat j :: u8) = j"
      using u8_less_256 [of n] by (simp_all add: of_nat_u8_less unat_of_nat)
    moreover have "length (fold (\<lambda>i xs. xs[i := es ! i]) [0..<j] (sectionToElementNumber c)) = unat n"
      using Suc.prems len by (simp add: fold_update_prefix k_def)
    ultimately show ?case
      using Suc j by (simp add: set_element_number_for_section_def)
  qed (use assms in simp)
  then have "sectionToElementNumber (map_section_elements n es c) =
      take k es @ drop k (sectionToElementNumber c)"
    by (simp add: map_section_elements_def fold_update_prefix len k_def)
  then show ?thesis
    by (cases "unat n \<le> length es") (simp_all add: k_def len)
qed

lemma activated_state_eqs:
  assumes "secs = geometry_sections (get_implement_geometry env pool)"
  shows "numberOfSections (activated_state env pool) = of_nat (length secs)"
    and "client_pool (activated_state env pool) = pool"
    and "elementParents (activated_state env pool) = build_parent_map pool"
    and "sectionSetpointStates (activated_state env pool) = replicate (length secs mod 256) OFF"
    and "sectionActualStates (activated_state env pool) = replicate (length secs mod 256) OFF"
    and "sectionToElementNumber (activated_state env pool) = map sec_element (take (length secs mod 256) secs)"
proof -
  let ?n = "of_nat (length secs) :: u8"
  let ?c0 = "build_element_hierarchy (new_client_state\<lparr>client_pool := pool\<rparr>)"
  have n: "unat ?n = length secs mod 256" by (simp add: unat_of_nat)
  have wf: "client_wf (set_number_of_sections ?n ?c0)"
    by (rule client_wf_resize)
      (auto simp: build_element_hierarchy_def new_client_state_def client_wf_def)
  have eq: "activated_state env pool = choose_control_method
      (scan_control_methods (pool_objects pool) no_control_flags)
      (map_section_elements ?n (map sec_element secs) (set_number_of_sections ?n ?c0))"
    by (simp add: activated_state_def Let_def enumerate_sections_eq assms)
  have nos: "numberOfSections (set_number_of_sections ?n ?c0) = ?n"
    by (simp add: set_number_of_sections_def)
  show "numberOfSections (activated_state env pool) = of_nat (length secs)"
    "client_pool (activated_state env pool) = pool"
    "elementParents (activated_state env pool) = build_parent_map pool"
    "sectionSetpointStates (activated_state env pool) = replicate (length secs mod 256) OFF"
    "sectionActualStates (activated_state env pool) = replicate (length secs mod 256) OFF"
    by (simp_all add: eq nos set_number_of_sections_def build_element_hierarchy_def new_client_state_def n OFF_def)
  have "sectionToElementNumber (activated_state env pool) = take (unat ?n) (map sec_element secs)
      @ drop (length secs) (replicate (unat ?n) 0)"
    by (simp add: eq map_section_elements_vector [OF wf nos])
      (simp add: set_number_of_sections_def build_element_hierarchy_def new_client_state_def)
  moreover have "unat ?n \<le> length secs" by (simp add: n)
  ultimately show "sectionToElementNumber (activated_state env pool) = map sec_element (take (length secs mod 256) secs)"
    by (simp add: n take_map)
qed

lemma activated_control_method:
  assumes "fl = scan_control_methods (pool_objects pool) no_control_flags"
  shows "usesPerElementControl (activated_state env pool) \<longleftrightarrow>
           \<not> hasCondensedSetpoint fl \<and> \<not> hasSettableCondensedActual fl \<and> hasSettableActualWorkState fl"
    and "usesPerElementControl (activated_state env pool) \<Longrightarrow>
           perElementSetpointDDI (activated_state env pool) = ActualWorkState"
proof -
  obtain n es where eq: "activated_state env pool = choose_control_method fl (map_section_elements n es
      (set_number_of_sections n (build_element_hierarchy (new_client_state\<lparr>client_pool := pool\<rparr>))))"
    by (simp add: activated_state_def Let_def enumerate_sections_eq assms)
  define c where "c = map_section_elements n es
      (set_number_of_sections n (build_element_hierarchy (new_client_state\<lparr>client_pool := pool\<rparr>)))"
  have c: "\<not> usesPerElementControl c"
    by (simp add: c_def set_number_of_sections_def build_element_hierarchy_def new_client_state_def)
  show "usesPerElementControl (activated_state env pool) \<longleftrightarrow>
      \<not> hasCondensedSetpoint fl \<and> \<not> hasSettableCondensedActual fl \<and> hasSettableActualWorkState fl"
    unfolding eq c_def [symmetric] using c by (simp add: choose_control_method_def client_ops)
  show "perElementSetpointDDI (activated_state env pool) = ActualWorkState"
    if "usesPerElementControl (activated_state env pool)"
    using c that unfolding eq c_def [symmetric]
    by (simp add: choose_control_method_def client_ops split: if_splits)
qed

section \<open>The handlers keep the server well-formed\<close>

lemma server_wf_store [tc_wf]: "server_wf s \<Longrightarrow> server_wf (snd (store_device_descriptor_object_pool client bin app s))"
  by (auto simp: server_wf_def store_device_descriptor_object_pool_def tc_wf)

lemma server_wf_activate [tc_wf]:
  assumes "server_wf s"
  shows "server_wf (snd (activate_object_pool env client s))"
proof (cases "sm_find (uploadedPools s) client")
  case None
  with assms show ?thesis by (simp add: activate_object_pool_def)
next
  case (Some chunks)
  obtain d pool where "deserialize_chunks env (get_full_name env client) chunks
      (False, empty_pool\<lparr>compatibility_level := SecondEditionDraft\<rparr>) = (d, pool)" by fastforce
  with assms Some show ?thesis
    by (auto simp: activate_object_pool_def Let_def server_wf_def smap.find_put tc_wf
        split: option.split if_splits)
qed

lemma server_wf_remove [tc_wf]:
  assumes "server_wf s"
  shows "server_wf (snd (deactivate_object_pool client s))"
    and "server_wf (snd (delete_device_descriptor_object_pool client s))"
    and "server_wf (on_client_timeout client s)"
  using assms
  by (auto simp: server_wf_def deactivate_object_pool_def delete_device_descriptor_object_pool_def
      on_client_timeout_def smap.find_erase tc_wf split: if_splits)

lemma client_wf_condensed_step [tc_wf]: "client_wf c \<Longrightarrow> client_wf (condensed_step off el v i c)"
  by (auto simp: condensed_step_def intro!: tc_wf condensed_state_le)

lemma on_value_condensed:
  assumes "server_wf s" "is_actual_condensed ddi"
  shows "snd (on_value_command client ddi el v s) =
           modify_client client (fold (condensed_step (condensed_offset ddi) el v) [0..<16]) s"
  using fold_modify_client [OF assms(1), of "[0..<16]" "condensed_step (condensed_offset ddi) el v"]
    assms(2) by (simp add: on_value_command_def tc_wf)

lemma client_wf_fold_condensed [tc_wf]: "client_wf c \<Longrightarrow> client_wf (fold (condensed_step off el v) is c)"
  by (induction "is" arbitrary: c) (auto intro: tc_wf)

lemma server_wf_value_command [tc_wf]:
  assumes "server_wf s"
  shows "server_wf (snd (on_value_command client ddi el v s))"
proof (cases "is_actual_condensed ddi")
  case True
  with assms show ?thesis by (auto simp: on_value_condensed intro!: tc_wf)
next
  case False
  with assms show ?thesis
    by (auto simp: on_value_command_def Let_def section_state_defs split: option.split intro!: tc_wf)
qed

section \<open>What a value command does\<close>

lemma condensed_offset_block:
  assumes "b < 16"
  shows "condensed_offset (ActualCondensedWorkState1_16 + of_nat b) = of_nat b * 16"
proof -
  have "ucast (of_nat b :: u16) = (of_nat b :: u8)"
    by (rule unat_inject [THEN iffD1]) (use assms in \<open>simp add: unat_of_nat unsigned_ucast_eq take_bit_nat_eq_self\<close>)
  then show ?thesis by (simp add: condensed_offset_def mult.commute)
qed

lemma is_actual_condensed_block: "b < 16 \<Longrightarrow> is_actual_condensed (ActualCondensedWorkState1_16 + of_nat b)"
  by (simp add: is_actual_condensed_def ddi_defs word_le_nat_alt unat_word_ariths unat_of_nat)

lemma raw_actual_set_element [simp]: "raw_actual_state (set_element_number_for_section i el c) = raw_actual_state c"
  by (auto simp: raw_actual_state_def set_element_number_for_section_def)

lemma fold_condensed_count [simp]: "numberOfSections (fold (condensed_step off el v) is c) = numberOfSections c"
  by (induction "is" arbitrary: c) (simp_all add: condensed_step_def)

lemma raw_actual_condensed_step:
  "client_wf c \<Longrightarrow> raw_actual_state (condensed_step off el v i c) j =
     (if j = of_nat i + off \<and> j < numberOfSections c then condensed_state v i else raw_actual_state c j)"
  by (auto simp: condensed_step_def actuals.fetch_store)

lemma fold_condensed_state:
  assumes "client_wf c" "b < 16" "k \<le> 16"
  shows "raw_actual_state (fold (condensed_step (of_nat b * 16) el v) [0..<k] c) j =
           (if 16 * b \<le> unat j \<and> unat j < 16 * b + k \<and> j < numberOfSections c
            then condensed_state v (unat j - 16 * b) else raw_actual_state c j)"
  using assms(3)
proof (induction k)
  case (Suc k)
  let ?c = "fold (condensed_step (of_nat b * 16) el v) [0..<k] c"
  have wf: "client_wf ?c" using assms(1) by (rule client_wf_fold_condensed)
  have "j = of_nat k + of_nat b * 16 \<longleftrightarrow> unat j = 16 * b + k"
    using unat_block_offset [OF assms(2), of k] Suc.prems by (metis Suc_le_lessD add.commute unat_inject)
  then show ?case
    using Suc by (auto simp: raw_actual_condensed_step [OF wf])
qed auto

lemma client_at_touched:
  assumes "server_wf s" "other \<noteq> client"
  shows "client_at (snd (on_value_command client ddi el v s)) other = client_at s other"
proof (cases "is_actual_condensed ddi")
  case True
  with assms show ?thesis by (simp add: on_value_condensed client_at_modify)
next
  case False
  with assms show ?thesis
    by (simp add: on_value_command_def Let_def client_at_modify tc_wf split: option.split)
qed

end
