(* ===== verification/Tc_Sections.thy ===== *)
theory Tc_Sections
  imports Tc_Server
begin

text \<open>
  The half of \<open>MyTCServer\<close> that commands implements: pushing the section setpoints, the section
  control state and the GNSS quality. Each loop
  \<open>for (auto &client : clients)\<close> visits the entries in key order and writes only the entry it is at,
  so its body is a function from one client's state to its new state and the messages it sends; the
  messages of the clients follow each other on the bus.
\<close>

section \<open>Loops over the clients\<close>

fun for_clients :: "(cf \<Rightarrow> client_state \<Rightarrow> client_state \<times> bus_msg list) \<Rightarrow>
    (cf, client_state) smap \<Rightarrow> (cf, client_state) smap \<times> bus_msg list" where
  "for_clients body [] = ([], [])"
| "for_clients body ((client, c) # m) =
     (let (c', out) = body client c; (m', out') = for_clients body m in ((client, c') # m', out @ out'))"

definition each_client :: "(cf \<Rightarrow> client_state \<Rightarrow> client_state \<times> bus_msg list) \<Rightarrow> tc_server \<Rightarrow> tc_server" where
  "each_client body s =
     (let (m, out) = for_clients body (clients s) in s\<lparr>clients := m, bus := bus s @ out\<rparr>)"

section \<open>Section setpoints\<close>

definition NUMBER_SECTIONS_PER_CONDENSED_MESSAGE :: nat where
  "NUMBER_SECTIONS_PER_CONDENSED_MESSAGE = 16"

definition setpoint_value :: "client_state \<Rightarrow> u8 \<Rightarrow> u32" where
  "setpoint_value c sectionOffset = condensed_value (\<lambda>i. get_section_setpoint_state c (sectionOffset + of_nat i))"

definition work_state_value :: "bool \<Rightarrow> u32" where
  "work_state_value b = (if b then 1 else 0)"

text \<open>Identifier 289, sent when the global work state changed and the implement has it.\<close>

definition send_setpoint_work_state :: "cf \<Rightarrow> client_state \<Rightarrow> client_state \<times> bus_msg list" where
  "send_setpoint_work_state client c =
     (let setpointWorkState' = is_any_section_setpoint_on c
      in if setpointWorkState c \<noteq> setpointWorkState' \<and> has_element_number_for_ddi c SetpointWorkState
         then (set_setpoint_work_state setpointWorkState' c,
               [SetValue client SetpointWorkState (get_element_number_for_ddi c SetpointWorkState)
                  (work_state_value setpointWorkState')])
         else (c, []))"

text \<open>The per-element loop, which stops at the first index past the last section.\<close>

fun per_element_messages :: "cf \<Rightarrow> client_state \<Rightarrow> u8 \<Rightarrow> nat list \<Rightarrow> bus_msg list" where
  "per_element_messages client c sectionOffset [] = []"
| "per_element_messages client c sectionOffset (i # is) =
     (let sectionIndex = sectionOffset + of_nat i
      in if sectionIndex \<ge> numberOfSections c then []
         else (let elementNumber = get_element_number_for_section c sectionIndex
               in (if elementNumber \<noteq> 0
                   then [SetValue client (perElementSetpointDDI c) elementNumber
                           (work_state_value (get_section_setpoint_state c sectionIndex = ON))]
                   else []) @ per_element_messages client c sectionOffset is))"

definition is_ddi_settable :: "client_state \<Rightarrow> u16 \<Rightarrow> bool" where
  "is_ddi_settable c ddi = is_ddi_settable_loop (pool_objects (client_pool c)) ddi"

definition send_section_setpoint_states :: "cf \<Rightarrow> u8 \<Rightarrow> client_state \<Rightarrow> client_state \<times> bus_msg list" where
  "send_section_setpoint_states client ddiOffset c =
     (let sectionOffset = ddiOffset * of_nat NUMBER_SECTIONS_PER_CONDENSED_MESSAGE;
          value = setpoint_value c sectionOffset;
          ddiTarget = SetpointCondensedWorkState1_16 + ucast ddiOffset;
          ddiTargetLegacy = ActualCondensedWorkState1_16 + ucast ddiOffset
      in if has_element_number_for_ddi c ddiTarget
         then (let (c', out) = send_setpoint_work_state client c
               in (c', SetValue client ddiTarget (get_element_number_for_ddi c ddiTarget) value # out))
         else if has_element_number_for_ddi c ddiTargetLegacy
         then (c, if is_ddi_settable c ddiTargetLegacy
                  then [SetValue client ddiTargetLegacy (get_element_number_for_ddi c ddiTargetLegacy) value]
                  else [])
         else if usesPerElementControl c
         then (let (c', out) = send_setpoint_work_state client c
               in (c', per_element_messages client c sectionOffset
                         [0..<NUMBER_SECTIONS_PER_CONDENSED_MESSAGE] @ out))
         else (c, []))"

text \<open>
  The loop over the sections of one client. Its state is the client, the messages sent and
  \<open>requiresUpdate\<close>; a block of sixteen is sent when the next block starts, the last one after the
  loop.
\<close>

definition flush_block :: "cf \<Rightarrow> u8 \<Rightarrow> client_state \<times> bus_msg list \<Rightarrow> client_state \<times> bus_msg list" where
  "flush_block client ddiOffset st =
     (let (c', out) = send_section_setpoint_states client ddiOffset (fst st) in (c', snd st @ out))"

definition demand_differs :: "bool list \<Rightarrow> client_state \<Rightarrow> nat \<Rightarrow> bool" where
  "demand_differs sectionStates c i \<longleftrightarrow>
     i < length sectionStates \<and> sectionStates ! i \<noteq> (get_section_setpoint_state c (of_nat i) = ON)"

definition write_demand :: "bool list \<Rightarrow> nat \<Rightarrow> client_state \<Rightarrow> client_state" where
  "write_demand sectionStates i c =
     (if demand_differs sectionStates c i
      then set_section_setpoint_state (of_nat i) (if sectionStates ! i then ON else OFF) c else c)"

definition section_step :: "cf \<Rightarrow> bool list \<Rightarrow> nat \<Rightarrow> (client_state \<times> bus_msg list) \<times> bool \<Rightarrow>
    (client_state \<times> bus_msg list) \<times> bool" where
  "section_step client sectionStates i st =
     (let (st1, requiresUpdate1) =
            (if i mod NUMBER_SECTIONS_PER_CONDENSED_MESSAGE = 0 \<and> snd st
             then (flush_block client (of_nat (i div NUMBER_SECTIONS_PER_CONDENSED_MESSAGE - 1)) (fst st), False)
             else st)
      in ((write_demand sectionStates i (fst st1), snd st1),
          requiresUpdate1 \<or> demand_differs sectionStates (fst st1) i))"

definition update_client_sections :: "bool list \<Rightarrow> cf \<Rightarrow> client_state \<Rightarrow> client_state \<times> bus_msg list" where
  "update_client_sections sectionStates client c =
     (if \<not> isSectionControlEnabled c then (c, [])
      else if numberOfSections c = 0 then (c, [])
      else (let n = unat (numberOfSections c);
                (st, requiresUpdate) = fold (section_step client sectionStates) [0..<n] ((c, []), False)
            in if requiresUpdate
               then flush_block client (of_nat ((n - 1) div NUMBER_SECTIONS_PER_CONDENSED_MESSAGE)) st
               else st))"

definition update_section_states :: "bool list \<Rightarrow> tc_server \<Rightarrow> tc_server" where
  "update_section_states sectionStates = each_client (update_client_sections sectionStates)"

section \<open>Section control state and GNSS quality\<close>

definition send_section_control_state :: "cf \<Rightarrow> bool \<Rightarrow> client_state \<Rightarrow> bus_msg list" where
  "send_section_control_state client enabled c =
     [SetValue client SectionControlState (get_element_number_for_ddi c SectionControlState) (if enabled then 1 else 0)]"

definition update_client_control_enabled :: "bool \<Rightarrow> cf \<Rightarrow> client_state \<Rightarrow> client_state \<times> bus_msg list" where
  "update_client_control_enabled enabled client c =
     (let c' = (if isSectionControlEnabled c \<noteq> enabled then set_section_control_enabled enabled c else c)
      in (c', if has_element_number_for_ddi c' SectionControlState \<and> numberOfSections c' > 0
              then send_section_control_state client enabled c' else []))"

definition update_section_control_enabled :: "bool \<Rightarrow> tc_server \<Rightarrow> tc_server" where
  "update_section_control_enabled enabled = each_client (update_client_control_enabled enabled)"

definition send_client_gnss_quality :: "u8 \<Rightarrow> cf \<Rightarrow> client_state \<Rightarrow> client_state \<times> bus_msg list" where
  "send_client_gnss_quality quality client c =
     (c, if has_element_number_for_ddi c GNSSQuality
         then [SetValue client GNSSQuality (get_element_number_for_ddi c GNSSQuality) (ucast quality)] else [])"

definition send_gnss_quality :: "u8 \<Rightarrow> tc_server \<Rightarrow> tc_server" where
  "send_gnss_quality quality = each_client (send_client_gnss_quality quality)"


section \<open>What a loop over the clients does\<close>

lemma for_clients_eq:
  "for_clients body m =
     (map (\<lambda>(client, c). (client, fst (body client c))) m, concat (map (\<lambda>(client, c). snd (body client c)) m))"
  by (induction m) (auto simp: split_beta)

lemma each_client_eq:
  "each_client body s = s\<lparr>
     clients := map (\<lambda>(client, c). (client, fst (body client c))) (clients s),
     bus := bus s @ concat (map (\<lambda>(client, c). snd (body client c)) (clients s))\<rparr>"
  by (simp add: each_client_def for_clients_eq)

lemma each_client_frame [simp]:
  "uploadedPools (each_client body s) = uploadedPools s" "files (each_client body s) = files s"
  by (simp_all add: each_client_eq)

lemma sm_find_map_entries:
  "sm_find (map (\<lambda>(k, v). (k, f k v)) m) k = map_option (f k) (sm_find m k)"
  unfolding sm_find_def by (induction m) auto

lemma find_each_client:
  "sm_find (clients (each_client body s)) client = map_option (\<lambda>c. fst (body client c)) (sm_find (clients s) client)"
  by (simp add: each_client_eq sm_find_map_entries)

lemma sm_wf_each_client: "sm_wf (clients s) \<Longrightarrow> sm_wf (clients (each_client body s))"
  by (simp add: each_client_eq sm_wf_def case_prod_unfold comp_def)

lemma server_wf_each_client:
  assumes "server_wf s" "\<And>client c. client_wf c \<Longrightarrow> client_wf (fst (body client c))"
  shows "server_wf (each_client body s)"
  using assms by (auto simp: server_wf_def find_each_client sm_wf_each_client)

lemma in_bus_each_client:
  assumes "server_wf s"
  shows "set (bus (each_client body s)) =
     set (bus s) \<union> {m. \<exists>client c. sm_find (clients s) client = Some c \<and> m \<in> set (snd (body client c))}"
proof -
  have "sm_find (clients s) client = Some c \<longleftrightarrow> (client, c) \<in> set (clients s)" for client c
    using assms by (auto simp: server_wf_def sm_in_find dest: sm_find_Some_in)
  then show ?thesis by (auto simp: each_client_eq)
qed

lemma bus_each_client:
  "\<exists>new. bus (each_client body s) = bus s @ new \<and>
     (\<forall>m\<in>set new. \<exists>client c. (client, c) \<in> set (clients s) \<and> m \<in> set (snd (body client c)))"
  by (auto simp: each_client_eq)

section \<open>Sending one block\<close>

lemma send_setpoint_work_state_frame [simp]:
  "numberOfSections (fst (send_setpoint_work_state client c)) = numberOfSections c"
  "sectionSetpointStates (fst (send_setpoint_work_state client c)) = sectionSetpointStates c"
  "ddiToElementNumber (fst (send_setpoint_work_state client c)) = ddiToElementNumber c"
  "isSectionControlEnabled (fst (send_setpoint_work_state client c)) = isSectionControlEnabled c"
  "client_pool (fst (send_setpoint_work_state client c)) = client_pool c"
  "sectionToElementNumber (fst (send_setpoint_work_state client c)) = sectionToElementNumber c"
  "usesPerElementControl (fst (send_setpoint_work_state client c)) = usesPerElementControl c"
  "perElementSetpointDDI (fst (send_setpoint_work_state client c)) = perElementSetpointDDI c"
  by (simp_all add: send_setpoint_work_state_def Let_def set_setpoint_work_state_def)

lemma send_frame [simp]:
  "numberOfSections (fst (send_section_setpoint_states client b c)) = numberOfSections c"
  "sectionSetpointStates (fst (send_section_setpoint_states client b c)) = sectionSetpointStates c"
  "ddiToElementNumber (fst (send_section_setpoint_states client b c)) = ddiToElementNumber c"
  "isSectionControlEnabled (fst (send_section_setpoint_states client b c)) = isSectionControlEnabled c"
  "client_pool (fst (send_section_setpoint_states client b c)) = client_pool c"
  "sectionToElementNumber (fst (send_section_setpoint_states client b c)) = sectionToElementNumber c"
  "usesPerElementControl (fst (send_section_setpoint_states client b c)) = usesPerElementControl c"
  "perElementSetpointDDI (fst (send_section_setpoint_states client b c)) = perElementSetpointDDI c"
  by (simp_all add: send_section_setpoint_states_def Let_def split_beta)

lemma setpoint_state_send [simp]:
  "get_section_setpoint_state (fst (send_section_setpoint_states client b c)) = get_section_setpoint_state c"
  by (rule ext) (simp add: get_section_setpoint_state_def)

lemma client_wf_send [tc_wf]:
  "client_wf c \<Longrightarrow> client_wf (fst (send_section_setpoint_states client b c))"
  by (simp add: send_section_setpoint_states_def send_setpoint_work_state_def Let_def split_beta tc_wf)

lemma flush_block_frame [simp]:
  "numberOfSections (fst (flush_block client b st)) = numberOfSections (fst st)"
  "get_section_setpoint_state (fst (flush_block client b st)) = get_section_setpoint_state (fst st)"
  "ddiToElementNumber (fst (flush_block client b st)) = ddiToElementNumber (fst st)"
  "isSectionControlEnabled (fst (flush_block client b st)) = isSectionControlEnabled (fst st)"
  "client_pool (fst (flush_block client b st)) = client_pool (fst st)"
  "usesPerElementControl (fst (flush_block client b st)) = usesPerElementControl (fst st)"
  "perElementSetpointDDI (fst (flush_block client b st)) = perElementSetpointDDI (fst st)"
  by (simp_all add: flush_block_def split_beta)

lemma client_wf_flush [tc_wf]: "client_wf (fst st) \<Longrightarrow> client_wf (fst (flush_block client b st))"
  by (simp add: flush_block_def split_beta tc_wf)

lemma write_demand_frame [simp]:
  "numberOfSections (write_demand ss i c) = numberOfSections c"
  "ddiToElementNumber (write_demand ss i c) = ddiToElementNumber c"
  "isSectionControlEnabled (write_demand ss i c) = isSectionControlEnabled c"
  "client_pool (write_demand ss i c) = client_pool c"
  "usesPerElementControl (write_demand ss i c) = usesPerElementControl c"
  "perElementSetpointDDI (write_demand ss i c) = perElementSetpointDDI c"
  "setpointWorkState (write_demand ss i c) = setpointWorkState c"
  by (simp_all add: write_demand_def set_section_setpoint_state_def)

lemma client_wf_write_demand [tc_wf]: "client_wf c \<Longrightarrow> client_wf (write_demand ss i c)"
  by (simp add: write_demand_def tc_wf is_setpoint_def)

definition demanded :: "bool list \<Rightarrow> client_state \<Rightarrow> u8 \<Rightarrow> u8" where
  "demanded ss c j = (if unat j < length ss \<and> j < numberOfSections c then (if ss ! unat j then ON else OFF)
                      else get_section_setpoint_state c j)"

lemma write_demand_state:
  assumes "client_wf c" "i < unat (numberOfSections c)"
  shows "get_section_setpoint_state (write_demand ss i c) j =
           (if j = of_nat i then demanded ss c j else get_section_setpoint_state c j)"
proof -
  have i: "unat (of_nat i :: u8) = i" "(of_nat i :: u8) < numberOfSections c"
    using assms(2) u8_less_256 [of "numberOfSections c"] by (auto simp: unat_of_nat of_nat_u8_less)
  have "is_setpoint (get_section_setpoint_state c (of_nat i))"
    using get_section_setpoint_state_cases [OF assms(1) i(2)] .
  then show ?thesis
    using i assms(1)
    by (auto simp: write_demand_def demand_differs_def demanded_def setpoints.fetch_store is_setpoint_def
        section_state_defs)
qed

section \<open>The loop is a blockwise update\<close>

text \<open>
  The reference: block by block, write the demand of the block and send the block when any of its
  sections differed. The loop of the code defers each send to the start of the next block.
\<close>

definition block_sections :: "nat \<Rightarrow> nat \<Rightarrow> nat list" where
  "block_sections n b = [16 * b..<min n (16 * b + 16)]"

definition update_block :: "cf \<Rightarrow> bool list \<Rightarrow> nat \<Rightarrow> nat \<Rightarrow> client_state \<times> bus_msg list \<Rightarrow> client_state \<times> bus_msg list" where
  "update_block client ss n b st =
     (let is = block_sections n b; st' = (fold (write_demand ss) is (fst st), snd st)
      in if list_ex (demand_differs ss (fst st)) is then flush_block client (of_nat b) st' else st')"

definition blocks_of :: "nat \<Rightarrow> nat" where
  "blocks_of n = (n + 15) div 16"

definition blockwise_update :: "bool list \<Rightarrow> cf \<Rightarrow> client_state \<Rightarrow> client_state \<times> bus_msg list" where
  "blockwise_update ss client c =
     fold (update_block client ss (unat (numberOfSections c))) [0..<blocks_of (unat (numberOfSections c))] (c, [])"

lemma write_demand_differs:
  assumes "client_wf c" "i < unat (numberOfSections c)" "j < unat (numberOfSections c)" "i \<noteq> j"
  shows "demand_differs ss (write_demand ss i c) j \<longleftrightarrow> demand_differs ss c j"
proof -
  have "(of_nat i :: u8) \<noteq> of_nat j"
    using assms u8_less_256 [of "numberOfSections c"]
    by (metis order_less_trans unat_of_nat_u8)
  then show ?thesis
    using assms by (auto simp: demand_differs_def write_demand_state)
qed

lemma section_steps_in_block:
  assumes "client_wf c" "distinct is" "\<And>i. i \<in> set is \<Longrightarrow> i < unat (numberOfSections c) \<and> i mod 16 \<noteq> 0"
  shows "fold (section_step client ss) is ((c, out), req) =
           ((fold (write_demand ss) is c, out), req \<or> list_ex (demand_differs ss c) is)"
  using assms
proof (induction "is" arbitrary: c req)
  case (Cons i "is")
  have "section_step client ss i ((c, out), req) = ((write_demand ss i c, out), req \<or> demand_differs ss c i)"
    using Cons.prems(3) [of i]
    by (simp add: section_step_def NUMBER_SECTIONS_PER_CONDENSED_MESSAGE_def split: prod.split)
  moreover have "list_ex (demand_differs ss (write_demand ss i c)) is = list_ex (demand_differs ss c) is"
    using Cons.prems write_demand_differs [OF Cons.prems(1)] by (intro list_ex_cong) (auto, metis+)
  ultimately show ?case
    using Cons.IH [of "write_demand ss i c"] Cons.prems by (simp add: tc_wf)
qed simp

definition finish :: "cf \<Rightarrow> nat \<Rightarrow> (client_state \<times> bus_msg list) \<times> bool \<Rightarrow> client_state \<times> bus_msg list" where
  "finish client b st = (if snd st then flush_block client (of_nat (b - 1)) (fst st) else fst st)"

lemma section_steps_block:
  assumes "client_wf (fst (fst st))" "n = unat (numberOfSections (fst (fst st)))" "16 * b < n"
  shows "finish client (Suc b) (fold (section_step client ss) (block_sections n b) st) =
           update_block client ss n b (finish client b st)"
proof -
  define st0 where "st0 = finish client b st"
  obtain c out where st0: "st0 = (c, out)" by fastforce
  have "client_wf (fst st0)" "unat (numberOfSections (fst st0)) = n"
    using assms by (auto simp: st0_def finish_def intro: tc_wf)
  then have wf: "client_wf c" and n: "unat (numberOfSections c) = n" by (simp_all add: st0)
  have is_eq: "block_sections n b = 16 * b # [Suc (16 * b)..<min n (16 * b + 16)]"
    using assms(3) by (simp add: block_sections_def upt_conv_Cons)
  have first: "section_step client ss (16 * b) st = ((write_demand ss (16 * b) c, out), demand_differs ss c (16 * b))"
    using st0 by (auto simp: section_step_def NUMBER_SECTIONS_PER_CONDENSED_MESSAGE_def st0_def finish_def
        split: prod.split if_splits)
  have rest: "i < unat (numberOfSections (write_demand ss (16 * b) c)) \<and> i mod 16 \<noteq> 0"
    if "i \<in> set [Suc (16 * b)..<min n (16 * b + 16)]" for i
  proof -
    have "0 < i - 16 * b" "i - 16 * b < 16" "i = 16 * b + (i - 16 * b)" using that by auto
    then have "i mod 16 = i - 16 * b" by (metis mod_less mod_mult_self4)
    then show ?thesis using that by (simp add: n)
  qed
  have "list_ex (demand_differs ss (write_demand ss (16 * b) c)) [Suc (16 * b)..<min n (16 * b + 16)] =
      list_ex (demand_differs ss c) [Suc (16 * b)..<min n (16 * b + 16)]"
    using wf n assms(3) by (intro list_ex_cong) (auto simp: write_demand_differs)
  moreover have "fold (section_step client ss) [Suc (16 * b)..<min n (16 * b + 16)]
        ((write_demand ss (16 * b) c, out), req) =
      ((fold (write_demand ss) [Suc (16 * b)..<min n (16 * b + 16)] (write_demand ss (16 * b) c), out),
       req \<or> list_ex (demand_differs ss (write_demand ss (16 * b) c)) [Suc (16 * b)..<min n (16 * b + 16)])" for req
    by (rule section_steps_in_block [OF client_wf_write_demand [OF wf] distinct_upt rest])
  ultimately have "fold (section_step client ss) (block_sections n b) st =
      ((fold (write_demand ss) (block_sections n b) c, out), list_ex (demand_differs ss c) (block_sections n b))"
    by (simp add: is_eq first)
  then show ?thesis
    unfolding st0_def [symmetric] st0 by (simp add: finish_def update_block_def Let_def)
qed

lemma section_steps_wf:
  "client_wf (fst (fst st)) \<Longrightarrow> client_wf (fst (fst (fold (section_step client ss) is st))) \<and>
     numberOfSections (fst (fst (fold (section_step client ss) is st))) = numberOfSections (fst (fst st))"
proof (induction "is" arbitrary: st)
  case (Cons i "is")
  then have "client_wf (fst (fst (section_step client ss i st)))"
    "numberOfSections (fst (fst (section_step client ss i st))) = numberOfSections (fst (fst st))"
    by (auto simp: section_step_def intro!: tc_wf split: prod.split)
  with Cons.IH show ?case by simp
qed simp

lemma update_client_sections_blockwise:
  assumes "client_wf c" "isSectionControlEnabled c"
  shows "update_client_sections ss client c = blockwise_update ss client c"
proof (cases "numberOfSections c = 0")
  case True
  then show ?thesis using assms by (simp add: update_client_sections_def blockwise_update_def blocks_of_def)
next
  case False
  define n where "n = unat (numberOfSections c)"
  have "0 < n" using False by (simp add: n_def word_greater_zero_iff unat_gt_0)
  have loop: "finish client b (fold (section_step client ss) [0..<min n (16 * b)] ((c, []), False)) =
      fold (update_block client ss n) [0..<b] (c, [])" if "b \<le> blocks_of n" for b
    using that
  proof (induction b)
    case 0
    show ?case by (simp add: finish_def)
  next
    case (Suc b)
    then have b: "16 * b < n" by (simp add: blocks_of_def)
    define st where "st = fold (section_step client ss) [0..<min n (16 * b)] ((c, []), False)"
    have "client_wf (fst (fst st))" "n = unat (numberOfSections (fst (fst st)))"
      using section_steps_wf [of "((c, []), False)"] assms(1) by (auto simp: st_def n_def)
    then have "finish client (Suc b) (fold (section_step client ss) (block_sections n b) st) =
        update_block client ss n b (finish client b st)" using b by (rule section_steps_block)
    moreover have "[0..<min n (16 * Suc b)] = [0..<min n (16 * b)] @ block_sections n b"
      using b upt_add_eq_append [of 0 "16 * b" "min n (16 * Suc b) - 16 * b"]
      by (simp add: block_sections_def add.commute)
    ultimately show ?case
      using Suc by (simp add: st_def)
  qed
  have "min n (16 * blocks_of n) = n" "blocks_of n - 1 = (n - 1) div 16"
    using \<open>0 < n\<close> by (auto simp: blocks_of_def)
  then show ?thesis
    using loop [of "blocks_of n"] assms(2) False
    by (simp add: update_client_sections_def blockwise_update_def n_def [symmetric] finish_def
        NUMBER_SECTIONS_PER_CONDENSED_MESSAGE_def split_beta Let_def split: if_splits)
qed

section \<open>The states and messages of the blockwise update\<close>

lemma write_demand_same: "\<not> demand_differs ss c i \<Longrightarrow> write_demand ss i c = c"
  by (simp add: write_demand_def)

lemma fold_write_demand_frame [simp]:
  "numberOfSections (fold (write_demand ss) is c) = numberOfSections c"
  "ddiToElementNumber (fold (write_demand ss) is c) = ddiToElementNumber c"
  "isSectionControlEnabled (fold (write_demand ss) is c) = isSectionControlEnabled c"
  "client_pool (fold (write_demand ss) is c) = client_pool c"
  "usesPerElementControl (fold (write_demand ss) is c) = usesPerElementControl c"
  "perElementSetpointDDI (fold (write_demand ss) is c) = perElementSetpointDDI c"
  "sectionToElementNumber (fold (write_demand ss) is c) = sectionToElementNumber c"
  "setpointWorkState (fold (write_demand ss) is c) = setpointWorkState c"
  by (induction "is" arbitrary: c) (simp_all add: write_demand_def set_section_setpoint_state_def)

lemma client_wf_fold_write_demand [tc_wf]: "client_wf c \<Longrightarrow> client_wf (fold (write_demand ss) is c)"
  by (induction "is" arbitrary: c) (auto intro: tc_wf)

lemma fold_write_demand_state:
  assumes "client_wf c" "\<And>i. i \<in> set is \<Longrightarrow> i < unat (numberOfSections c)"
  shows "get_section_setpoint_state (fold (write_demand ss) is c) j =
           (if unat j \<in> set is then demanded ss c j else get_section_setpoint_state c j)"
  using assms
proof (induction "is" arbitrary: c)
  case (Cons i "is")
  have i: "i < unat (numberOfSections c)" using Cons.prems(2) by simp
  have eq: "j = of_nat i \<longleftrightarrow> unat j = i"
    using i u8_less_256 [of "numberOfSections c"] by (metis less_trans unat_of_nat_u8 unat_inject)
  have "demanded ss (write_demand ss i c) j = demanded ss c j"
    using write_demand_state [OF Cons.prems(1) i, of ss j] by (auto simp: demanded_def)
  then show ?case
    using Cons.IH [of "write_demand ss i c"] Cons.prems i write_demand_state [OF Cons.prems(1) i, of ss j] eq
    by (auto simp: tc_wf)
qed simp

lemma fold_write_demand_same:
  "\<not> list_ex (demand_differs ss c) is \<Longrightarrow> fold (write_demand ss) is c = c"
  by (induction "is") (auto simp: write_demand_same)

lemma update_block_frame [simp]:
  "numberOfSections (fst (update_block client ss n b st)) = numberOfSections (fst st)"
  "ddiToElementNumber (fst (update_block client ss n b st)) = ddiToElementNumber (fst st)"
  "isSectionControlEnabled (fst (update_block client ss n b st)) = isSectionControlEnabled (fst st)"
  "client_pool (fst (update_block client ss n b st)) = client_pool (fst st)"
  "usesPerElementControl (fst (update_block client ss n b st)) = usesPerElementControl (fst st)"
  "perElementSetpointDDI (fst (update_block client ss n b st)) = perElementSetpointDDI (fst st)"
  "get_section_setpoint_state (fst (update_block client ss n b st)) =
     get_section_setpoint_state (fold (write_demand ss) (block_sections n b) (fst st))"
  by (simp_all add: update_block_def Let_def)

lemma sectionToElementNumber_update_block [simp]:
  "sectionToElementNumber (fst (update_block client ss n b st)) = sectionToElementNumber (fst st)"
  by (simp add: update_block_def Let_def flush_block_def split_beta)

lemma snd_update_block:
  "snd (update_block client ss n b st) = snd st @
     (if list_ex (demand_differs ss (fst st)) (block_sections n b)
      then snd (send_section_setpoint_states client (of_nat b) (fold (write_demand ss) (block_sections n b) (fst st)))
      else [])"
  by (simp add: update_block_def Let_def flush_block_def split_beta)

lemma client_wf_update_block [tc_wf]:
  "client_wf (fst st) \<Longrightarrow> client_wf (fst (update_block client ss n b st))"
  by (auto simp: update_block_def Let_def intro!: tc_wf)

abbreviation after_blocks :: "cf \<Rightarrow> bool list \<Rightarrow> nat \<Rightarrow> nat \<Rightarrow> client_state \<Rightarrow> client_state \<times> bus_msg list" where
  "after_blocks client ss n b c \<equiv> fold (update_block client ss n) [0..<b] (c, [])"

lemma after_blocks_frame [simp]:
  "numberOfSections (fst (after_blocks client ss n b c)) = numberOfSections c"
  "ddiToElementNumber (fst (after_blocks client ss n b c)) = ddiToElementNumber c"
  "isSectionControlEnabled (fst (after_blocks client ss n b c)) = isSectionControlEnabled c"
  "client_pool (fst (after_blocks client ss n b c)) = client_pool c"
  "usesPerElementControl (fst (after_blocks client ss n b c)) = usesPerElementControl c"
  "perElementSetpointDDI (fst (after_blocks client ss n b c)) = perElementSetpointDDI c"
  "sectionToElementNumber (fst (after_blocks client ss n b c)) = sectionToElementNumber c"
  by (induction b) simp_all

lemma client_wf_after_blocks [tc_wf]: "client_wf c \<Longrightarrow> client_wf (fst (after_blocks client ss n b c))"
  by (induction b) (auto intro: tc_wf)

lemma after_blocks_state:
  assumes "client_wf c" "n = unat (numberOfSections c)"
  shows "get_section_setpoint_state (fst (after_blocks client ss n b c)) j =
           (if unat j < 16 * b then demanded ss c j else get_section_setpoint_state c j)"
proof (induction b)
  case (Suc b)
  let ?c = "fst (after_blocks client ss n b c)"
  have "get_section_setpoint_state (fold (write_demand ss) (block_sections n b) ?c) j =
      (if unat j \<in> set (block_sections n b) then demanded ss ?c j else get_section_setpoint_state ?c j)"
    by (rule fold_write_demand_state) (auto simp: assms tc_wf block_sections_def)
  moreover have "demanded ss ?c j = demanded ss c j" if "unat j \<in> set (block_sections n b)"
    using that Suc by (auto simp: demanded_def block_sections_def)
  moreover have "demanded ss c j = get_section_setpoint_state c j" if "n \<le> unat j"
    using that by (simp add: demanded_def assms(2) word_less_nat_alt)
  ultimately show ?case
    using Suc by (auto simp: block_sections_def)
qed simp

lemma after_blocks_differs:
  assumes "client_wf c" "n = unat (numberOfSections c)" "16 * b \<le> i" "i < n"
  shows "demand_differs ss (fst (after_blocks client ss n b c)) i = demand_differs ss c i"
proof -
  have "unat (of_nat i :: u8) = i" using assms u8_less_256 [of "numberOfSections c"] by (simp add: unat_of_nat)
  then show ?thesis
    using assms by (simp add: demand_differs_def after_blocks_state)
qed

definition block_changed :: "bool list \<Rightarrow> client_state \<Rightarrow> nat \<Rightarrow> bool" where
  "block_changed ss c b = list_ex (demand_differs ss c) (block_sections (unat (numberOfSections c)) b)"

definition block_state :: "cf \<Rightarrow> bool list \<Rightarrow> client_state \<Rightarrow> nat \<Rightarrow> client_state" where
  "block_state client ss c b =
     fold (write_demand ss) (block_sections (unat (numberOfSections c)) b)
       (fst (after_blocks client ss (unat (numberOfSections c)) b c))"

lemma block_state_frame [simp]:
  "numberOfSections (block_state client ss c b) = numberOfSections c"
  "ddiToElementNumber (block_state client ss c b) = ddiToElementNumber c"
  "client_pool (block_state client ss c b) = client_pool c"
  "usesPerElementControl (block_state client ss c b) = usesPerElementControl c"
  "perElementSetpointDDI (block_state client ss c b) = perElementSetpointDDI c"
  "sectionToElementNumber (block_state client ss c b) = sectionToElementNumber c"
  by (simp_all add: block_state_def)

lemma client_wf_block_state [tc_wf]: "client_wf c \<Longrightarrow> client_wf (block_state client ss c b)"
  by (auto simp: block_state_def intro: tc_wf)

lemma block_state_state:
  assumes "client_wf c"
  shows "get_section_setpoint_state (block_state client ss c b) j =
           (if unat j < 16 * Suc b then demanded ss c j else get_section_setpoint_state c j)"
  using after_blocks_state [OF assms refl, of client ss "Suc b" j] by (simp add: block_state_def)

lemma after_blocks_messages:
  assumes "client_wf c"
  shows "snd (after_blocks client ss (unat (numberOfSections c)) b c) =
           concat (map (\<lambda>b. if block_changed ss c b
                            then snd (send_section_setpoint_states client (of_nat b) (block_state client ss c b))
                            else []) [0..<b])"
proof (induction b)
  case (Suc b)
  let ?n = "unat (numberOfSections c)"
  have "list_ex (demand_differs ss (fst (after_blocks client ss ?n b c))) (block_sections ?n b) = block_changed ss c b"
    unfolding block_changed_def
    by (rule list_ex_cong) (auto simp: block_sections_def after_blocks_differs [OF assms refl])
  then show ?case
    using Suc by (simp add: snd_update_block block_state_def)
qed simp

section \<open>Condensed messages\<close>

text \<open>What an update sends on the identifiers 290 to 305, the condensed setpoints.\<close>

fun is_condensed_setpoint :: "bus_msg \<Rightarrow> bool" where
  "is_condensed_setpoint (SetValue client ddi el v) = is_setpoint_condensed ddi"
| "is_condensed_setpoint m = False"

definition condensed_setpoint_ddi :: "nat \<Rightarrow> u16" where
  "condensed_setpoint_ddi b = SetpointCondensedWorkState1_16 + of_nat b"

lemma blocks_of_u8: "b < blocks_of (unat (n :: u8)) \<Longrightarrow> b < 16"
  using u8_less_256 [of n] by (simp add: blocks_of_def)

lemma setpoint_value_cong:
  "(\<And>j. 16 * b \<le> unat j \<Longrightarrow> unat j < 16 * b + 16 \<Longrightarrow>
     get_section_setpoint_state c j = get_section_setpoint_state d j) \<Longrightarrow> b < 16 \<Longrightarrow>
   setpoint_value c (of_nat b * 16) = setpoint_value d (of_nat b * 16)"
  unfolding setpoint_value_def by (rule condensed_value_cong) (simp add: unat_block_offset)

lemma setpoint_value_decode:
  assumes "client_wf c" "b < 16" "i < 16"
  shows "condensed_state (setpoint_value c (of_nat b * 16)) i = get_section_setpoint_state c (of_nat (16 * b + i))"
proof -
  have "condensed_state (setpoint_value c (of_nat b * 16)) i = get_section_setpoint_state c (of_nat b * 16 + of_nat i)"
    unfolding setpoint_value_def
    by (rule condensed_decode_encode) (use assms in \<open>auto intro: get_section_setpoint_state_le\<close>)
  then show ?thesis by (simp add: mult.commute)
qed

lemma is_setpoint_condensed_block: "b < 16 \<Longrightarrow> is_setpoint_condensed (condensed_setpoint_ddi b)"
  by (simp add: is_setpoint_condensed_def condensed_setpoint_ddi_def ddi_defs word_le_nat_alt
      unat_word_ariths unat_of_nat)

lemma work_state_not_condensed [simp]: "\<not> is_setpoint_condensed SetpointWorkState"
  by (simp add: is_setpoint_condensed_def ddi_defs)

lemma work_state_messages_not_condensed:
  "filter is_condensed_setpoint (snd (send_setpoint_work_state client c)) = []"
  by (simp add: send_setpoint_work_state_def Let_def)

lemma send_condensed:
  assumes "b < 16" "has_element_number_for_ddi c (condensed_setpoint_ddi b)"
  shows "filter is_condensed_setpoint (snd (send_section_setpoint_states client (of_nat b) c)) =
           [SetValue client (condensed_setpoint_ddi b) (get_element_number_for_ddi c (condensed_setpoint_ddi b))
              (setpoint_value c (of_nat b * 16))]"
  using assms is_setpoint_condensed_block [OF assms(1)] work_state_messages_not_condensed [of client c]
  by (simp add: send_section_setpoint_states_def ucast_of_nat_u8_u16 condensed_setpoint_ddi_def split_beta Let_def
      NUMBER_SECTIONS_PER_CONDENSED_MESSAGE_def)

lemma has_element_cong:
  "ddiToElementNumber c = ddiToElementNumber d \<Longrightarrow> has_element_number_for_ddi c = has_element_number_for_ddi d"
  "ddiToElementNumber c = ddiToElementNumber d \<Longrightarrow> get_element_number_for_ddi c = get_element_number_for_ddi d"
  by (auto simp: has_element_number_for_ddi_def get_element_number_for_ddi_def)

lemma concat_map_singletons: "concat (map (\<lambda>x. if P x then [f x] else []) xs) = map f (filter P xs)"
  by (induction xs) auto

lemma update_client_sections_state:
  assumes "client_wf c" "isSectionControlEnabled c"
  shows "get_section_setpoint_state (fst (update_client_sections ss client c)) j = demanded ss c j"
proof -
  have "demanded ss c j = get_section_setpoint_state c j" if "\<not> unat j < 16 * blocks_of (unat (numberOfSections c))"
  proof -
    have "n \<le> 16 * blocks_of n" for n unfolding blocks_of_def by presburger
    from this [of "unat (numberOfSections c)"] that have "\<not> j < numberOfSections c"
      unfolding word_less_nat_alt by linarith
    then show ?thesis by (simp add: demanded_def)
  qed
  then show ?thesis
    using after_blocks_state [OF assms(1) refl, of client ss "blocks_of (unat (numberOfSections c))" j]
    by (simp add: update_client_sections_blockwise [OF assms] blockwise_update_def)
qed

lemma update_client_sections_condensed:
  assumes "client_wf c" "isSectionControlEnabled c"
    and mapped: "\<And>b. b < blocks_of (unat (numberOfSections c)) \<Longrightarrow>
      has_element_number_for_ddi c (condensed_setpoint_ddi b)"
    and c'_def: "c' = fst (update_client_sections ss client c)"
  shows "filter is_condensed_setpoint (snd (update_client_sections ss client c)) =
     map (\<lambda>b. SetValue client (condensed_setpoint_ddi b) (get_element_number_for_ddi c (condensed_setpoint_ddi b))
                (setpoint_value c' (of_nat b * 16)))
       (filter (block_changed ss c) [0..<blocks_of (unat (numberOfSections c))])"
proof -
  let ?B = "blocks_of (unat (numberOfSections c))"
  let ?msg = "\<lambda>b. SetValue client (condensed_setpoint_ddi b) (get_element_number_for_ddi c (condensed_setpoint_ddi b))
                (setpoint_value c' (of_nat b * 16))"
  have "filter is_condensed_setpoint (if block_changed ss c b
        then snd (send_section_setpoint_states client (of_nat b) (block_state client ss c b)) else []) =
      (if block_changed ss c b then [?msg b] else [])" if b: "b < ?B" for b
  proof -
    have "b < 16" using b by (rule blocks_of_u8)
    moreover have "get_section_setpoint_state (block_state client ss c b) j = get_section_setpoint_state c' j"
      if "unat j < 16 * b + 16" for j
      using that assms(1,2) by (simp add: block_state_state c'_def update_client_sections_state)
    ultimately show ?thesis
      using mapped [OF b] has_element_cong [of "block_state client ss c b" c]
      by (simp add: send_condensed setpoint_value_cong [of b "block_state client ss c b" c'])
  qed
  then have "concat (map (\<lambda>b. filter is_condensed_setpoint (if block_changed ss c b
        then snd (send_section_setpoint_states client (of_nat b) (block_state client ss c b)) else [])) [0..<?B]) =
      concat (map (\<lambda>b. if block_changed ss c b then [?msg b] else []) [0..<?B])"
    by (intro arg_cong [where f = concat] map_cong) auto
  then show ?thesis
    by (simp add: update_client_sections_blockwise [OF assms(1,2)] blockwise_update_def
        after_blocks_messages [OF assms(1)] filter_concat comp_def concat_map_singletons)
qed

section \<open>The global work state\<close>

text \<open>Identifier 289 is in step with the setpoints: its last sent value says whether any section is on.\<close>

definition work_state_in_step :: "client_state \<Rightarrow> bool" where
  "work_state_in_step c \<longleftrightarrow> setpointWorkState c = is_any_section_setpoint_on c"

lemma send_in_step:
  assumes "has_element_number_for_ddi c SetpointWorkState"
    "has_element_number_for_ddi c (SetpointCondensedWorkState1_16 + ucast b)"
  shows "work_state_in_step (fst (send_section_setpoint_states client b c))"
  using assms
  by (auto simp: work_state_in_step_def send_section_setpoint_states_def send_setpoint_work_state_def Let_def
      set_setpoint_work_state_def is_any_section_setpoint_on_def split: prod.split)

lemma update_block_in_step:
  assumes "work_state_in_step (fst st)" "has_element_number_for_ddi (fst st) SetpointWorkState"
    "has_element_number_for_ddi (fst st) (condensed_setpoint_ddi b)" "b < 16"
  shows "work_state_in_step (fst (update_block client ss n b st))"
proof (cases "list_ex (demand_differs ss (fst st)) (block_sections n b)")
  case True
  let ?c = "fold (write_demand ss) (block_sections n b) (fst st)"
  have "work_state_in_step (fst (send_section_setpoint_states client (of_nat b) ?c))"
    by (rule send_in_step)
      (use assms has_element_cong [of ?c "fst st"] in \<open>simp_all add: ucast_of_nat_u8_u16 condensed_setpoint_ddi_def\<close>)
  with True show ?thesis by (simp add: update_block_def flush_block_def split_beta Let_def)
next
  case False
  then have "fold (write_demand ss) (block_sections n b) (fst st) = fst st" by (rule fold_write_demand_same)
  with False assms(1) show ?thesis by (simp add: update_block_def)
qed

lemma update_client_sections_in_step:
  assumes "client_wf c" "isSectionControlEnabled c" "work_state_in_step c"
    "has_element_number_for_ddi c SetpointWorkState"
    and mapped: "\<And>b. b < blocks_of (unat (numberOfSections c)) \<Longrightarrow>
      has_element_number_for_ddi c (condensed_setpoint_ddi b)"
  shows "work_state_in_step (fst (update_client_sections ss client c))"
proof -
  let ?n = "unat (numberOfSections c)"
  have "work_state_in_step (fst (after_blocks client ss ?n b c))" if "b \<le> blocks_of ?n" for b
    using that
  proof (induction b)
    case (Suc b)
    let ?st = "after_blocks client ss ?n b c"
    have "has_element_number_for_ddi (fst ?st) = has_element_number_for_ddi c"
      by (rule has_element_cong) simp
    then have "work_state_in_step (fst (update_block client ss ?n b ?st))"
      using Suc assms(4) mapped [of b] blocks_of_u8 [of b "numberOfSections c"]
      by (intro update_block_in_step) auto
    then show ?case by simp
  qed (use assms(3) in simp)
  then show ?thesis
    by (simp add: update_client_sections_blockwise [OF assms(1,2)] blockwise_update_def)
qed

section \<open>Per-element messages\<close>

lemma per_element_messages_eq:
  assumes "\<And>i. i < m \<Longrightarrow> k \<le> i \<Longrightarrow> unat (off + of_nat i) = unat off + i"
  shows "per_element_messages client c off [k..<m] =
     concat (map (\<lambda>i. let sec = off + of_nat i in
         if get_element_number_for_section c sec = 0 then []
         else [SetValue client (perElementSetpointDDI c) (get_element_number_for_section c sec)
                 (work_state_value (get_section_setpoint_state c sec = ON))])
       [k..<min m (unat (numberOfSections c) - unat off)])"
  using assms
proof (induction "m - k" arbitrary: k)
  case (Suc d)
  then have k: "[k..<m] = k # [Suc k..<m]" "unat (off + of_nat k) = unat off + k"
    by (simp_all add: upt_conv_Cons)
  show ?case
  proof (cases "unat off + k < unat (numberOfSections c)")
    case True
    then have "[k..<min m (unat (numberOfSections c) - unat off)] =
        k # [Suc k..<min m (unat (numberOfSections c) - unat off)]"
      using Suc.hyps(2) by (intro upt_conv_Cons) auto
    moreover have "\<not> numberOfSections c \<le> off + of_nat k"
      using True k(2) by (simp add: word_le_nat_alt)
    ultimately show ?thesis
      using Suc.hyps(1) [of "Suc k"] Suc.hyps(2) Suc.prems k(1) by (simp add: Let_def)
  next
    case False
    then have "numberOfSections c \<le> off + of_nat k" using k(2) by (simp add: word_le_nat_alt)
    with False show ?thesis by (simp add: k(1))
  qed
qed simp

lemma update_client_sections_idle:
  assumes "\<not> isSectionControlEnabled c \<or> numberOfSections c = 0"
  shows "update_client_sections ss client c = (c, [])"
  using assms by (auto simp: update_client_sections_def)

lemma update_client_sections_wf [tc_wf]:
  assumes "client_wf c"
  shows "client_wf (fst (update_client_sections ss client c))"
proof (cases "isSectionControlEnabled c")
  case True
  with assms show ?thesis
    by (simp add: update_client_sections_blockwise blockwise_update_def tc_wf)
next
  case False
  with assms show ?thesis by (simp add: update_client_sections_idle)
qed

fun is_work_state_command :: "bus_msg \<Rightarrow> bool" where
  "is_work_state_command (SetValue client ddi el v) \<longleftrightarrow> ddi = ActualWorkState"
| "is_work_state_command m = False"

text \<open>The commands that bring the elements of one block to the setpoints of a state.\<close>

definition block_commands :: "cf \<Rightarrow> client_state \<Rightarrow> nat \<Rightarrow> bus_msg list" where
  "block_commands client c b =
     concat (map (\<lambda>i. if get_element_number_for_section c (of_nat i) = 0 then []
                      else [SetValue client ActualWorkState (get_element_number_for_section c (of_nat i))
                              (work_state_value (get_section_setpoint_state c (of_nat i) = ON))])
       (block_sections (unat (numberOfSections c)) b))"

lemma map_upt_shift: "map (\<lambda>i. f (a + i)) [0..<k] = map f [a..<a + k]"
  by (rule nth_equalityI) simp_all

lemma per_element_block:
  assumes "perElementSetpointDDI c = ActualWorkState" "b < 16"
  shows "per_element_messages client c (of_nat b * 16) [0..<16] = block_commands client c b"
proof -
  let ?f = "\<lambda>sec :: u8. if get_element_number_for_section c sec = 0 then []
      else [SetValue client ActualWorkState (get_element_number_for_section c sec)
              (work_state_value (get_section_setpoint_state c sec = ON))]"
  have off: "unat (of_nat b * 16 :: u8) = 16 * b"
    using unat_block_offset [OF assms(2), of 0] by simp
  have "per_element_messages client c (of_nat b * 16) [0..<16] =
      concat (map (\<lambda>i. ?f (of_nat b * 16 + of_nat i)) [0..<min 16 (unat (numberOfSections c) - 16 * b)])"
    using assms by (subst per_element_messages_eq) (simp_all add: off unat_block_offset Let_def cong: if_cong)
  also have "\<dots> = concat (map (\<lambda>i. ?f (of_nat (16 * b + i))) [0..<min 16 (unat (numberOfSections c) - 16 * b)])"
    by (simp add: mult.commute cong: if_cong)
  also have "\<dots> = concat (map (\<lambda>i. ?f (of_nat i)) [16 * b..<16 * b + min 16 (unat (numberOfSections c) - 16 * b)])"
    by (simp only: map_upt_shift [of "\<lambda>i. ?f (of_nat i)"])
  also have "[16 * b..<16 * b + min 16 (unat (numberOfSections c) - 16 * b)] =
      block_sections (unat (numberOfSections c)) b"
  proof (cases "16 * b \<le> unat (numberOfSections c)")
    case True
    then have "16 * b + min 16 (unat (numberOfSections c) - 16 * b) = min (unat (numberOfSections c)) (16 * b + 16)"
      by linarith
    then show ?thesis by (simp add: block_sections_def)
  qed (simp add: block_sections_def)
  finally show ?thesis by (simp add: block_commands_def)
qed

lemma filter_block_commands: "filter is_work_state_command (block_commands client c b) = block_commands client c b"
  by (auto simp: block_commands_def filter_id_conv)

lemma work_state_messages_not_commands:
  "filter is_work_state_command (snd (send_setpoint_work_state client c)) = []"
  by (simp add: send_setpoint_work_state_def Let_def ddi_defs)

lemma block_commands_cong:
  assumes "numberOfSections c = numberOfSections d" "sectionToElementNumber c = sectionToElementNumber d"
    "\<And>i. i < 16 * Suc b \<Longrightarrow> i < unat (numberOfSections c) \<Longrightarrow>
       get_section_setpoint_state c (of_nat i) = get_section_setpoint_state d (of_nat i)"
  shows "block_commands client c b = block_commands client d b"
  unfolding block_commands_def assms(1)
  by (intro arg_cong [where f = concat] map_cong)
    (use assms in \<open>auto simp: block_sections_def get_element_number_for_section_def\<close>)

lemma send_per_element:
  assumes "b < 16" "usesPerElementControl c" "perElementSetpointDDI c = ActualWorkState"
    "\<not> has_element_number_for_ddi c (condensed_setpoint_ddi b)"
    "\<not> has_element_number_for_ddi c (ActualCondensedWorkState1_16 + of_nat b)"
  shows "filter is_work_state_command (snd (send_section_setpoint_states client (of_nat b) c)) =
           block_commands client c b"
  using assms per_element_block [OF assms(3,1), of client] filter_block_commands [of client c b]
    work_state_messages_not_commands [of client c]
  by (simp add: send_section_setpoint_states_def ucast_of_nat_u8_u16 condensed_setpoint_ddi_def split_beta
      NUMBER_SECTIONS_PER_CONDENSED_MESSAGE_def Let_def)

lemma concat_if_filter: "concat (map (\<lambda>x. if P x then f x else []) xs) = concat (map f (filter P xs))"
  by (induction xs) auto

lemma update_client_sections_frame [simp]:
  assumes "client_wf c"
  shows "numberOfSections (fst (update_client_sections ss client c)) = numberOfSections c"
    and "sectionToElementNumber (fst (update_client_sections ss client c)) = sectionToElementNumber c"
    and "ddiToElementNumber (fst (update_client_sections ss client c)) = ddiToElementNumber c"
    and "isSectionControlEnabled (fst (update_client_sections ss client c)) = isSectionControlEnabled c"
    and "client_pool (fst (update_client_sections ss client c)) = client_pool c"
    and "usesPerElementControl (fst (update_client_sections ss client c)) = usesPerElementControl c"
  using assms
  by (cases "isSectionControlEnabled c";
      simp add: update_client_sections_blockwise blockwise_update_def update_client_sections_idle)+

lemma update_client_sections_per_element:
  assumes wf: "client_wf c" and auto: "isSectionControlEnabled c"
    and per: "usesPerElementControl c" "perElementSetpointDDI c = ActualWorkState"
    and unmapped: "\<And>b. b < blocks_of (unat (numberOfSections c)) \<Longrightarrow>
      \<not> has_element_number_for_ddi c (condensed_setpoint_ddi b) \<and>
      \<not> has_element_number_for_ddi c (ActualCondensedWorkState1_16 + of_nat b)"
    and c'_def: "c' = fst (update_client_sections ss client c)"
  shows "filter is_work_state_command (snd (update_client_sections ss client c)) =
     concat (map (block_commands client c')
       (filter (block_changed ss c) [0..<blocks_of (unat (numberOfSections c))]))"
proof -
  let ?B = "blocks_of (unat (numberOfSections c))"
  have "filter is_work_state_command (if block_changed ss c b
        then snd (send_section_setpoint_states client (of_nat b) (block_state client ss c b)) else []) =
      (if block_changed ss c b then block_commands client c' b else [])" if b: "b < ?B" for b
  proof -
    have b16: "b < 16" using b by (rule blocks_of_u8)
    have "block_commands client (block_state client ss c b) b = block_commands client c' b"
    proof (rule block_commands_cong)
      fix i assume i: "i < 16 * Suc b"
      then have "unat (of_nat i :: u8) = i" using b16 by (simp add: unat_of_nat)
      with i show "get_section_setpoint_state (block_state client ss c b) (of_nat i) =
          get_section_setpoint_state c' (of_nat i)"
        by (simp add: block_state_state [OF wf] c'_def update_client_sections_state [OF wf auto])
    qed (simp_all add: c'_def wf)
    then show ?thesis
      using unmapped [OF b] per b16 has_element_cong [of "block_state client ss c b" c]
      by (simp add: send_per_element)
  qed
  then have "concat (map (\<lambda>b. filter is_work_state_command (if block_changed ss c b
        then snd (send_section_setpoint_states client (of_nat b) (block_state client ss c b)) else [])) [0..<?B]) =
      concat (map (\<lambda>b. if block_changed ss c b then block_commands client c' b else []) [0..<?B])"
    by (intro arg_cong [where f = concat] map_cong) auto
  then show ?thesis
    by (simp only: update_client_sections_blockwise [OF wf auto] blockwise_update_def
        after_blocks_messages [OF wf] filter_concat map_map comp_def concat_if_filter [of "block_changed ss c"
          "block_commands client c'"])
qed

end
