(* ===== verification/Tc_Measurement.thy ===== *)
theory Tc_Measurement
  imports Tc_Sections
begin

text \<open>
  \<open>MyTCServer::request_measurement_commands\<close> of \<open>src/src/task_controller.cpp\<close>: three passes over
  the object pool of a client that has not been asked yet. They map identifiers to device elements
  and subscribe to the values the task controller needs.
\<close>

section \<open>Measurement commands\<close>

text \<open>The identifiers of the first pass, which also asks for a time interval, and of the second.\<close>

definition is_reported_ddi :: "tc_env \<Rightarrow> u16 \<Rightarrow> bool" where
  "is_reported_ddi env ddi \<longleftrightarrow>
     ddi = ActualWorkState \<or> is_actual_condensed ddi \<or>
     (CondensedSectionOverrideState1_16 env \<le> ddi \<and> ddi \<le> CondensedSectionOverrideState241_256 env)"

definition is_control_ddi :: "u16 \<Rightarrow> bool" where
  "is_control_ddi ddi \<longleftrightarrow> ddi = SectionControlState \<or> ddi = SetpointWorkState \<or> is_setpoint_condensed ddi"

text \<open>One child of one device element, compared with one process data object.\<close>

definition subscribe_child :: "cf \<Rightarrow> bool \<Rightarrow> device_process_data \<Rightarrow> device_element \<Rightarrow> u16 \<Rightarrow>
    client_state \<times> bus_msg list \<Rightarrow> client_state \<times> bus_msg list" where
  "subscribe_child client timed pd el child st =
     (if child = pd_object_id pd
      then (set_element_number_for_ddi (pd_ddi pd) (el_number el) (fst st),
            snd st
              @ (if pd_on_change pd then [ChangeThreshold client (pd_ddi pd) (el_number el) 1] else [])
              @ (if timed \<and> pd_time_interval pd then [TimeInterval client (pd_ddi pd) (el_number el) 1000] else []))
      else st)"

definition subscribe_element :: "cf \<Rightarrow> bool \<Rightarrow> device_process_data \<Rightarrow> ddop_object option \<Rightarrow>
    client_state \<times> bus_msg list \<Rightarrow> client_state \<times> bus_msg list" where
  "subscribe_element client timed pd parentObject st =
     (case element_of parentObject of
        None \<Rightarrow> st
      | Some el \<Rightarrow> fold (subscribe_child client timed pd el) (el_child_object_ids el) st)"

definition subscribe_object :: "cf \<Rightarrow> (u16 \<Rightarrow> bool) \<Rightarrow> bool \<Rightarrow> ddop_object option list \<Rightarrow> ddop_object option \<Rightarrow>
    client_state \<times> bus_msg list \<Rightarrow> client_state \<times> bus_msg list" where
  "subscribe_object client wanted timed objects object st =
     (case process_data_of object of
        None \<Rightarrow> st
      | Some pd \<Rightarrow> if wanted (pd_ddi pd) then fold (subscribe_element client timed pd) objects st else st)"

text \<open>The last pass only remembers where to send the GNSS quality.\<close>

definition map_gnss_object :: "ddop \<Rightarrow> ddop_object option \<Rightarrow> client_state \<Rightarrow> client_state" where
  "map_gnss_object pool object c =
     (case process_data_of object of
        None \<Rightarrow> c
      | Some pd \<Rightarrow>
          if pd_ddi pd \<noteq> GNSSQuality then c
          else if \<not> pd_settable pd then c
          else (case find_owning_element_number pool pd of
                  None \<Rightarrow> c
                | Some elementNumber \<Rightarrow> set_element_number_for_ddi GNSSQuality elementNumber c))"

definition request_client_commands :: "tc_env \<Rightarrow> cf \<Rightarrow> client_state \<Rightarrow> client_state \<times> bus_msg list" where
  "request_client_commands env client c =
     (if \<not> areMeasurementCommandsSent c \<and> numberOfSections c > 0
      then (let objects = pool_objects (client_pool c);
                st1 = fold (subscribe_object client (is_reported_ddi env) True objects) objects (c, []);
                st2 = fold (subscribe_object client is_control_ddi False objects) objects st1;
                c3 = fold (map_gnss_object (client_pool c)) objects (fst st2)
            in (mark_measurement_commands_sent c3, snd st2))
      else (c, []))"

definition request_measurement_commands :: "tc_env \<Rightarrow> tc_server \<Rightarrow> tc_server" where
  "request_measurement_commands env = each_client (request_client_commands env)"

section \<open>Measurement commands: what is mapped and what is subscribed\<close>

definition subscription :: "cf \<Rightarrow> bool \<Rightarrow> device_process_data \<Rightarrow> device_element \<Rightarrow> bus_msg list" where
  "subscription client timed pd el =
     (if pd_on_change pd then [ChangeThreshold client (pd_ddi pd) (el_number el) 1] else [])
     @ (if timed \<and> pd_time_interval pd then [TimeInterval client (pd_ddi pd) (el_number el) 1000] else [])"

text \<open>A process data object and a device element of the pool that lists it as a child.\<close>

definition owns :: "ddop_object option list \<Rightarrow> device_element \<Rightarrow> device_process_data \<Rightarrow> bool" where
  "owns objects el pd \<longleftrightarrow> el \<in> {el. \<exists>x\<in>set objects. element_of x = Some el} \<and>
     pd_object_id pd \<in> set (el_child_object_ids el)"

text \<open>What the mapping passes keep, as a relation that every step extends.\<close>

definition only_ddi_map :: "client_state \<Rightarrow> client_state \<Rightarrow> bool" where
  "only_ddi_map c c' \<longleftrightarrow> client_wf c' \<and> (\<exists>m. c' = c\<lparr>ddiToElementNumber := m\<rparr>)"

lemma only_ddi_map_refl: "client_wf c \<Longrightarrow> only_ddi_map c c"
  unfolding only_ddi_map_def by (auto intro: exI [of _ "ddiToElementNumber c"])

lemma only_ddi_map_set:
  "only_ddi_map c c' \<Longrightarrow> 0 < numberOfSections c \<Longrightarrow> only_ddi_map c (set_element_number_for_ddi d el c')"
  by (auto simp: only_ddi_map_def set_element_number_for_ddi_def
      dest: client_wf_set_ddi [of _ d el, unfolded set_element_number_for_ddi_def])

lemma only_ddi_map_wf: "only_ddi_map c c' \<Longrightarrow> sm_wf (ddiToElementNumber c') \<and> client_wf c'"
  by (simp add: only_ddi_map_def client_wf_def)

lemma has_element_set:
  "sm_wf (ddiToElementNumber c) \<Longrightarrow>
     has_element_number_for_ddi (set_element_number_for_ddi d el c) ddi \<longleftrightarrow> ddi = d \<or> has_element_number_for_ddi c ddi"
  by (simp add: has_element_number_for_ddi_def set_element_number_for_ddi_def smap.find_put)

text \<open>A pass: its invariant, the identifiers it maps and the messages it adds.\<close>

definition pass_ok :: "client_state \<Rightarrow> u16 set \<Rightarrow> bus_msg set \<Rightarrow> client_state \<times> bus_msg list \<Rightarrow> client_state \<times> bus_msg list \<Rightarrow> bool" where
  "pass_ok c D M st st' \<longleftrightarrow> only_ddi_map c (fst st') \<and>
     (\<forall>ddi. has_element_number_for_ddi (fst st') ddi \<longleftrightarrow> ddi \<in> D \<or> has_element_number_for_ddi (fst st) ddi) \<and>
     set (snd st') = M \<union> set (snd st)"

lemma pass_ok_cong: "pass_ok c D M st st' \<Longrightarrow> D = D' \<Longrightarrow> M = M' \<Longrightarrow> pass_ok c D' M' st st'"
  by simp

lemma pass_ok_fold:
  assumes step: "\<And>x st. only_ddi_map c (fst st) \<Longrightarrow> pass_ok c (D x) (M x) st (f x st)"
    and "only_ddi_map c (fst st)"
  shows "pass_ok c (\<Union>x\<in>set xs. D x) (\<Union>x\<in>set xs. M x) st (fold f xs st)"
  using assms(2)
proof (induction xs arbitrary: st)
  case Nil
  then show ?case by (simp add: pass_ok_def)
next
  case (Cons x xs)
  then have "pass_ok c (D x) (M x) st (f x st)" by (simp add: step)
  moreover from this have "pass_ok c (\<Union>x\<in>set xs. D x) (\<Union>x\<in>set xs. M x) (f x st) (fold f xs (f x st))"
    by (intro Cons.IH) (simp add: pass_ok_def)
  ultimately show ?case by (auto simp: pass_ok_def)
qed

lemma subscribe_child_ok:
  assumes "0 < numberOfSections c" "only_ddi_map c (fst st)"
  shows "pass_ok c (if child = pd_object_id pd then {pd_ddi pd} else {})
           (if child = pd_object_id pd then set (subscription client timed pd el) else {})
           st (subscribe_child client timed pd el child st)"
  using assms
  by (auto simp: pass_ok_def subscribe_child_def subscription_def only_ddi_map_set has_element_set only_ddi_map_wf)

lemma subscribe_element_ok:
  assumes "0 < numberOfSections c" "only_ddi_map c (fst st)"
  shows "pass_ok c {ddi. \<exists>el. element_of x = Some el \<and> pd_object_id pd \<in> set (el_child_object_ids el) \<and> ddi = pd_ddi pd}
           {m. \<exists>el. element_of x = Some el \<and> pd_object_id pd \<in> set (el_child_object_ids el) \<and>
              m \<in> set (subscription client timed pd el)}
           st (subscribe_element client timed pd x st)"
proof (cases "element_of x")
  case None
  then show ?thesis using assms by (simp add: subscribe_element_def pass_ok_def)
next
  case (Some el)
  have "pass_ok c (\<Union>child\<in>set (el_child_object_ids el). if child = pd_object_id pd then {pd_ddi pd} else {})
      (\<Union>child\<in>set (el_child_object_ids el). if child = pd_object_id pd then set (subscription client timed pd el) else {})
      st (fold (subscribe_child client timed pd el) (el_child_object_ids el) st)"
    by (rule pass_ok_fold [OF subscribe_child_ok]) (use assms in simp_all)
  then show ?thesis
    unfolding subscribe_element_def Some option.case
    by (rule pass_ok_cong) (auto split: if_splits)
qed

lemma subscribe_object_ok:
  assumes "0 < numberOfSections c" "only_ddi_map c (fst st)"
  shows "pass_ok c {ddi. \<exists>pd el. process_data_of x = Some pd \<and> wanted (pd_ddi pd) \<and> owns objects el pd \<and> ddi = pd_ddi pd}
           {m. \<exists>pd el. process_data_of x = Some pd \<and> wanted (pd_ddi pd) \<and> owns objects el pd \<and>
              m \<in> set (subscription client timed pd el)}
           st (subscribe_object client wanted timed objects x st)"
proof (cases "\<exists>pd. process_data_of x = Some pd \<and> wanted (pd_ddi pd)")
  case False
  then have "subscribe_object client wanted timed objects x st = st"
    by (auto simp: subscribe_object_def split: option.split)
  with False assms show ?thesis by (auto simp: pass_ok_def)
next
  case True
  then obtain pd where pd: "process_data_of x = Some pd" "wanted (pd_ddi pd)" by blast
  then have eq: "subscribe_object client wanted timed objects x st = fold (subscribe_element client timed pd) objects st"
    by (simp add: subscribe_object_def)
  have "pass_ok c
      (\<Union>y\<in>set objects. {ddi. \<exists>el. element_of y = Some el \<and> pd_object_id pd \<in> set (el_child_object_ids el) \<and> ddi = pd_ddi pd})
      (\<Union>y\<in>set objects. {m. \<exists>el. element_of y = Some el \<and> pd_object_id pd \<in> set (el_child_object_ids el) \<and>
         m \<in> set (subscription client timed pd el)})
      st (fold (subscribe_element client timed pd) objects st)"
    by (rule pass_ok_fold [OF subscribe_element_ok]) (use assms in simp_all)
  then show ?thesis
    unfolding eq by (rule pass_ok_cong) (auto simp: pd owns_def)
qed

definition wanted_pair :: "(u16 \<Rightarrow> bool) \<Rightarrow> ddop_object option list \<Rightarrow> device_process_data \<Rightarrow> device_element \<Rightarrow> bool" where
  "wanted_pair wanted objects pd el \<longleftrightarrow>
     (\<exists>x\<in>set objects. process_data_of x = Some pd) \<and> wanted (pd_ddi pd) \<and> owns objects el pd"

lemma subscribe_pass_ok:
  assumes "0 < numberOfSections c" "only_ddi_map c (fst st)"
  shows "pass_ok c {ddi. \<exists>pd el. wanted_pair wanted objects pd el \<and> ddi = pd_ddi pd}
           {m. \<exists>pd el. wanted_pair wanted objects pd el \<and> m \<in> set (subscription client timed pd el)}
           st (fold (subscribe_object client wanted timed objects) objects st)"
  by (rule pass_ok_cong, rule pass_ok_fold [where f = "subscribe_object client wanted timed objects", OF subscribe_object_ok])
    (use assms in \<open>auto simp: wanted_pair_def\<close>)

text \<open>The pass for the GNSS quality, which is mapped but not subscribed.\<close>

definition gnss_mapped :: "ddop \<Rightarrow> bool" where
  "gnss_mapped pool \<longleftrightarrow> (\<exists>x\<in>set (pool_objects pool). \<exists>pd. process_data_of x = Some pd \<and> pd_ddi pd = GNSSQuality \<and>
     pd_settable pd \<and> find_owning_element_number pool pd \<noteq> None)"

lemma map_gnss_pass:
  assumes "0 < numberOfSections c" "only_ddi_map c c1"
  shows "only_ddi_map c (fold (map_gnss_object pool) xs c1) \<and>
     (\<forall>ddi. has_element_number_for_ddi (fold (map_gnss_object pool) xs c1) ddi \<longleftrightarrow>
        has_element_number_for_ddi c1 ddi \<or> ddi = GNSSQuality \<and>
        (\<exists>x\<in>set xs. \<exists>pd. process_data_of x = Some pd \<and> pd_ddi pd = GNSSQuality \<and>
           pd_settable pd \<and> find_owning_element_number pool pd \<noteq> None))"
  using assms(2)
proof (induction xs arbitrary: c1)
  case (Cons x xs)
  have "only_ddi_map c (map_gnss_object pool x c1)"
    using Cons.prems assms(1) by (auto simp: map_gnss_object_def only_ddi_map_set split: option.split)
  moreover have "has_element_number_for_ddi (map_gnss_object pool x c1) ddi \<longleftrightarrow>
      has_element_number_for_ddi c1 ddi \<or> ddi = GNSSQuality \<and>
      (\<exists>pd. process_data_of x = Some pd \<and> pd_ddi pd = GNSSQuality \<and> pd_settable pd \<and>
         find_owning_element_number pool pd \<noteq> None)" for ddi
    using Cons.prems by (auto simp: map_gnss_object_def has_element_set only_ddi_map_wf split: option.split)
  ultimately show ?case
    using Cons.IH by auto
qed simp

lemma request_client_commands_spec:
  assumes "client_wf c" "\<not> areMeasurementCommandsSent c" "0 < numberOfSections c"
  defines "objects \<equiv> pool_objects (client_pool c)"
  shows "\<exists>m. fst (request_client_commands env client c) =
           c\<lparr>ddiToElementNumber := m, areMeasurementCommandsSent := True\<rparr>"
    and "client_wf (fst (request_client_commands env client c))"
    and "has_element_number_for_ddi (fst (request_client_commands env client c)) ddi \<longleftrightarrow>
           has_element_number_for_ddi c ddi \<or>
           (\<exists>pd el. wanted_pair (\<lambda>d. is_reported_ddi env d \<or> is_control_ddi d) objects pd el \<and> ddi = pd_ddi pd) \<or>
           ddi = GNSSQuality \<and> gnss_mapped (client_pool c)"
    and "set (snd (request_client_commands env client c)) =
           {m. \<exists>pd el. wanted_pair (is_reported_ddi env) objects pd el \<and> m \<in> set (subscription client True pd el)} \<union>
           {m. \<exists>pd el. wanted_pair is_control_ddi objects pd el \<and> m \<in> set (subscription client False pd el)}"
proof -
  define st1 where "st1 = fold (subscribe_object client (is_reported_ddi env) True objects) objects (c, [])"
  define st2 where "st2 = fold (subscribe_object client is_control_ddi False objects) objects st1"
  define c3 where "c3 = fold (map_gnss_object (client_pool c)) objects (fst st2)"
  have eq: "request_client_commands env client c = (mark_measurement_commands_sent c3, snd st2)"
    using assms(2,3) by (simp add: request_client_commands_def Let_def st1_def st2_def c3_def objects_def)
  note p1 = subscribe_pass_ok [of c "(c, [])" "is_reported_ddi env" objects client True, folded st1_def]
  have p1: "pass_ok c {ddi. \<exists>pd el. wanted_pair (is_reported_ddi env) objects pd el \<and> ddi = pd_ddi pd}
      {m. \<exists>pd el. wanted_pair (is_reported_ddi env) objects pd el \<and> m \<in> set (subscription client True pd el)} (c, []) st1"
    by (rule p1) (use assms in \<open>simp_all add: only_ddi_map_refl\<close>)
  have p2: "pass_ok c {ddi. \<exists>pd el. wanted_pair is_control_ddi objects pd el \<and> ddi = pd_ddi pd}
      {m. \<exists>pd el. wanted_pair is_control_ddi objects pd el \<and> m \<in> set (subscription client False pd el)} st1 st2"
    unfolding st2_def by (rule subscribe_pass_ok) (use assms p1 in \<open>simp_all add: pass_ok_def\<close>)
  have p3: "only_ddi_map c c3" "\<And>ddi. has_element_number_for_ddi c3 ddi \<longleftrightarrow>
      has_element_number_for_ddi (fst st2) ddi \<or> ddi = GNSSQuality \<and> gnss_mapped (client_pool c)"
    using map_gnss_pass [of c "fst st2" "client_pool c" objects] assms(3) p2
    by (simp_all add: pass_ok_def c3_def gnss_mapped_def objects_def)
  have mark: "has_element_number_for_ddi (mark_measurement_commands_sent c3) = has_element_number_for_ddi c3"
    by (rule has_element_cong) (simp add: mark_measurement_commands_sent_def)
  from p3(1) show "\<exists>m. fst (request_client_commands env client c) =
      c\<lparr>ddiToElementNumber := m, areMeasurementCommandsSent := True\<rparr>"
    by (auto simp: only_ddi_map_def eq mark_measurement_commands_sent_def)
  from p3(1) show "client_wf (fst (request_client_commands env client c))"
    by (simp add: only_ddi_map_def eq client_wf_flags)
  show "has_element_number_for_ddi (fst (request_client_commands env client c)) ddi \<longleftrightarrow>
      has_element_number_for_ddi c ddi \<or>
      (\<exists>pd el. wanted_pair (\<lambda>d. is_reported_ddi env d \<or> is_control_ddi d) objects pd el \<and> ddi = pd_ddi pd) \<or>
      ddi = GNSSQuality \<and> gnss_mapped (client_pool c)"
    using p1 p2 by (auto simp: eq mark p3(2) pass_ok_def wanted_pair_def)
  show "set (snd (request_client_commands env client c)) =
      {m. \<exists>pd el. wanted_pair (is_reported_ddi env) objects pd el \<and> m \<in> set (subscription client True pd el)} \<union>
      {m. \<exists>pd el. wanted_pair is_control_ddi objects pd el \<and> m \<in> set (subscription client False pd el)}"
    using p1 p2 by (auto simp: eq pass_ok_def)
qed

lemma client_wf_request [tc_wf]: "client_wf c \<Longrightarrow> client_wf (fst (request_client_commands env client c))"
  using request_client_commands_spec(2) [of c] by (auto simp: request_client_commands_def)

end
