(* ===== verification/Tc_Safety.thy ===== *)
theory Tc_Safety
  imports Tc_Measurement
begin

text \<open>
  The task controller server as a transition system: one rule per entry point of \<open>MyTCServer\<close>, in
  any order and with any arguments, which is how the ISOBUS stack and the UDP side call it under
  \<open>clientsMutex\<close>. The invariant is \<open>server_wf\<close>; the log is the bus, and every message on it was
  allowed by the state the step that sent it started in.
\<close>

section \<open>Steps\<close>

inductive tc_step :: "tc_env \<Rightarrow> tc_server \<Rightarrow> tc_server \<Rightarrow> bool" for env where
  upload: "tc_step env s (snd (store_device_descriptor_object_pool client pool app s))"
| activate: "tc_step env s (snd (activate_object_pool env client s))"
| deactivate: "tc_step env s (snd (deactivate_object_pool client s))"
| delete_pool: "tc_step env s (snd (delete_device_descriptor_object_pool client s))"
| timeout: "tc_step env s (on_client_timeout client s)"
| value_command: "tc_step env s (snd (on_value_command client ddi el v s))"
| measurement: "tc_step env s (request_measurement_commands env s)"
| sections: "tc_step env s (update_section_states ss s)"
| control: "tc_step env s (update_section_control_enabled enabled s)"
| gnss: "tc_step env s (send_gnss_quality quality s)"

inductive_simps tc_step_iff: "tc_step env s t"

section \<open>The invariant\<close>

lemma client_wf_control [tc_wf]: "client_wf c \<Longrightarrow> client_wf (fst (update_client_control_enabled enabled client c))"
  by (simp add: update_client_control_enabled_def Let_def tc_wf)

lemma client_wf_gnss [tc_wf]: "client_wf c \<Longrightarrow> client_wf (fst (send_client_gnss_quality quality client c))"
  by (simp add: send_client_gnss_quality_def)

lemma server_wf_client_loops [tc_wf]:
  assumes "server_wf s"
  shows "server_wf (request_measurement_commands env s)"
    and "server_wf (update_section_states ss s)"
    and "server_wf (update_section_control_enabled enabled s)"
    and "server_wf (send_gnss_quality quality s)"
  unfolding request_measurement_commands_def update_section_states_def update_section_control_enabled_def
    send_gnss_quality_def
  by (rule server_wf_each_client [OF assms]; rule tc_wf; assumption)+

lemma tc_step_wf: "server_wf s \<Longrightarrow> tc_step env s t \<Longrightarrow> server_wf t"
  by (auto simp: tc_step_iff intro: tc_wf)

section \<open>Which messages a state allows\<close>

text \<open>Everything the server sets except the section control state and the GNSS quality drives sections.\<close>

fun drives_sections :: "bus_msg \<Rightarrow> bool" where
  "drives_sections (SetValue client ddi el v) \<longleftrightarrow> ddi \<noteq> SectionControlState \<and> ddi \<noteq> GNSSQuality"
| "drives_sections m = False"

definition allowed :: "tc_server \<Rightarrow> bus_msg \<Rightarrow> bool" where
  "allowed s m \<longleftrightarrow> (\<exists>c. sm_find (clients s) (msg_target m) = Some c \<and> 0 < numberOfSections c \<and>
     (drives_sections m \<longrightarrow> isSectionControlEnabled c))"

lemma each_client_allowed:
  assumes "server_wf s"
    and body: "\<And>client c m. client_wf c \<Longrightarrow> m \<in> set (snd (body client c)) \<Longrightarrow>
      msg_target m = client \<and> 0 < numberOfSections c \<and> (drives_sections m \<longrightarrow> isSectionControlEnabled c)"
  shows "\<exists>new. bus (each_client body s) = bus s @ new \<and> (\<forall>m\<in>set new. allowed s m)"
proof -
  have "allowed s m" if "(client, c) \<in> set (clients s)" "m \<in> set (snd (body client c))" for m client c
  proof -
    have "sm_find (clients s) client = Some c"
      using assms(1) that(1) by (simp add: server_wf_def sm_in_find)
    then show ?thesis
      using assms(1) body [of c m client] that(2) by (auto simp: allowed_def server_wf_def)
  qed
  with bus_each_client [of body s] show ?thesis by blast
qed

lemma per_element_target: "m \<in> set (per_element_messages client c off is) \<Longrightarrow> msg_target m = client"
  by (induction client c off "is" rule: per_element_messages.induct) (auto simp: Let_def split: if_splits)

lemma send_target: "m \<in> set (snd (send_section_setpoint_states client b c)) \<Longrightarrow> msg_target m = client"
  by (auto simp: send_section_setpoint_states_def send_setpoint_work_state_def Let_def per_element_target
      split: if_splits)

lemma update_client_messages:
  assumes "client_wf c" "m \<in> set (snd (update_client_sections ss client c))"
  shows "msg_target m = client \<and> 0 < numberOfSections c \<and> isSectionControlEnabled c"
proof -
  have "isSectionControlEnabled c \<and> numberOfSections c \<noteq> 0"
    using assms(2) by (auto simp: update_client_sections_def split: if_splits)
  moreover from this have "msg_target m = client"
    using assms by (auto simp: update_client_sections_blockwise blockwise_update_def after_blocks_messages
        dest: send_target split: if_splits)
  ultimately show ?thesis by (simp add: word_greater_zero_iff)
qed

lemma request_client_messages:
  assumes "client_wf c" "m \<in> set (snd (request_client_commands env client c))"
  shows "msg_target m = client \<and> 0 < numberOfSections c \<and> \<not> drives_sections m"
proof -
  have sent: "\<not> areMeasurementCommandsSent c" "0 < numberOfSections c"
    using assms(2) by (auto simp: request_client_commands_def split: if_splits)
  then show ?thesis
    using request_client_commands_spec(4) [OF assms(1) sent, of env client] assms(2)
    by (auto simp: subscription_def split: if_splits)
qed

lemma mapped_has_sections: "client_wf c \<Longrightarrow> has_element_number_for_ddi c ddi \<Longrightarrow> 0 < numberOfSections c"
  by (auto simp: client_wf_def has_element_number_for_ddi_def word_greater_zero_iff)

lemma on_value_command_bus:
  assumes "server_wf s"
  shows "bus (snd (on_value_command client ddi el v s)) = bus s"
proof (cases "is_actual_condensed ddi")
  case True
  with assms show ?thesis by (simp add: on_value_condensed)
next
  case False
  then show ?thesis by (simp add: on_value_command_def Let_def split: option.split)
qed

lemma tc_step_allowed:
  assumes "server_wf s" "tc_step env s t"
  shows "\<exists>new. bus t = bus s @ new \<and> (\<forall>m\<in>set new. allowed s m)"
  using assms(2)
proof cases
  case (activate client)
  then show ?thesis
    by (auto simp: activate_object_pool_def Let_def split: option.split prod.split)
next
  case (value_command client ddi el v)
  with assms(1) show ?thesis by (simp add: on_value_command_bus)
next
  case measurement
  then show ?thesis
    unfolding request_measurement_commands_def
    by (auto intro!: each_client_allowed assms(1) dest!: request_client_messages)
next
  case (sections ss)
  then show ?thesis
    unfolding update_section_states_def
    by (auto intro!: each_client_allowed assms(1) dest!: update_client_messages)
next
  case (control enabled)
  then show ?thesis
    unfolding update_section_control_enabled_def
    by (auto intro!: each_client_allowed assms(1)
        simp: update_client_control_enabled_def send_section_control_state_def Let_def set_section_control_enabled_def
        split: if_splits)
next
  case (gnss quality)
  then show ?thesis
    unfolding send_gnss_quality_def
    by (auto intro!: each_client_allowed assms(1) simp: send_client_gnss_quality_def mapped_has_sections
        split: if_splits)
qed (auto simp: store_device_descriptor_object_pool_def deactivate_object_pool_def Let_def
    delete_device_descriptor_object_pool_def on_client_timeout_def)

interpretation tc: audited_system "tc_step env" server_wf bus allowed for env
  by unfold_locales (auto intro: tc_step_wf tc_step_allowed)

end
