(* ===== verification/Tc_Samples.thy ===== *)
theory Tc_Samples
  imports Tc_Measurement
begin

text \<open>
  Concrete environments, pools and clients, on which the properties of the task controller are
  instantiated: a sprayer with twenty sections that declares the condensed setpoints 290 and 291, the
  work state 289 and the section control state 160, and a seeder with three sections that is switched
  per element.
\<close>

definition sample_pd :: "u16 \<Rightarrow> u16 \<Rightarrow> bool \<Rightarrow> ddop_object option" where
  "sample_pd oid ddi settable = Some (DeviceProcessDataObject ''pd''
     \<lparr>pd_object_id = oid, pd_ddi = ddi, pd_settable = settable, pd_on_change = True, pd_time_interval = False\<rparr>)"

definition sample_el :: "u16 \<Rightarrow> u16 \<Rightarrow> u16 \<Rightarrow> u16 list \<Rightarrow> ddop_object option" where
  "sample_el oid number parent children = Some (DeviceElementObject ''el''
     \<lparr>el_object_id = oid, el_number = number, el_parent_object = parent, el_child_object_ids = children\<rparr>)"

definition sprayer_pool :: ddop where
  "sprayer_pool = \<lparr>pool_objects =
      [Some (DeviceObject ''Sprayer'' [0x65, 0x6E]), sample_el 1 1 0 [10, 11, 12, 13],
       sample_pd 10 290 True, sample_pd 11 289 True, sample_pd 12 160 True, sample_pd 13 291 True],
     get_object_by_id = (\<lambda>_. None), compatibility_level = 3\<rparr>"

definition seeder_pool :: ddop where
  "seeder_pool = \<lparr>pool_objects =
      [Some (DeviceObject ''Seeder'' [0x65, 0x6E]), sample_el 1 1 0 [12], sample_el 2 2 1 [], sample_el 3 3 1 [],
       sample_el 4 4 1 [], sample_pd 12 160 True, sample_pd 10 141 True],
     get_object_by_id = (\<lambda>_. None), compatibility_level = 3\<rparr>"

definition sample_sections :: "nat \<Rightarrow> section_geometry list" where
  "sample_sections n = map (\<lambda>i. \<lparr>sec_element = of_nat (i + 2), sec_width_mm = Some 500\<rparr>) [0..<n]"

definition sample_boom :: "nat \<Rightarrow> boom_geometry" where
  "sample_boom n = \<lparr>boom_element = 1, boom_x_mm = None, boom_y_mm = None, boom_sub_booms = [],
     boom_sections = sample_sections n\<rparr>"

text \<open>An uploaded chunk is refused when empty and read as the sprayer or the seeder by its first byte.\<close>

definition sample_tc_env :: tc_env where
  "sample_tc_env = \<lparr>
     deserialize_binary_object_pool = (\<lambda>pool chunk name.
       if chunk = [] then (False, pool) else (True, if hd chunk = 0 then sprayer_pool else seeder_pool)),
     generate_binary_object_pool = (\<lambda>_. None),
     get_implement_geometry = (\<lambda>pool. if length (pool_objects pool) = 6 then [sample_boom 20] else [sample_boom 3]),
     get_full_name = of_nat, CondensedSectionOverrideState1_16 = 367, CondensedSectionOverrideState241_256 = 382,
     env_os = sample_os\<rparr>"

definition uploaded_server :: tc_server where
  "uploaded_server = snd (store_device_descriptor_object_pool 7 [0] False new_server)"

definition sprayer :: client_state where
  "sprayer = set_section_control_enabled True
     (fst (request_client_commands sample_tc_env 7 (activated_state sample_tc_env sprayer_pool)))"

definition seeder :: client_state where
  "seeder = set_section_control_enabled True
     (fst (request_client_commands sample_tc_env 8 (activated_state sample_tc_env seeder_pool)))"

text \<open>The demand that switches on section 0 and section 17.\<close>

definition sample_demand :: "bool list" where
  "sample_demand = True # replicate 16 False @ [True]"

lemma sprayer_eq: "sprayer =
  \<lparr>client_pool = sprayer_pool, areMeasurementCommandsSent = True,
   ddiToElementNumber = [(160, 1), (289, 1), (290, 1), (291, 1)], numberOfSections = 20,
   sectionSetpointStates = replicate 20 0, sectionActualStates = replicate 20 0,
   sectionToElementNumber = map (\<lambda>i. of_nat (i + 2)) [0..<20],
   elementToSection = map (\<lambda>i. (of_nat (i + 2), of_nat i)) [0..<20],
   setpointWorkState = False, actualWorkState = False, elementWorkStates = [],
   elementParents = build_parent_map sprayer_pool, isSectionControlEnabled = True,
   usesPerElementControl = False, perElementSetpointDDI = 0\<rparr>"
  by code_simp

lemma sprayer_wf [tc_wf]: "client_wf sprayer"
  unfolding sprayer_def by (intro tc_wf)

lemma seeder_wf [tc_wf]: "client_wf seeder"
  unfolding seeder_def by (intro tc_wf)

lemma sprayer_fields:
  "numberOfSections sprayer = 20" "isSectionControlEnabled sprayer" "setpointWorkState sprayer = False"
  "ddiToElementNumber sprayer = [(160, 1), (289, 1), (290, 1), (291, 1)]"
  by (simp_all add: sprayer_eq)

lemma seeder_fields:
  "numberOfSections seeder = 3" "isSectionControlEnabled seeder" "usesPerElementControl seeder"
  "perElementSetpointDDI seeder = ActualWorkState" "ddiToElementNumber seeder = [(160, 1)]"
  by code_simp+

lemma sprayer_mapped:
  "b < blocks_of (unat (numberOfSections sprayer)) \<Longrightarrow> has_element_number_for_ddi sprayer (condensed_setpoint_ddi b)"
proof -
  assume "b < blocks_of (unat (numberOfSections sprayer))"
  then have "b = 0 \<or> b = 1" by (auto simp: sprayer_fields blocks_of_def)
  then show ?thesis
    by (auto simp: has_element_number_for_ddi_def sprayer_fields condensed_setpoint_ddi_def sm_find_def ddi_defs)
qed

lemma seeder_unmapped:
  "b < blocks_of (unat (numberOfSections seeder)) \<Longrightarrow>
     \<not> has_element_number_for_ddi seeder (condensed_setpoint_ddi b) \<and>
     \<not> has_element_number_for_ddi seeder (ActualCondensedWorkState1_16 + of_nat b)"
  by (auto simp: has_element_number_for_ddi_def seeder_fields condensed_setpoint_ddi_def sm_find_def ddi_defs blocks_of_def)

text \<open>A server with the two implements connected.\<close>

definition sample_server :: tc_server where
  "sample_server = new_server\<lparr>clients := [(7, sprayer), (8, seeder)]\<rparr>"

lemma sample_server_wf [tc_wf]: "server_wf sample_server"
  by (auto simp: server_wf_def sample_server_def new_server_def sm_wf_def sm_find_def tc_wf split: if_splits)

lemma sample_server_clients:
  "sm_find (clients sample_server) 7 = Some sprayer" "sm_find (clients sample_server) 8 = Some seeder"
  by (simp_all add: sample_server_def sm_find_def)

end
