(* ===== verification/Tc_Properties.thy ===== *)
theory Tc_Properties
  imports Tc_Safety Tc_Samples
begin

text \<open>
  The properties of the task controller server: what may appear on the bus, that the implement ends
  up with the section states AgOpenGPS asks for, what the messages say, and what activation,
  subscription and value commands do to the state.
\<close>

section \<open>The bus\<close>

text \<open>
  Safety of the whole server: along any sequence of entry points from the empty server, every
  message on the bus was sent from a reachable state in which its target was a connected client with
  at least one section, and in which that client was in automatic mode if the message drives sections.
\<close>

theorem tc_bus_safety:
  assumes "(tc_step env)\<^sup>*\<^sup>* new_server t" "m \<in> set (bus t)"
  shows "\<exists>u. (tc_step env)\<^sup>*\<^sup>* new_server u \<and> allowed u m"
  using tc.reach_log [OF assms(1) server_wf_new] assms(2) by (auto simp: new_server_def)

definition sample_activated :: tc_server where
  "sample_activated = snd (activate_object_pool sample_tc_env 7 uploaded_server)"

definition sample_subscribed :: tc_server where
  "sample_subscribed = request_measurement_commands sample_tc_env sample_activated"

lemma sample_subscribed_reachable: "(tc_step sample_tc_env)\<^sup>*\<^sup>* new_server sample_subscribed"
proof -
  have "tc_step sample_tc_env new_server uploaded_server"
    unfolding uploaded_server_def by (rule tc_step.upload)
  moreover have "tc_step sample_tc_env uploaded_server sample_activated"
    unfolding sample_activated_def by (rule tc_step.activate)
  moreover have "tc_step sample_tc_env sample_activated sample_subscribed"
    unfolding sample_subscribed_def by (rule tc_step.measurement)
  ultimately show ?thesis
    by (meson converse_rtranclp_into_rtranclp r_into_rtranclp rtranclp_trans)
qed

lemma sample_activated_state:
  "clients sample_activated = [(7, activated_state sample_tc_env sprayer_pool)]" "bus sample_activated = []"
  by (simp_all add: sample_activated_def activate_object_pool_def uploaded_server_def new_server_def sm_find_def
      store_device_descriptor_object_pool_def sample_tc_env_def sprayer_pool_def save_parsed_ddop_def Let_def)

lemma sample_subscription:
  "snd (request_client_commands sample_tc_env 7 (activated_state sample_tc_env sprayer_pool)) =
     [ChangeThreshold 7 290 1 1, ChangeThreshold 7 289 1 1, ChangeThreshold 7 160 1 1, ChangeThreshold 7 291 1 1]"
  by code_simp

lemma sample_subscribed_bus: "ChangeThreshold 7 290 1 1 \<in> set (bus sample_subscribed)"
  by (simp add: sample_subscribed_def request_measurement_commands_def each_client_eq sample_activated_state
      sample_subscription)

theorem tc_bus_safety_witness:
  "\<exists>u. (tc_step sample_tc_env)\<^sup>*\<^sup>* new_server u \<and> allowed u (ChangeThreshold 7 290 1 1)"
  by (rule tc_bus_safety [OF sample_subscribed_reachable sample_subscribed_bus])

text \<open>
  Every reachable server is well-formed: both maps are sorted, and each client's three section
  vectors are as long as its section count, hold two-bit states, and every element that is mapped to
  a section is mapped to one that exists.
\<close>

theorem tc_reachable_wf:
  assumes "(tc_step env)\<^sup>*\<^sup>* new_server t"
  shows "server_wf t"
  using tc.reach_inv [OF assms server_wf_new] .

theorem tc_reachable_wf_witness: "server_wf sample_subscribed"
  by (rule tc_reachable_wf [OF sample_subscribed_reachable])

section \<open>Section setpoints\<close>

text \<open>
  C16 The demand reaches the setpoints: after \<open>update_section_states\<close> every section of a client in
  automatic mode that the demand covers has exactly the demanded setpoint, the sections beyond the
  demand keep theirs, and the section count is unchanged.
\<close>

theorem update_reaches_demand:
  assumes "server_wf s" "sm_find (clients s) client = Some c" "isSectionControlEnabled c"
  shows "\<exists>c'. sm_find (clients (update_section_states ss s)) client = Some c' \<and>
     numberOfSections c' = numberOfSections c \<and>
     (\<forall>i. i < unat (numberOfSections c) \<longrightarrow> get_section_setpoint_state c' (of_nat i) =
        (if i < length ss then (if ss ! i then ON else OFF) else get_section_setpoint_state c (of_nat i)))"
proof -
  have wf: "client_wf c" using assms(1,2) by (auto simp: server_wf_def)
  have "unat (of_nat i :: u8) = i" "(of_nat i :: u8) < numberOfSections c" if "i < unat (numberOfSections c)" for i
    using that u8_less_256 [of "numberOfSections c"] by (auto simp: unat_of_nat of_nat_u8_less)
  then show ?thesis
    using assms wf
    by (auto simp: update_section_states_def find_each_client update_client_sections_state demanded_def)
qed

lemma sample_demand_at: "length sample_demand = 18" "sample_demand ! 16 = False" "sample_demand ! 17 = True"
  by code_simp+

theorem update_reaches_demand_witness:
  "\<exists>c'. sm_find (clients (update_section_states sample_demand sample_server)) 7 = Some c' \<and>
     get_section_setpoint_state c' 17 = ON \<and> get_section_setpoint_state c' 16 = OFF"
proof -
  obtain c' where c': "sm_find (clients (update_section_states sample_demand sample_server)) 7 = Some c'"
    "\<forall>i. i < unat (numberOfSections sprayer) \<longrightarrow> get_section_setpoint_state c' (of_nat i) =
      (if i < length sample_demand then (if sample_demand ! i then ON else OFF)
       else get_section_setpoint_state sprayer (of_nat i))"
    using update_reaches_demand [OF sample_server_wf sample_server_clients(1) sprayer_fields(2), of sample_demand] by blast
  have "get_section_setpoint_state c' 17 = ON" "get_section_setpoint_state c' 16 = OFF"
    using c'(2) [THEN spec, of 17] c'(2) [THEN spec, of 16] by (simp_all add: sprayer_fields sample_demand_at)
  then show ?thesis using c'(1) by blast
qed

text \<open>
  A client in manual mode is left alone: an update changes nothing of its state and sends it no
  message.
\<close>

theorem update_spares_manual:
  assumes "server_wf s" "sm_find (clients s) client = Some c" "\<not> isSectionControlEnabled c"
  shows "sm_find (clients (update_section_states ss s)) client = Some c \<and>
     filter (\<lambda>m. msg_target m = client) (bus (update_section_states ss s)) = filter (\<lambda>m. msg_target m = client) (bus s)"
proof (rule conjI)
  show "sm_find (clients (update_section_states ss s)) client = Some c"
    using assms(2,3) by (simp add: update_section_states_def find_each_client update_client_sections_idle)
  have "msg_target m \<noteq> client" if "(k, d) \<in> set (clients s)" "m \<in> set (snd (update_client_sections ss k d))" for k d m
  proof -
    have d: "sm_find (clients s) k = Some d" using assms(1) that(1) by (simp add: server_wf_def sm_in_find)
    then have "client_wf d" using assms(1) by (auto simp: server_wf_def)
    then show ?thesis using update_client_messages [OF _ that(2)] assms(2,3) d by auto
  qed
  then show "filter (\<lambda>m. msg_target m = client) (bus (update_section_states ss s)) =
      filter (\<lambda>m. msg_target m = client) (bus s)"
    by (auto simp: update_section_states_def each_client_eq filter_empty_conv split: prod.split)
qed

definition manual_server :: tc_server where
  "manual_server = new_server\<lparr>clients := [(7, set_section_control_enabled False sprayer)]\<rparr>"

theorem update_spares_manual_witness:
  "sm_find (clients (update_section_states sample_demand manual_server)) 7 = Some (set_section_control_enabled False sprayer) \<and>
   filter (\<lambda>m. msg_target m = 7) (bus (update_section_states sample_demand manual_server)) = []"
proof -
  have wf: "server_wf manual_server"
    by (auto simp: server_wf_def manual_server_def new_server_def sm_wf_def sm_find_def tc_wf split: if_splits)
  have c: "sm_find (clients manual_server) 7 = Some (set_section_control_enabled False sprayer)"
    "\<not> isSectionControlEnabled (set_section_control_enabled False sprayer)"
    by (simp_all add: manual_server_def sm_find_def set_section_control_enabled_def)
  show ?thesis
    using update_spares_manual [OF wf c, of sample_demand] by (simp add: manual_server_def new_server_def)
qed

text \<open>
  C14 The condensed messages of an update, exactly: a client that maps the condensed setpoint of each
  of its blocks gets one message per block in which some demanded section differs from its setpoint,
  in block order and none for the other blocks. The value of each message, decoded two bits per
  section, is the setpoint after the update, and \<open>NOT_INSTALLED\<close> past the last section.
\<close>

theorem update_condensed_exact:
  assumes "client_wf c" "isSectionControlEnabled c"
    "\<And>b. b < blocks_of (unat (numberOfSections c)) \<Longrightarrow> has_element_number_for_ddi c (condensed_setpoint_ddi b)"
  shows "\<exists>value. filter is_condensed_setpoint (snd (update_client_sections ss client c)) =
       map (\<lambda>b. SetValue client (condensed_setpoint_ddi b) (get_element_number_for_ddi c (condensed_setpoint_ddi b)) (value b))
         (filter (block_changed ss c) [0..<blocks_of (unat (numberOfSections c))]) \<and>
     (\<forall>b i. b < blocks_of (unat (numberOfSections c)) \<longrightarrow> i < 16 \<longrightarrow> condensed_state (value b) i =
        (if 16 * b + i < unat (numberOfSections c)
         then if 16 * b + i < length ss then (if ss ! (16 * b + i) then ON else OFF)
              else get_section_setpoint_state c (of_nat (16 * b + i))
         else NOT_INSTALLED))"
proof -
  let ?c' = "fst (update_client_sections ss client c)"
  have "condensed_state (setpoint_value ?c' (of_nat b * 16)) i =
      (if 16 * b + i < unat (numberOfSections c)
       then if 16 * b + i < length ss then (if ss ! (16 * b + i) then ON else OFF)
            else get_section_setpoint_state c (of_nat (16 * b + i))
       else NOT_INSTALLED)" if "b < blocks_of (unat (numberOfSections c))" "i < 16" for b i
  proof -
    have b: "b < 16" using that(1) by (rule blocks_of_u8)
    then have u: "unat (of_nat (16 * b + i) :: u8) = 16 * b + i" using that(2) by (intro unat_of_nat_u8) linarith
    have "condensed_state (setpoint_value ?c' (of_nat b * 16)) i = demanded ss c (of_nat (16 * b + i))"
      using assms(1,2) b that(2) by (simp add: setpoint_value_decode tc_wf update_client_sections_state)
    then show ?thesis
      using u unfolding demanded_def word_less_nat_alt
      by (auto simp: setpoints.fetch_outside word_less_nat_alt)
  qed
  moreover have "filter is_condensed_setpoint (snd (update_client_sections ss client c)) =
      map (\<lambda>b. SetValue client (condensed_setpoint_ddi b) (get_element_number_for_ddi c (condensed_setpoint_ddi b))
          (setpoint_value ?c' (of_nat b * 16)))
        (filter (block_changed ss c) [0..<blocks_of (unat (numberOfSections c))])"
    by (rule update_client_sections_condensed) (use assms in auto)
  ultimately show ?thesis
    by (intro exI [of _ "\<lambda>b. setpoint_value ?c' (of_nat b * 16)"]) blast
qed

theorem update_condensed_exact_witness:
  "\<exists>value. filter is_condensed_setpoint (snd (update_client_sections sample_demand 7 sprayer)) =
       [SetValue 7 290 1 (value 0), SetValue 7 291 1 (value (1 :: nat))] \<and>
     condensed_state (value 1) 1 = ON \<and> condensed_state (value 1) 0 = OFF \<and> condensed_state (value 1) 4 = NOT_INSTALLED"
proof -
  obtain "value" where v: "filter is_condensed_setpoint (snd (update_client_sections sample_demand 7 sprayer)) =
       map (\<lambda>b. SetValue 7 (condensed_setpoint_ddi b) (get_element_number_for_ddi sprayer (condensed_setpoint_ddi b)) (value b))
         (filter (block_changed sample_demand sprayer) [0..<blocks_of (unat (numberOfSections sprayer))])"
    "\<forall>b i. b < blocks_of (unat (numberOfSections sprayer)) \<longrightarrow> i < 16 \<longrightarrow> condensed_state (value b) i =
        (if 16 * b + i < unat (numberOfSections sprayer)
         then if 16 * b + i < length sample_demand then (if sample_demand ! (16 * b + i) then ON else OFF)
              else get_section_setpoint_state sprayer (of_nat (16 * b + i))
         else NOT_INSTALLED)"
    using update_condensed_exact [OF sprayer_wf sprayer_fields(2) sprayer_mapped, of sample_demand 7] by blast
  have blocks: "blocks_of (unat (numberOfSections sprayer)) = 2"
    "filter (block_changed sample_demand sprayer) [0..<2] = [0, 1]"
    by code_simp+
  have ddis: "condensed_setpoint_ddi 0 = 290" "condensed_setpoint_ddi (Suc 0) = 291"
    "get_element_number_for_ddi sprayer 290 = 1" "get_element_number_for_ddi sprayer 291 = 1"
    by code_simp+
  have "condensed_state (value 1) 1 = ON" "condensed_state (value 1) 0 = OFF" "condensed_state (value 1) 4 = NOT_INSTALLED"
    using v(2) [THEN spec, THEN spec, of 1 1] v(2) [THEN spec, THEN spec, of 1 0] v(2) [THEN spec, THEN spec, of 1 4]
    by (simp_all add: blocks_of_def sprayer_fields sample_demand_at)
  then show ?thesis
    using v(1) unfolding blocks by (intro exI [of _ "value"]) (simp add: ddis)
qed

text \<open>
  C15 Per-element control, exactly: a client without condensed identifiers whose sections are switched
  one by one gets, for each block that changed, one command per section of the block that has an
  element, in section order, carrying the setpoint after the update.
\<close>

theorem update_per_element_exact:
  assumes "client_wf c" "isSectionControlEnabled c" "usesPerElementControl c" "perElementSetpointDDI c = ActualWorkState"
    "\<And>b. b < blocks_of (unat (numberOfSections c)) \<Longrightarrow>
       \<not> has_element_number_for_ddi c (condensed_setpoint_ddi b) \<and>
       \<not> has_element_number_for_ddi c (ActualCondensedWorkState1_16 + of_nat b)"
  shows "filter is_work_state_command (snd (update_client_sections ss client c)) =
     concat (map (block_commands client (fst (update_client_sections ss client c)))
       (filter (block_changed ss c) [0..<blocks_of (unat (numberOfSections c))]))"
  using update_client_sections_per_element [OF assms refl] .

theorem update_per_element_exact_witness:
  "filter is_work_state_command (snd (update_client_sections [False, True] 8 seeder)) =
     [SetValue 8 141 2 0, SetValue 8 141 3 1, SetValue 8 141 4 0]"
proof -
  have "concat (map (block_commands 8 (fst (update_client_sections [False, True] 8 seeder)))
       (filter (block_changed [False, True] seeder) [0..<blocks_of (unat (numberOfSections seeder))])) =
     [SetValue 8 141 2 0, SetValue 8 141 3 1, SetValue 8 141 4 0]"
    by code_simp
  then show ?thesis
    using update_per_element_exact [OF seeder_wf seeder_fields(2-4) seeder_unmapped, of "[False, True]" 8] by simp
qed

text \<open>
  C11 The loop of \<open>update_section_states\<close>, which sends a block only when the next block starts and
  carries a flag between sections, computes the same state and the same messages as the reference
  that handles block after block: write the demand of the block, then send it if it changed.
\<close>

theorem update_is_blockwise:
  assumes "client_wf c" "isSectionControlEnabled c"
  shows "update_client_sections ss client c = blockwise_update ss client c"
  using update_client_sections_blockwise [OF assms] .

theorem update_is_blockwise_witness:
  "update_client_sections sample_demand 7 sprayer = blockwise_update sample_demand 7 sprayer"
  by (rule update_is_blockwise [OF sprayer_wf sprayer_fields(2)])

text \<open>What an implement makes of the messages it gets on identifier 289.\<close>

fun is_work_state :: "bus_msg \<Rightarrow> bool" where
  "is_work_state (SetValue client ddi el v) \<longleftrightarrow> ddi = SetpointWorkState"
| "is_work_state m = False"

fun hear_work_state :: "bus_msg \<Rightarrow> bool \<Rightarrow> bool" where
  "hear_work_state (SetValue client ddi el v) w = (if ddi = SetpointWorkState then v \<noteq> 0 else w)"
| "hear_work_state m w = w"

lemma condensed_not_work_state: "b < 16 \<Longrightarrow> condensed_setpoint_ddi b \<noteq> SetpointWorkState"
  using is_setpoint_condensed_block work_state_not_condensed by metis

lemma send_heard:
  assumes "has_element_number_for_ddi c (condensed_setpoint_ddi b)" "b < 16"
  shows "fold hear_work_state (snd (send_section_setpoint_states client (of_nat b) c)) (setpointWorkState c) =
      setpointWorkState (fst (send_section_setpoint_states client (of_nat b) c))"
    "m \<in> set (snd (send_section_setpoint_states client (of_nat b) c)) \<Longrightarrow> is_work_state m \<Longrightarrow>
      \<exists>on. m = SetValue client SetpointWorkState (get_element_number_for_ddi c SetpointWorkState) (work_state_value on)"
proof -
  let ?ddi = "condensed_setpoint_ddi b" and ?w = "send_setpoint_work_state client c"
  have sent: "send_section_setpoint_states client (of_nat b) c =
      (fst ?w, SetValue client ?ddi (get_element_number_for_ddi c ?ddi) (setpoint_value c (of_nat b * of_nat NUMBER_SECTIONS_PER_CONDENSED_MESSAGE)) # snd ?w)"
    using assms by (simp add: send_section_setpoint_states_def Let_def ucast_of_nat_u8_u16 condensed_setpoint_ddi_def split_beta)
  note other = condensed_not_work_state [OF assms(2)]
  have "fold hear_work_state (snd ?w) (setpointWorkState c) = setpointWorkState (fst ?w)"
    by (simp add: send_setpoint_work_state_def set_setpoint_work_state_def work_state_value_def Let_def)
  then show "fold hear_work_state (snd (send_section_setpoint_states client (of_nat b) c)) (setpointWorkState c) =
      setpointWorkState (fst (send_section_setpoint_states client (of_nat b) c))"
    using other by (simp add: sent)
  assume "m \<in> set (snd (send_section_setpoint_states client (of_nat b) c))" "is_work_state m"
  then have "m \<in> set (snd ?w)" using other by (auto simp: sent)
  then show "\<exists>on. m = SetValue client SetpointWorkState (get_element_number_for_ddi c SetpointWorkState) (work_state_value on)"
    by (auto simp: send_setpoint_work_state_def Let_def split: if_splits)
qed

lemma work_state_of_demand [simp]: "setpointWorkState (fold (write_demand ss) is c) = setpointWorkState c"
  by (induction "is" arbitrary: c) (simp_all add: write_demand_def set_section_setpoint_state_def)

lemma update_block_heard:
  assumes "has_element_number_for_ddi (fst st) (condensed_setpoint_ddi b)" "b < 16"
    "fold hear_work_state (snd st) w = setpointWorkState (fst st)"
  shows "fold hear_work_state (snd (update_block client ss n b st)) w = setpointWorkState (fst (update_block client ss n b st))"
proof -
  let ?c = "fold (write_demand ss) (block_sections n b) (fst st)"
  have "has_element_number_for_ddi ?c (condensed_setpoint_ddi b)"
    using assms(1) has_element_cong [of ?c "fst st"] by simp
  from send_heard(1) [OF this assms(2)] assms(3) show ?thesis
    by (simp add: update_block_def flush_block_def split_beta Let_def)
qed

lemma update_client_sections_heard:
  assumes "client_wf c" "isSectionControlEnabled c"
    "\<And>b. b < blocks_of (unat (numberOfSections c)) \<Longrightarrow> has_element_number_for_ddi c (condensed_setpoint_ddi b)"
  shows "fold hear_work_state (snd (update_client_sections ss client c)) (setpointWorkState c) =
    setpointWorkState (fst (update_client_sections ss client c))"
proof -
  let ?n = "unat (numberOfSections c)"
  have "fold hear_work_state (snd (after_blocks client ss ?n b c)) (setpointWorkState c) =
      setpointWorkState (fst (after_blocks client ss ?n b c))" if "b \<le> blocks_of ?n" for b
    using that
  proof (induction b)
    case (Suc b)
    let ?st = "after_blocks client ss ?n b c"
    have "has_element_number_for_ddi (fst ?st) = has_element_number_for_ddi c"
      by (rule has_element_cong) simp
    then show ?case
      using Suc assms(3) [of b] blocks_of_u8 [of b "numberOfSections c"] update_block_heard [of ?st b] by simp
  qed simp
  then show ?thesis
    by (simp add: update_client_sections_blockwise [OF assms(1,2)] blockwise_update_def)
qed

lemma update_client_sections_work_state:
  assumes "client_wf c" "isSectionControlEnabled c"
    "\<And>b. b < blocks_of (unat (numberOfSections c)) \<Longrightarrow> has_element_number_for_ddi c (condensed_setpoint_ddi b)"
    "m \<in> set (snd (update_client_sections ss client c))" "is_work_state m"
  shows "\<exists>on. m = SetValue client SetpointWorkState (get_element_number_for_ddi c SetpointWorkState) (work_state_value on)"
proof -
  obtain b where b: "b < blocks_of (unat (numberOfSections c))"
    "m \<in> set (snd (send_section_setpoint_states client (of_nat b) (block_state client ss c b)))"
    using assms(1,2,4) by (auto simp: update_client_sections_blockwise blockwise_update_def after_blocks_messages split: if_splits)
  have "has_element_number_for_ddi (block_state client ss c b) (condensed_setpoint_ddi b)"
    using assms(3) [OF b(1)] has_element_cong [of "block_state client ss c b" c] by simp
  from send_heard(2) [OF this blocks_of_u8 [OF b(1)] b(2) assms(5)] show ?thesis
    by (simp add: get_element_number_for_ddi_def)
qed

text \<open>
  C37 The global work state follows the sections, for a client that maps identifier 289 and its condensed
  setpoints and was in step before an update. The messages on 289 that the update sends go to the mapped
  element with the values 0 and 1, and after the last of them the implement has been told what the client
  state remembers: whether any section is on after the update.
\<close>

theorem work_state_follows:
  assumes "client_wf c" "isSectionControlEnabled c" "work_state_in_step c"
    "has_element_number_for_ddi c SetpointWorkState"
    "\<And>b. b < blocks_of (unat (numberOfSections c)) \<Longrightarrow> has_element_number_for_ddi c (condensed_setpoint_ddi b)"
    "update_client_sections ss client c = (c', msgs)"
  shows "fold hear_work_state msgs (setpointWorkState c) = (\<exists>i < numberOfSections c. get_section_setpoint_state c' i = ON) \<and>
    setpointWorkState c' = (\<exists>i < numberOfSections c. get_section_setpoint_state c' i = ON) \<and>
    (\<forall>m. m \<in> set msgs \<and> is_work_state m \<longrightarrow>
       (\<exists>on. m = SetValue client SetpointWorkState (get_element_number_for_ddi c SetpointWorkState) (work_state_value on)))"
proof -
  have c': "c' = fst (update_client_sections ss client c)" "msgs = snd (update_client_sections ss client c)"
    using assms(6) by simp_all
  have "client_wf c'" using assms(1) unfolding c'(1) by (intro tc_wf)
  moreover have "numberOfSections c' = numberOfSections c"
    using assms(1,2) by (simp add: c'(1) update_client_sections_blockwise blockwise_update_def)
  moreover have "work_state_in_step c'" unfolding c'(1) by (rule update_client_sections_in_step [OF assms(1-5)])
  ultimately have "setpointWorkState c' = (\<exists>i < numberOfSections c. get_section_setpoint_state c' i = ON)"
    by (simp add: work_state_in_step_def is_any_section_setpoint_on_iff)
  then show ?thesis
    using update_client_sections_heard [OF assms(1,2,5), of ss client]
      update_client_sections_work_state [OF assms(1,2,5), where ss = ss and client = client]
    unfolding c' [symmetric] by blast
qed

theorem work_state_follows_witness:
  "fold hear_work_state (snd (update_client_sections sample_demand 7 sprayer)) (setpointWorkState sprayer) \<and>
   \<not> setpointWorkState sprayer"
proof -
  have s: "work_state_in_step sprayer" "has_element_number_for_ddi sprayer SetpointWorkState" "\<not> setpointWorkState sprayer"
    "setpointWorkState (fst (update_client_sections sample_demand 7 sprayer))" by code_simp+
  then show ?thesis
    using work_state_follows [OF sprayer_wf sprayer_fields(2) s(1,2) sprayer_mapped prod.collapse [symmetric], of sample_demand 7]
    by blast
qed

text \<open>The sprayer with its first section on.\<close>

definition moving_sprayer :: client_state where
  "moving_sprayer = fst (update_client_sections [True] 7 sprayer)"

text \<open>
  Inside one update the work state can glitch: when the only active section moves from one block of
  sixteen to the next, the first block is sent while no section is on, so the implement is told to
  stop working (289 := 0) and, with the next block, to start again (289 := 1).
\<close>

theorem work_state_glitch:
  "snd (update_client_sections (replicate 17 False @ [True]) 7 moving_sprayer) =
     [SetValue 7 290 1 0, SetValue 7 289 1 0, SetValue 7 291 1 0xFFFFFF04, SetValue 7 289 1 1]"
  by code_simp

end
