(* ===== verification/Tc_Pool_Properties.thy ===== *)
theory Tc_Pool_Properties
  imports Tc_Safety Tc_Samples
begin

text \<open>
  Properties of the life cycle of an implement on the task controller server: activation of an
  uploaded pool, subscription to its process data, the values it reports and the element hierarchy
  that qualifies them.
\<close>

section \<open>Activation\<close>

lemma activated_state_start:
  "isSectionControlEnabled (activated_state env pool) = False"
  "areMeasurementCommandsSent (activated_state env pool) = False"
  "ddiToElementNumber (activated_state env pool) = []"
proof -
  have frame: "isSectionControlEnabled (fold (\<lambda>i. set_element_number_for_section (f i) (g i)) ks c) = isSectionControlEnabled c"
    "areMeasurementCommandsSent (fold (\<lambda>i. set_element_number_for_section (f i) (g i)) ks c) = areMeasurementCommandsSent c"
    "ddiToElementNumber (fold (\<lambda>i. set_element_number_for_section (f i) (g i)) ks c) = ddiToElementNumber c"
    for f :: "nat \<Rightarrow> u8" and g ks c
    by (induction ks arbitrary: c) (simp_all add: set_element_number_for_section_def)
  show "isSectionControlEnabled (activated_state env pool) = False" "areMeasurementCommandsSent (activated_state env pool) = False"
    "ddiToElementNumber (activated_state env pool) = []"
    by (simp_all add: activated_state_def Let_def choose_control_method_def client_ops map_section_elements_def frame
        build_element_hierarchy_def new_client_state_def set_number_of_sections_def split: prod.split)
qed

text \<open>
  C23 Accepting a pool: when the queued chunks parse, the pool has a device object and the copy can be
  stored, \<open>activate_object_pool\<close> answers without error and the client's new state has one section per
  section of the geometry (the 8-bit count wraps at 256), mapped to their elements in geometry order,
  all setpoints and actual states off, section control off, no identifier mapped, the measurement
  commands still to be sent and the parent map of the pool.
\<close>

theorem activation_accepts:
  assumes "server_wf s" "sm_find (uploadedPools s) client = Some chunks"
    "deserialize_chunks env (get_full_name env client) chunks (False, empty_pool\<lparr>compatibility_level := SecondEditionDraft\<rparr>) = (True, pool)"
    "find_device_label (pool_objects pool) = Some label"
    "generate_binary_object_pool env pool \<noteq> None \<longrightarrow> get_filename_path (env_os env) (ddop_file_name (get_full_name env client) label) \<noteq> None"
    "secs = geometry_sections (get_implement_geometry env pool)"
  shows "fst (activate_object_pool env client s) = Some (activation_outcome True NoErrors NoPoolErrors) \<and>
     (\<exists>c. sm_find (clients (snd (activate_object_pool env client s))) client = Some c \<and>
        client_pool c = pool \<and> unat (numberOfSections c) = length secs mod 256 \<and>
        sectionToElementNumber c = map sec_element (take (length secs mod 256) secs) \<and>
        sectionSetpointStates c = replicate (length secs mod 256) OFF \<and>
        sectionActualStates c = replicate (length secs mod 256) OFF \<and>
        \<not> isSectionControlEnabled c \<and> ddiToElementNumber c = [] \<and> \<not> areMeasurementCommandsSent c \<and>
        elementParents c = build_parent_map pool) \<and>
     sm_find (uploadedPools (snd (activate_object_pool env client s))) client = Some []"
proof -
  have "save_parsed_ddop env (get_full_name env client) label pool fs \<noteq> None" for fs
    using assms(5) by (auto simp: save_parsed_ddop_def split: option.split)
  moreover have "sm_wf (clients s)" "sm_wf (uploadedPools s)" using assms(1) by (simp_all add: server_wf_def)
  ultimately show ?thesis
    using assms(2-4) activated_state_eqs [OF assms(6)] activated_state_start [of env pool]
    by (auto simp: activate_object_pool_def Let_def smap.find_put unat_of_nat split: option.split)
qed

theorem activation_accepts_witness:
  "fst (activate_object_pool sample_tc_env 7 uploaded_server) = Some (activation_outcome True NoErrors NoPoolErrors) \<and>
   (\<exists>c. sm_find (clients (snd (activate_object_pool sample_tc_env 7 uploaded_server))) 7 = Some c \<and> numberOfSections c = 20 \<and>
      \<not> isSectionControlEnabled c)"
proof -
  have up: "server_wf uploaded_server" "sm_find (uploadedPools uploaded_server) 7 = Some [[0]]"
    by (simp_all add: uploaded_server_def tc_wf) (simp add: store_device_descriptor_object_pool_def new_server_def sm_find_def)
  have parsed: "deserialize_chunks sample_tc_env (get_full_name sample_tc_env 7) [[0]]
      (False, empty_pool\<lparr>compatibility_level := SecondEditionDraft\<rparr>) = (True, sprayer_pool)"
    by (simp add: sample_tc_env_def)
  have label: "find_device_label (pool_objects sprayer_pool) = Some [0x65, 0x6E]"
    "generate_binary_object_pool sample_tc_env sprayer_pool = None"
    by (simp_all add: sprayer_pool_def sample_tc_env_def)
  have len: "length (geometry_sections (get_implement_geometry sample_tc_env sprayer_pool)) = 20"
    by code_simp
  obtain c where "fst (activate_object_pool sample_tc_env 7 uploaded_server) = Some (activation_outcome True NoErrors NoPoolErrors)"
    "sm_find (clients (snd (activate_object_pool sample_tc_env 7 uploaded_server))) 7 = Some c" "unat (numberOfSections c) = 20"
    "\<not> isSectionControlEnabled c"
    using activation_accepts [OF up parsed label(1) _ refl] label(2) len by auto
  then show ?thesis by (auto simp: word_unat_eq_iff)
qed

text \<open>
  C24 Refusing a pool: without an upload the answer is \<open>AnyOtherError\<close>; a failed parse and a pool
  without a device object give the two pool errors. In all three cases the list of clients is
  unchanged and no message is sent.
\<close>

theorem activation_rejects:
  assumes "name = get_full_name env client"
    "sm_find (uploadedPools s) client = None \<and> r = activation_outcome False AnyOtherError NoPoolErrors \<or>
     (\<exists>chunks pool. sm_find (uploadedPools s) client = Some chunks \<and>
        deserialize_chunks env name chunks (False, empty_pool\<lparr>compatibility_level := SecondEditionDraft\<rparr>) = (False, pool) \<and>
        r = activation_outcome False ThereAreErrorsInTheDDOP AnyOtherPoolError) \<or>
     (\<exists>chunks pool. sm_find (uploadedPools s) client = Some chunks \<and>
        deserialize_chunks env name chunks (False, empty_pool\<lparr>compatibility_level := SecondEditionDraft\<rparr>) = (True, pool) \<and>
        find_device_label (pool_objects pool) = None \<and>
        r = activation_outcome False ThereAreErrorsInTheDDOP UnknownObjectReference)"
  shows "fst (activate_object_pool env client s) = Some r \<and>
     clients (snd (activate_object_pool env client s)) = clients s \<and> bus (snd (activate_object_pool env client s)) = bus s"
  using assms by (auto simp: activate_object_pool_def Let_def)

theorem activation_rejects_witness:
  "fst (activate_object_pool sample_tc_env 9 uploaded_server) = Some (activation_outcome False AnyOtherError NoPoolErrors) \<and>
   clients (snd (activate_object_pool sample_tc_env 9 uploaded_server)) = [] \<and>
   bus (snd (activate_object_pool sample_tc_env 9 uploaded_server)) = []"
proof -
  have "sm_find (uploadedPools uploaded_server) 9 = None" "clients uploaded_server = []" "bus uploaded_server = []"
    by (simp_all add: uploaded_server_def store_device_descriptor_object_pool_def new_server_def sm_find_def)
  then show ?thesis
    using activation_rejects [OF refl disjI1, of uploaded_server 9 _ sample_tc_env] by simp
qed

lemma deserialize_no_chunks [simp]: "deserialize_chunks env name [] st = st"
  by (cases st) simp

text \<open>
  The verdict on a pool uploaded in several chunks is that of the last chunk alone: a chunk that
  fails to parse is forgotten when a later one parses.
\<close>

theorem last_chunk_decides:
  "fst (deserialize_chunks env name (chunks @ [chunk]) st) =
     fst (deserialize_binary_object_pool env (snd (deserialize_chunks env name chunks st)) chunk name)"
  by (induction env name chunks st rule: deserialize_chunks.induct) simp_all

text \<open>
  C25 The section control method: per-element control is chosen exactly when the pool declares no
  condensed setpoint and no settable condensed actual state, but a settable actual work state, and
  then commands use that identifier.
\<close>

theorem control_method_chosen:
  "usesPerElementControl (activated_state env pool) \<longleftrightarrow>
     (\<forall>pd. pd \<in> pool_process_data pool \<longrightarrow> \<not> is_setpoint_condensed (pd_ddi pd) \<and>
        \<not> (is_actual_condensed (pd_ddi pd) \<and> pd_settable pd)) \<and>
     (\<exists>pd. pd \<in> pool_process_data pool \<and> pd_ddi pd = ActualWorkState \<and> pd_settable pd \<and>
        perElementSetpointDDI (activated_state env pool) = ActualWorkState)"
proof -
  have pds: "(\<exists>x\<in>set (pool_objects pool). \<exists>pd. process_data_of x = Some pd \<and> P pd) \<longleftrightarrow>
      (\<exists>pd. pd \<in> pool_process_data pool \<and> P pd)" for P
    by (auto simp: process_data_of_eq_Some pool_process_data_def)
  show ?thesis
    using activated_control_method [OF refl, of env pool]
    by (auto simp: scan_control_methods_eq no_control_flags_def pds)
qed

theorem control_method_chosen_witness:
  "usesPerElementControl (activated_state sample_tc_env seeder_pool) \<and>
   perElementSetpointDDI (activated_state sample_tc_env seeder_pool) = ActualWorkState"
proof -
  have "usesPerElementControl (activated_state sample_tc_env seeder_pool)" by code_simp
  then show ?thesis
    using control_method_chosen [of sample_tc_env seeder_pool] by blast
qed

section \<open>Subscription\<close>

text \<open>
  C26 Subscription, exactly: for a client with sections that was not asked yet, an identifier is mapped
  to an element afterwards exactly when it was before, or some element of the pool lists a process
  data object with it among the reported or control identifiers, or it is the GNSS quality and
  declared settable under an element. The messages are exactly the change thresholds of 1 and, for
  the reported identifiers only, the time intervals of 1000 ms, of those pairs.
\<close>

theorem subscription_exact:
  assumes "client_wf c" "\<not> areMeasurementCommandsSent c" "0 < numberOfSections c"
  shows "(\<forall>ddi. has_element_number_for_ddi (fst (request_client_commands env client c)) ddi \<longleftrightarrow>
       has_element_number_for_ddi c ddi \<or>
       (\<exists>pd el. wanted_pair (\<lambda>d. is_reported_ddi env d \<or> is_control_ddi d) (pool_objects (client_pool c)) pd el \<and> ddi = pd_ddi pd) \<or>
       ddi = GNSSQuality \<and> gnss_mapped (client_pool c)) \<and>
     set (snd (request_client_commands env client c)) =
       {m. \<exists>pd el. wanted_pair (is_reported_ddi env) (pool_objects (client_pool c)) pd el \<and> m \<in> set (subscription client True pd el)} \<union>
       {m. \<exists>pd el. wanted_pair is_control_ddi (pool_objects (client_pool c)) pd el \<and> m \<in> set (subscription client False pd el)}"
  using request_client_commands_spec(3,4) [OF assms, of env client] by blast

theorem subscription_exact_witness:
  "has_element_number_for_ddi (fst (request_client_commands sample_tc_env 7 (activated_state sample_tc_env sprayer_pool))) 290 \<and>
   \<not> gnss_mapped sprayer_pool \<and>
   \<not> has_element_number_for_ddi (fst (request_client_commands sample_tc_env 7 (activated_state sample_tc_env sprayer_pool))) GNSSQuality"
proof -
  let ?c = "activated_state sample_tc_env sprayer_pool"
  have c: "\<not> areMeasurementCommandsSent ?c" "0 < numberOfSections ?c" "client_pool ?c = sprayer_pool"
    "\<not> has_element_number_for_ddi ?c GNSSQuality"
    by code_simp+
  have yes: "\<exists>pd el. wanted_pair (\<lambda>d. is_reported_ddi sample_tc_env d \<or> is_control_ddi d) (pool_objects sprayer_pool) pd el \<and> 290 = pd_ddi pd"
    by (rule exI [of _ "\<lparr>pd_object_id = 10, pd_ddi = 290, pd_settable = True, pd_on_change = True, pd_time_interval = False\<rparr>"],
        rule exI [of _ "\<lparr>el_object_id = 1, el_number = 1, el_parent_object = 0, el_child_object_ids = [10, 11, 12, 13]\<rparr>"])
      (simp add: wanted_pair_def owns_def sprayer_pool_def sample_pd_def sample_el_def is_control_ddi_def
        is_setpoint_condensed_def ddi_defs)
  have no: "\<not> gnss_mapped sprayer_pool" "\<not> (\<exists>pd el. wanted_pair (\<lambda>d. is_reported_ddi sample_tc_env d \<or> is_control_ddi d)
      (pool_objects sprayer_pool) pd el \<and> GNSSQuality = pd_ddi pd)"
    by (auto simp: gnss_mapped_def wanted_pair_def sprayer_pool_def sample_pd_def sample_el_def ddi_defs)
  note exact = subscription_exact [OF client_wf_activated c(1,2), of sample_tc_env 7, unfolded c(3)]
  have "has_element_number_for_ddi (fst (request_client_commands sample_tc_env 7 ?c)) 290"
    using exact yes by blast
  moreover have "\<not> has_element_number_for_ddi (fst (request_client_commands sample_tc_env 7 ?c)) GNSSQuality"
    using exact no c(4) by blast
  ultimately show ?thesis using no(1) by blast
qed

text \<open>An implement is asked once: requesting again changes nothing and sends nothing.\<close>

theorem subscription_once:
  "request_measurement_commands env (request_measurement_commands env s) = request_measurement_commands env s"
proof -
  have idle: "request_client_commands env client (fst (request_client_commands env client c)) =
      (fst (request_client_commands env client c), [])" for client c
  proof (cases "\<not> areMeasurementCommandsSent c \<and> 0 < numberOfSections c")
    case True
    then have "areMeasurementCommandsSent (fst (request_client_commands env client c))"
      by (simp add: request_client_commands_def Let_def mark_measurement_commands_sent_def)
    then show ?thesis by (simp add: request_client_commands_def)
  qed (auto simp: request_client_commands_def)
  have "each_client (request_client_commands env) (each_client (request_client_commands env) s) =
      each_client (request_client_commands env) s"
    by (simp add: each_client_eq case_prod_unfold comp_def idle)
  then show ?thesis by (simp add: request_measurement_commands_def)
qed

section \<open>Reported values\<close>

text \<open>
  C27 A condensed work state reported on identifier \<open>161 + b\<close> sets the actual states of the sections
  \<open>16 b\<close> to \<open>16 b + 15\<close> that exist to the two-bit fields of the value, and touches no other section
  and no other client.
\<close>

theorem condensed_report_stored:
  assumes "server_wf s" "b < 16"
  shows "raw_actual_state (client_at (snd (on_value_command client (ActualCondensedWorkState1_16 + of_nat b) el v s)) client) j =
       (if 16 * b \<le> unat j \<and> unat j < 16 * b + 16 \<and> j < numberOfSections (client_at s client)
        then condensed_state v (unat j - 16 * b) else raw_actual_state (client_at s client) j) \<and>
     (other \<noteq> client \<longrightarrow>
        client_at (snd (on_value_command client (ActualCondensedWorkState1_16 + of_nat b) el v s)) other = client_at s other)"
  using assms
  by (simp add: on_value_condensed is_actual_condensed_block client_at_modify condensed_offset_block
      fold_condensed_state tc_wf)

theorem condensed_report_stored_witness:
  "raw_actual_state (client_at (snd (on_value_command 7 162 1 0x04 sample_server)) 7) 17 = ON \<and>
   client_at (snd (on_value_command 7 162 1 0x04 sample_server)) 8 = client_at sample_server 8"
proof -
  have "(1 :: nat) < 16" by simp
  note r = condensed_report_stored [OF sample_server_wf this, of 7 1 4 17 8]
  have "client_at sample_server 7 = sprayer" by (simp add: client_at_def sample_server_clients)
  moreover have "condensed_state 4 1 = ON" by code_simp
  ultimately show ?thesis using r by (simp add: sprayer_fields ddi_defs)
qed

text \<open>
  C28 What is reported to AgOpenGPS for a section: \<open>NOT_INSTALLED\<close> past the last section; \<open>OFF\<close> when
  the client is not switched per element and the section's element, or any element above it in the
  parent map, however deep and even if the map has a cycle, last reported that it is not working; the
  stored actual state otherwise.
\<close>

theorem actual_state_respects_parents:
  "get_section_actual_state c i =
     (if \<not> i < numberOfSections c then NOT_INSTALLED
      else if \<not> usesPerElementControl c \<and>
        (\<exists>a. (get_element_number_for_section c i, a) \<in> (parent_rel (elementParents c))\<^sup>* \<and>
             sm_find (elementWorkStates c) a = Some False) then OFF
      else raw_actual_state c i)"
  by (simp add: get_section_actual_state_eq is_element_or_parent_off_iff)

section \<open>A pool that is never commanded\<close>

lemma unsettable_condensed_silent:
  assumes "client_wf c"
    "\<And>b. b < blocks_of (unat (numberOfSections c)) \<Longrightarrow>
       \<not> has_element_number_for_ddi c (condensed_setpoint_ddi b) \<and>
       has_element_number_for_ddi c (ActualCondensedWorkState1_16 + of_nat b) \<and>
       \<not> is_ddi_settable c (ActualCondensedWorkState1_16 + of_nat b)"
  shows "snd (update_client_sections ss client c) = []"
proof (cases "isSectionControlEnabled c")
  case True
  have "snd (send_section_setpoint_states client (of_nat b) (block_state client ss c b)) = []"
    if "b < blocks_of (unat (numberOfSections c))" for b
    using assms(2) [OF that] blocks_of_u8 [OF that] has_element_cong [of "block_state client ss c b" c]
    by (simp add: send_section_setpoint_states_def Let_def ucast_of_nat_u8_u16 condensed_setpoint_ddi_def is_ddi_settable_def)
  then show ?thesis
    using assms(1) True
    by (auto simp: update_client_sections_blockwise blockwise_update_def after_blocks_messages)
qed (simp add: update_client_sections_idle)

text \<open>The identifiers of the condensed blocks.\<close>

lemma condensed_block_ddi:
  assumes "b < 16"
  shows "condensed_setpoint_ddi b \<noteq> GNSSQuality" "is_actual_condensed (ActualCondensedWorkState1_16 + of_nat b)"
proof -
  have "b \<in> {0, 1, 2, 3, 4, 5, 6, 7, 8, 9, 10, 11, 12, 13, 14, 15}"
    using assms unfolding insert_iff empty_iff by presburger
  then show "condensed_setpoint_ddi b \<noteq> GNSSQuality" "is_actual_condensed (ActualCondensedWorkState1_16 + of_nat b)"
    by (auto simp: is_actual_condensed_def condensed_setpoint_ddi_def ddi_defs)
qed

text \<open>A pool whose elements report the condensed actual states of every block of its sections.\<close>

definition reports_condensed :: "ddop \<Rightarrow> nat \<Rightarrow> bool" where
  "reports_condensed pool n \<longleftrightarrow> (\<forall>b < blocks_of n.
     \<exists>pd el. wanted_pair (\<lambda>ddi. ddi = ActualCondensedWorkState1_16 + of_nat b) (pool_objects pool) pd el)"

lemma subscribed_reporter:
  assumes "\<And>pd. pd \<in> pool_process_data pool \<Longrightarrow>
       \<not> is_setpoint_condensed (pd_ddi pd) \<and> \<not> (is_actual_condensed (pd_ddi pd) \<and> pd_settable pd)"
    "0 < numberOfSections (activated_state env pool)"
    "reports_condensed pool (unat (numberOfSections (activated_state env pool)))"
    "c = fst (request_client_commands env client (activated_state env pool))"
    "b < blocks_of (unat (numberOfSections (activated_state env pool)))"
  shows "\<not> has_element_number_for_ddi c (condensed_setpoint_ddi b)"
    "has_element_number_for_ddi c (ActualCondensedWorkState1_16 + of_nat b)"
    "\<not> is_ddi_settable_loop (pool_objects pool) (ActualCondensedWorkState1_16 + of_nat b)"
proof -
  note b = blocks_of_u8 [OF assms(5)]
  note ddi = is_setpoint_condensed_block [OF b] condensed_block_ddi [OF b]
  note pool = activated_state_eqs(2) [OF refl, of env pool]
  have pds: "pd \<in> pool_process_data pool" if "x \<in> set (pool_objects pool)" "process_data_of x = Some pd" for x pd
    using that by (auto simp: process_data_of_eq_Some pool_process_data_def)
  note spec = request_client_commands_spec(3) [OF client_wf_activated _ assms(2), of env client, folded assms(4), unfolded pool]
  have mapped: "has_element_number_for_ddi c d \<longleftrightarrow>
      (\<exists>pd el. wanted_pair (\<lambda>d. is_reported_ddi env d \<or> is_control_ddi d) (pool_objects pool) pd el \<and> d = pd_ddi pd) \<or>
      d = GNSSQuality \<and> gnss_mapped pool" for d
    using spec [of d] by (simp add: activated_state_start has_element_number_for_ddi_def sm_find_def)
  show "\<not> has_element_number_for_ddi c (condensed_setpoint_ddi b)"
    using ddi(1,2) assms(1) pds unfolding mapped wanted_pair_def by metis
  obtain pd el where "wanted_pair (\<lambda>ddi. ddi = ActualCondensedWorkState1_16 + of_nat b) (pool_objects pool) pd el"
    using assms(3,5) by (auto simp: reports_condensed_def)
  then show "has_element_number_for_ddi c (ActualCondensedWorkState1_16 + of_nat b)"
    unfolding mapped using ddi(3) by (auto simp: wanted_pair_def is_reported_ddi_def)
  show "\<not> is_ddi_settable_loop (pool_objects pool) (ActualCondensedWorkState1_16 + of_nat b)"
  proof
    assume "is_ddi_settable_loop (pool_objects pool) (ActualCondensedWorkState1_16 + of_nat b)"
    then obtain pd where "pd \<in> pool_process_data pool" "pd_ddi pd = ActualCondensedWorkState1_16 + of_nat b" "pd_settable pd"
      using is_ddi_settable_loop_witness by (force simp: pool_process_data_def)
    then show False using assms(1) ddi(3) by simp
  qed
qed

text \<open>
  C40 A pool that is selected for per-element control and never commanded. The pool declares a settable
  actual work state (141), no condensed setpoint (290 to 305) and no settable condensed actual state, but
  its elements report, not settable, the condensed actual state (161 and up) of every block of sixteen of
  its sections. Then activation chooses per-element control; and once the implement has been asked for
  its values, an update of its sections sends it nothing, whatever the demand and the mode, as long as it
  keeps this pool, its sections and its identifiers: the branch for the condensed actual state is taken
  before the per-element one and only logs that the identifier is not settable.
\<close>

theorem unsettable_condensed_silences:
  assumes "\<exists>pd. pd \<in> pool_process_data pool \<and> pd_ddi pd = ActualWorkState \<and> pd_settable pd"
    "\<And>pd. pd \<in> pool_process_data pool \<Longrightarrow>
       \<not> is_setpoint_condensed (pd_ddi pd) \<and> \<not> (is_actual_condensed (pd_ddi pd) \<and> pd_settable pd)"
    "0 < numberOfSections (activated_state env pool)"
    "reports_condensed pool (unat (numberOfSections (activated_state env pool)))"
    "c = fst (request_client_commands env client (activated_state env pool))"
  shows "usesPerElementControl c \<and>
    (\<forall>d ss. client_wf d \<and> client_pool d = client_pool c \<and> numberOfSections d = numberOfSections c \<and>
       ddiToElementNumber d = ddiToElementNumber c \<longrightarrow> snd (update_client_sections ss client d) = [])"
proof (intro conjI allI impI)
  obtain m where m: "c = (activated_state env pool)\<lparr>ddiToElementNumber := m, areMeasurementCommandsSent := True\<rparr>"
    using request_client_commands_spec(1) [OF client_wf_activated _ assms(3)] assms(5) by (auto simp: activated_state_start)
  have "\<exists>x\<in>set (pool_objects pool). \<exists>pd. process_data_of x = Some pd \<and> pd_ddi pd = ActualWorkState \<and> pd_settable pd"
    using assms(1) by (fastforce simp: process_data_of_eq_Some pool_process_data_def)
  moreover have "\<not> (\<exists>x\<in>set (pool_objects pool). \<exists>pd. process_data_of x = Some pd \<and> is_setpoint_condensed (pd_ddi pd))"
    "\<not> (\<exists>x\<in>set (pool_objects pool). \<exists>pd. process_data_of x = Some pd \<and> is_actual_condensed (pd_ddi pd) \<and> pd_settable pd)"
    using assms(2) by (auto simp: process_data_of_eq_Some pool_process_data_def)
  ultimately have "usesPerElementControl (activated_state env pool)"
    using activated_control_method(1) [OF refl, of env pool] by (simp add: scan_control_methods_eq no_control_flags_def)
  then show "usesPerElementControl c" by (simp add: m)
  fix d ss
  assume d: "client_wf d \<and> client_pool d = client_pool c \<and> numberOfSections d = numberOfSections c \<and>
       ddiToElementNumber d = ddiToElementNumber c"
  have pool: "client_pool c = pool" by (simp add: m activated_state_eqs(2) [OF refl])
  have same: "has_element_number_for_ddi d = has_element_number_for_ddi c" by (rule has_element_cong) (use d in simp)
  show "snd (update_client_sections ss client d) = []"
  proof (rule unsettable_condensed_silent)
    fix b
    assume "b < blocks_of (unat (numberOfSections d))"
    then have b: "b < blocks_of (unat (numberOfSections (activated_state env pool)))" using d by (simp add: m)
    show "\<not> has_element_number_for_ddi d (condensed_setpoint_ddi b) \<and>
       has_element_number_for_ddi d (ActualCondensedWorkState1_16 + of_nat b) \<and>
       \<not> is_ddi_settable d (ActualCondensedWorkState1_16 + of_nat b)"
      using subscribed_reporter [OF assms(2-5) b] d by (simp add: same is_ddi_settable_def pool)
  qed (use d in simp)
qed

definition mixed_pool :: ddop where
  "mixed_pool = \<lparr>pool_objects =
      [Some (DeviceObject ''Mixed'' [0x65]), sample_el 1 1 0 [10], sample_el 2 2 1 [11], sample_el 3 3 1 [11],
       sample_el 4 4 1 [11], sample_pd 10 161 False, sample_pd 11 141 True],
     get_object_by_id = (\<lambda>_. None), compatibility_level = 3\<rparr>"

definition mixed :: client_state where
  "mixed = fst (request_client_commands sample_tc_env 8 (activated_state sample_tc_env mixed_pool))"

theorem unsettable_condensed_silences_witness:
  "usesPerElementControl mixed \<and> numberOfSections mixed = 3 \<and>
   snd (update_client_sections [True, True, True] 8 (set_section_control_enabled True mixed)) = []"
proof -
  have pds: "pool_process_data mixed_pool =
      {\<lparr>pd_object_id = 10, pd_ddi = 161, pd_settable = False, pd_on_change = True, pd_time_interval = False\<rparr>,
       \<lparr>pd_object_id = 11, pd_ddi = 141, pd_settable = True, pd_on_change = True, pd_time_interval = False\<rparr>}"
    by (auto simp: pool_process_data_def mixed_pool_def sample_pd_def sample_el_def)
  have n: "numberOfSections (activated_state sample_tc_env mixed_pool) = 3" "numberOfSections mixed = 3" by code_simp+
  have "\<exists>pd el. wanted_pair (\<lambda>ddi. ddi = ActualCondensedWorkState1_16 + of_nat 0) (pool_objects mixed_pool) pd el"
    by (rule exI [of _ "\<lparr>pd_object_id = 10, pd_ddi = 161, pd_settable = False, pd_on_change = True, pd_time_interval = False\<rparr>"],
        rule exI [of _ "\<lparr>el_object_id = 1, el_number = 1, el_parent_object = 0, el_child_object_ids = [10]\<rparr>"])
      (simp add: wanted_pair_def owns_def mixed_pool_def sample_pd_def sample_el_def ddi_defs)
  then have reports: "reports_condensed mixed_pool (unat (numberOfSections (activated_state sample_tc_env mixed_pool)))"
    by (simp add: reports_condensed_def n blocks_of_def)
  have work: "\<exists>pd. pd \<in> pool_process_data mixed_pool \<and> pd_ddi pd = ActualWorkState \<and> pd_settable pd"
    by (rule exI [of _ "\<lparr>pd_object_id = 11, pd_ddi = 141, pd_settable = True, pd_on_change = True, pd_time_interval = False\<rparr>"])
      (simp add: pds ddi_defs)
  have none: "\<not> is_setpoint_condensed (pd_ddi pd) \<and> \<not> (is_actual_condensed (pd_ddi pd) \<and> pd_settable pd)"
    if "pd \<in> pool_process_data mixed_pool" for pd
    using that by (auto simp: pds is_setpoint_condensed_def is_actual_condensed_def ddi_defs)
  have "0 < numberOfSections (activated_state sample_tc_env mixed_pool)" by (simp add: n)
  note silent = unsettable_condensed_silences [OF work none this reports mixed_def]
  have "client_wf (set_section_control_enabled True mixed)" unfolding mixed_def by (intro tc_wf)
  then show ?thesis using silent n(2) by (simp add: set_section_control_enabled_def)
qed

end
