(* ===== verification/Settings.thy ===== *)
theory Settings
  imports Config_Path Text_Format
begin

text \<open>
  \<open>Settings\<close> of \<open>src/include/settings.hpp\<close> and \<open>src/src/settings.cpp\<close>: the values kept in
  \<open>settings.json\<close>, loading them with a default per key, saving them through a temporary file, and
  the setters. Every method holds \<open>settingsMutex\<close> throughout, so each is one atomic function. The
  JSON library and the file operations are parameters; \<open>None\<close> as a result is an exception that
  leaves the method.
\<close>

section \<open>State and environment\<close>

record settings =
  configuredSubnet :: "u8 list"
  tecuEnabled :: bool
  nmeaSendEnabled :: bool
  aogHeartbeatEnabled :: bool
  vtEnabled :: bool
  tcVersion :: u8
  languageCode :: string
  countryCode :: string

definition DEFAULT_SUBNET :: "u8 list" where "DEFAULT_SUBNET = [192, 168, 5]"
definition DEFAULT_TC_VERSION :: u8 where "DEFAULT_TC_VERSION = 3"
definition DEFAULT_LANGUAGE_CODE :: string where "DEFAULT_LANGUAGE_CODE = ''en''"
definition DEFAULT_COUNTRY_CODE :: string where "DEFAULT_COUNTRY_CODE = ''US''"

definition default_settings :: settings where
  "default_settings = \<lparr>configuredSubnet = DEFAULT_SUBNET, tecuEnabled = True, nmeaSendEnabled = True,
     aogHeartbeatEnabled = True, vtEnabled = True, tcVersion = DEFAULT_TC_VERSION,
     languageCode = DEFAULT_LANGUAGE_CODE, countryCode = DEFAULT_COUNTRY_CODE\<rparr>"

text \<open>
  The JSON library over documents \<open>'j\<close> and file contents \<open>'f\<close>: \<open>json_find\<close> is \<open>contains\<close> with
  \<open>operator[]\<close>, the \<open>as_\<close> functions are \<open>get<T>()\<close> with \<open>None\<close> for the thrown type error,
  \<open>json_dump\<close> is \<open>None\<close> when \<open>dump\<close> throws.
\<close>

record ('j, 'f) json_lib =
  json_parse :: "'f \<Rightarrow> 'j option"
  json_dump :: "'j \<Rightarrow> 'f option"
  json_find :: "'j \<Rightarrow> string \<Rightarrow> 'j option"
  as_int3 :: "'j \<Rightarrow> int list option"
  as_bool :: "'j \<Rightarrow> bool option"
  as_int :: "'j \<Rightarrow> int option"
  as_string :: "'j \<Rightarrow> string option"
  json_object :: "(string \<times> 'j) list \<Rightarrow> 'j"
  of_int_list :: "int list \<Rightarrow> 'j"
  of_bool_json :: "bool \<Rightarrow> 'j"
  of_int_json :: "int \<Rightarrow> 'j"
  of_string_json :: "string \<Rightarrow> 'j"

record ('j, 'f) settings_env =
  set_os :: os_env
  set_json :: "('j, 'f) json_lib"
  empty_file :: 'f
  write_ok :: bool
  rename_ok :: bool
  remove_ok :: bool

type_synonym 'f fs = "string \<rightharpoonup> 'f"

section \<open>Loading\<close>

definition loadBoolean :: "('j, 'f) json_lib \<Rightarrow> 'j \<Rightarrow> string \<Rightarrow> bool \<Rightarrow> bool" where
  "loadBoolean lib data key defaultValue =
     (case json_find lib data key of
        None \<Rightarrow> defaultValue
      | Some v \<Rightarrow> (case as_bool lib v of None \<Rightarrow> defaultValue | Some b \<Rightarrow> b))"

definition load_subnet :: "('j, 'f) json_lib \<Rightarrow> 'j \<Rightarrow> u8 list" where
  "load_subnet lib data =
     (case json_find lib data ''subnet'' of
        None \<Rightarrow> DEFAULT_SUBNET
      | Some v \<Rightarrow> (case as_int3 lib v of None \<Rightarrow> DEFAULT_SUBNET | Some ints \<Rightarrow> map of_int ints))"

definition load_tc_version :: "('j, 'f) json_lib \<Rightarrow> 'j \<Rightarrow> u8" where
  "load_tc_version lib data =
     (case json_find lib data ''tcVersion'' of
        None \<Rightarrow> DEFAULT_TC_VERSION
      | Some v \<Rightarrow>
          (case as_int lib v of
             None \<Rightarrow> DEFAULT_TC_VERSION
           | Some version \<Rightarrow> if version \<ge> 0 \<and> version \<le> 4 then of_int version else DEFAULT_TC_VERSION))"

definition load_string :: "('j, 'f) json_lib \<Rightarrow> 'j \<Rightarrow> string \<Rightarrow> string \<Rightarrow> string" where
  "load_string lib data key defaultValue =
     (case json_find lib data key of
        None \<Rightarrow> defaultValue
      | Some v \<Rightarrow> (case as_string lib v of None \<Rightarrow> defaultValue | Some str \<Rightarrow> str))"

definition settings_from :: "('j, 'f) json_lib \<Rightarrow> 'j \<Rightarrow> settings" where
  "settings_from lib data =
     \<lparr>configuredSubnet = load_subnet lib data,
      tecuEnabled = loadBoolean lib data ''tecuEnabled'' True,
      nmeaSendEnabled = loadBoolean lib data ''nmeaSendEnabled'' True,
      aogHeartbeatEnabled = loadBoolean lib data ''aogHeartbeatEnabled'' True,
      vtEnabled = loadBoolean lib data ''vtEnabled'' True,
      tcVersion = load_tc_version lib data,
      languageCode = load_string lib data ''languageCode'' DEFAULT_LANGUAGE_CODE,
      countryCode = load_string lib data ''countryCode'' DEFAULT_COUNTRY_CODE\<rparr>"

definition load_settings :: "('j, 'f) settings_env \<Rightarrow> 'f fs \<Rightarrow> settings \<Rightarrow> bool option \<times> settings" where
  "load_settings env files st =
     (case get_filename_path (set_os env) ''settings.json'' of
        None \<Rightarrow> (None, st)
      | Some path \<Rightarrow>
          (case files path of
             None \<Rightarrow> (Some False, st)
           | Some content \<Rightarrow>
               (case json_parse (set_json env) content of
                  None \<Rightarrow> (None, st)
                | Some data \<Rightarrow> (Some True, settings_from (set_json env) data))))"

section \<open>Saving\<close>

definition settings_document :: "('j, 'f) json_lib \<Rightarrow> settings \<Rightarrow> 'j" where
  "settings_document lib st = json_object lib
     [(''subnet'', of_int_list lib (map uint (configuredSubnet st))),
      (''tecuEnabled'', of_bool_json lib (tecuEnabled st)),
      (''nmeaSendEnabled'', of_bool_json lib (nmeaSendEnabled st)),
      (''aogHeartbeatEnabled'', of_bool_json lib (aogHeartbeatEnabled st)),
      (''vtEnabled'', of_bool_json lib (vtEnabled st)),
      (''tcVersion'', of_int_json lib (uint (tcVersion st))),
      (''languageCode'', of_string_json lib (languageCode st)),
      (''countryCode'', of_string_json lib (countryCode st))]"

definition temporary_path :: "string \<Rightarrow> string" where
  "temporary_path path = path @ ''.tmp''"

text \<open>The file is opened and truncated before \<open>dump\<close> runs; a failed step removes it again.\<close>

definition save_settings :: "('j, 'f) settings_env \<Rightarrow> settings \<Rightarrow> 'f fs \<Rightarrow> bool option \<times> 'f fs" where
  "save_settings env st files =
     (case get_filename_path (set_os env) ''settings.json'' of
        None \<Rightarrow> (None, files)
      | Some settingsPath \<Rightarrow>
          (let temporaryPath = temporary_path settingsPath;
               cleanup = (\<lambda>files'. if remove_ok env then files'(temporaryPath := None) else files')
           in if \<not> os_can_write (set_os env) temporaryPath then (Some False, files)
              else case json_dump (set_json env) (settings_document (set_json env) st) of
                None \<Rightarrow> (None, files(temporaryPath \<mapsto> empty_file env))
              | Some content \<Rightarrow>
                  if \<not> write_ok env then (Some False, cleanup (files(temporaryPath \<mapsto> empty_file env)))
                  else if \<not> rename_ok env then (Some False, cleanup (files(temporaryPath \<mapsto> content)))
                  else (Some True, files(settingsPath \<mapsto> content, temporaryPath := None))))"

section \<open>Setters\<close>

text \<open>The result of a setter: its answer (\<open>None\<close> is an exception), the values and the files.\<close>

type_synonym 'f setter_result = "bool option \<times> settings \<times> 'f fs"

definition save_if :: "('j, 'f) settings_env \<Rightarrow> bool \<Rightarrow> settings \<Rightarrow> 'f fs \<Rightarrow> 'f setter_result" where
  "save_if env save st files =
     (if save then (case save_settings env st files of (r, files') \<Rightarrow> (r, st, files')) else (Some True, st, files))"

definition set_boolean :: "('j, 'f) settings_env \<Rightarrow> (settings \<Rightarrow> bool) \<Rightarrow> (bool \<Rightarrow> settings \<Rightarrow> settings) \<Rightarrow>
    bool \<Rightarrow> bool \<Rightarrow> settings \<Rightarrow> 'f fs \<Rightarrow> 'f setter_result" where
  "set_boolean env get put enabled save st files =
     (let previousValue = get st; st' = put enabled st
      in if \<not> save then (Some True, st', files)
         else case save_settings env st' files of
           (None, files') \<Rightarrow> (None, st', files')
         | (Some True, files') \<Rightarrow> (Some True, st', files')
         | (Some False, files') \<Rightarrow> (Some False, put previousValue st', files'))"

definition set_tecu_enabled :: "('j, 'f) settings_env \<Rightarrow> bool \<Rightarrow> bool \<Rightarrow> settings \<Rightarrow> 'f fs \<Rightarrow> 'f setter_result" where
  "set_tecu_enabled env = set_boolean env tecuEnabled (\<lambda>b. tecuEnabled_update (\<lambda>_. b))"

definition set_nmea_send_enabled :: "('j, 'f) settings_env \<Rightarrow> bool \<Rightarrow> bool \<Rightarrow> settings \<Rightarrow> 'f fs \<Rightarrow> 'f setter_result" where
  "set_nmea_send_enabled env = set_boolean env nmeaSendEnabled (\<lambda>b. nmeaSendEnabled_update (\<lambda>_. b))"

definition set_aog_heartbeat_enabled :: "('j, 'f) settings_env \<Rightarrow> bool \<Rightarrow> bool \<Rightarrow> settings \<Rightarrow> 'f fs \<Rightarrow> 'f setter_result" where
  "set_aog_heartbeat_enabled env = set_boolean env aogHeartbeatEnabled (\<lambda>b. aogHeartbeatEnabled_update (\<lambda>_. b))"

definition set_vt_enabled :: "('j, 'f) settings_env \<Rightarrow> bool \<Rightarrow> bool \<Rightarrow> settings \<Rightarrow> 'f fs \<Rightarrow> 'f setter_result" where
  "set_vt_enabled env = set_boolean env vtEnabled (\<lambda>b. vtEnabled_update (\<lambda>_. b))"

definition set_subnet :: "('j, 'f) settings_env \<Rightarrow> u8 list \<Rightarrow> bool \<Rightarrow> settings \<Rightarrow> 'f fs \<Rightarrow> 'f setter_result" where
  "set_subnet env subnet save st files = save_if env save (st\<lparr>configuredSubnet := subnet\<rparr>) files"

definition set_tc_version :: "('j, 'f) settings_env \<Rightarrow> u8 \<Rightarrow> bool \<Rightarrow> settings \<Rightarrow> 'f fs \<Rightarrow> 'f setter_result" where
  "set_tc_version env version save st files =
     save_if env save (st\<lparr>tcVersion := (if version > 4 then DEFAULT_TC_VERSION else version)\<rparr>) files"

definition set_language_code :: "('j, 'f) settings_env \<Rightarrow> string \<Rightarrow> bool \<Rightarrow> settings \<Rightarrow> 'f fs \<Rightarrow> 'f setter_result" where
  "set_language_code env code save st files = save_if env save (st\<lparr>languageCode := code\<rparr>) files"

definition set_country_code :: "('j, 'f) settings_env \<Rightarrow> string \<Rightarrow> bool \<Rightarrow> settings \<Rightarrow> 'f fs \<Rightarrow> 'f setter_result" where
  "set_country_code env code save st files = save_if env save (st\<lparr>countryCode := code\<rparr>) files"

definition dotted :: "u8 list \<Rightarrow> string \<Rightarrow> string" where
  "dotted subnet tail = to_string (unat (subnet ! 0)) @ ''.'' @ to_string (unat (subnet ! 1)) @ ''.''
     @ to_string (unat (subnet ! 2)) @ tail"

definition get_subnet_string :: "settings \<Rightarrow> string" where
  "get_subnet_string st = dotted (configuredSubnet st) ''.0''"

section \<open>Invariant\<close>

definition settings_wf :: "settings \<Rightarrow> bool" where
  "settings_wf st \<longleftrightarrow> length (configuredSubnet st) = 3 \<and> tcVersion st \<le> 4"

text \<open>What the sources rely on of the JSON library: documents survive a dump, members are found by name.\<close>

definition json_lib_ok :: "('j, 'f) json_lib \<Rightarrow> bool" where
  "json_lib_ok lib \<longleftrightarrow>
     (\<forall>d f. json_dump lib d = Some f \<longrightarrow> json_parse lib f = Some d) \<and>
     (\<forall>kvs k. json_find lib (json_object lib kvs) k = map_of kvs k) \<and>
     (\<forall>xs. length xs = 3 \<longrightarrow> as_int3 lib (of_int_list lib xs) = Some xs) \<and>
     (\<forall>v xs. as_int3 lib v = Some xs \<longrightarrow> length xs = 3) \<and>
     (\<forall>b. as_bool lib (of_bool_json lib b) = Some b) \<and>
     (\<forall>i. as_int lib (of_int_json lib i) = Some i) \<and>
     (\<forall>str. as_string lib (of_string_json lib str) = Some str)"

lemma settings_wf_default [tc_wf]: "settings_wf default_settings"
  by (simp add: settings_wf_def default_settings_def DEFAULT_SUBNET_def DEFAULT_TC_VERSION_def)

lemma load_tc_version_le: "load_tc_version lib data \<le> 4"
proof -
  have "(of_int i :: u8) \<le> 4" if "0 \<le> i" "i \<le> 4" for i :: int
    using that by (simp add: word_le_def uint_word_of_int)
  then show ?thesis
    by (auto simp: load_tc_version_def DEFAULT_TC_VERSION_def split: option.split)
qed

lemma settings_wf_from [tc_wf]: "json_lib_ok lib \<Longrightarrow> settings_wf (settings_from lib data)"
  by (auto simp: settings_wf_def settings_from_def load_tc_version_le load_subnet_def DEFAULT_SUBNET_def json_lib_ok_def
      split: option.split)

lemma settings_from_document:
  assumes "json_lib_ok lib" "settings_wf st"
  shows "settings_from lib (settings_document lib st) = st"
proof -
  have "uint (tcVersion st) \<le> 4" using assms(2) by (simp add: settings_wf_def word_le_def)
  moreover have "map (of_int :: int \<Rightarrow> u8) (map uint (configuredSubnet st)) = configuredSubnet st"
    by (simp add: comp_def)
  ultimately show ?thesis
    using assms by (simp add: settings_from_def settings_document_def load_subnet_def load_tc_version_def
        load_string_def loadBoolean_def json_lib_ok_def settings_wf_def)
qed

section \<open>Saving replaces the file as a whole\<close>

lemma temporary_path_neq [simp]: "temporary_path p \<noteq> p" "p \<noteq> temporary_path p"
  by (auto simp: temporary_path_def dest: arg_cong [where f = length])

lemma save_settings_True:
  "save_settings env st files = (Some True, files') \<Longrightarrow>
     \<exists>path content. get_filename_path (set_os env) ''settings.json'' = Some path \<and>
       json_dump (set_json env) (settings_document (set_json env) st) = Some content \<and>
       files' = files(path \<mapsto> content, temporary_path path := None)"
  by (auto simp: save_settings_def Let_def split: option.splits if_splits)

lemma save_settings_not_True:
  assumes "save_settings env st files = (r, files')" "r \<noteq> Some True"
    "get_filename_path (set_os env) ''settings.json'' = Some path" "p \<noteq> temporary_path path"
  shows "files' p = files p"
  using assms by (auto simp: save_settings_def Let_def split: option.splits if_splits)

lemma load_after_save:
  assumes "json_lib_ok (set_json env)" "settings_wf st" "save_settings env st files = (Some True, files')"
  shows "load_settings env files' other = (Some True, st)"
proof -
  obtain path content where path: "get_filename_path (set_os env) ''settings.json'' = Some path"
    "json_dump (set_json env) (settings_document (set_json env) st) = Some content"
    "files' = files(path \<mapsto> content, temporary_path path := None)"
    using save_settings_True [OF assms(3)] by blast
  then have "json_parse (set_json env) content = Some (settings_document (set_json env) st)"
    using assms(1) by (simp add: json_lib_ok_def)
  with path assms(1,2) show ?thesis
    by (simp add: load_settings_def settings_from_document)
qed

section \<open>Boolean settings\<close>

text \<open>
  What \<open>set_boolean\<close> needs of the member it is given by reference: writing it is read back, writing
  the old value undoes a write, and the value stays well-formed. The four switches satisfy it.
\<close>

locale boolean_setting =
  fixes get :: "settings \<Rightarrow> bool" and put :: "bool \<Rightarrow> settings \<Rightarrow> settings"
  assumes get_put: "get (put b st) = b"
    and put_put: "put a (put b st) = put a st"
    and put_get: "put (get st) st = st"
    and put_wf: "settings_wf (put b st) = settings_wf st"
begin

lemma set_True:
  "set_boolean env get put enabled save st files = (Some True, st', files') \<Longrightarrow> st' = put enabled st \<and> get st' = enabled"
  by (auto simp: set_boolean_def Let_def get_put split: prod.splits option.splits bool.splits if_splits)

lemma set_False:
  "set_boolean env get put enabled save st files = (Some False, st', files') \<Longrightarrow> st' = st"
  by (auto simp: set_boolean_def Let_def put_put put_get split: prod.splits option.splits bool.splits if_splits)

lemma set_wf:
  "set_boolean env get put enabled save st files = (r, st', files') \<Longrightarrow> settings_wf st \<Longrightarrow> settings_wf st'"
  by (auto simp: set_boolean_def Let_def put_wf split: prod.splits option.splits bool.splits if_splits)

text \<open>A switch that was saved is what the next start loads; one that was refused changed nothing.\<close>

lemma set_saved:
  assumes "json_lib_ok (set_json env)" "settings_wf st"
    "set_boolean env get put enabled True st files = (Some True, st', files')"
  shows "load_settings env files' other = (Some True, put enabled st)"
proof -
  have "save_settings env (put enabled st) files = (Some True, files')"
    using assms(3) by (auto simp: set_boolean_def Let_def split: prod.splits option.splits bool.splits)
  then show ?thesis
    using load_after_save assms(1,2) put_wf by blast
qed

lemma set_refused:
  assumes "set_boolean env get put enabled save st files = (Some False, st', files')"
    "get_filename_path (set_os env) ''settings.json'' = Some path"
  shows "files' path = files path"
proof -
  have "save_settings env (put enabled st) files = (Some False, files')"
    using assms(1) by (auto simp: set_boolean_def Let_def split: prod.splits option.splits bool.splits if_splits)
  then show ?thesis
    by (rule save_settings_not_True) (use assms(2) in auto)
qed

end

interpretation tecu_setting: boolean_setting tecuEnabled "\<lambda>b. tecuEnabled_update (\<lambda>_. b)"
  by unfold_locales (simp_all add: settings_wf_def)

interpretation nmea_setting: boolean_setting nmeaSendEnabled "\<lambda>b. nmeaSendEnabled_update (\<lambda>_. b)"
  by unfold_locales (simp_all add: settings_wf_def)

interpretation heartbeat_setting: boolean_setting aogHeartbeatEnabled "\<lambda>b. aogHeartbeatEnabled_update (\<lambda>_. b)"
  by unfold_locales (simp_all add: settings_wf_def)

interpretation vt_setting: boolean_setting vtEnabled "\<lambda>b. vtEnabled_update (\<lambda>_. b)"
  by unfold_locales (simp_all add: settings_wf_def)

section \<open>The other setters\<close>

lemma save_if_frame: "save_if env save st files = (r, st', files') \<Longrightarrow> st' = st"
  by (auto simp: save_if_def split: prod.splits if_splits)

lemma settings_wf_setters [tc_wf]:
  "set_tc_version env v save st files = (r, st', files') \<Longrightarrow> settings_wf st \<Longrightarrow> settings_wf st'"
  "set_language_code env code save st files = (r, st', files') \<Longrightarrow> settings_wf st \<Longrightarrow> settings_wf st'"
  "set_country_code env code save st files = (r, st', files') \<Longrightarrow> settings_wf st \<Longrightarrow> settings_wf st'"
  "set_subnet env subnet save st files = (r, st', files') \<Longrightarrow> settings_wf st \<Longrightarrow> length subnet = 3 \<Longrightarrow> settings_wf st'"
  by (auto simp: set_tc_version_def set_language_code_def set_country_code_def set_subnet_def settings_wf_def
      DEFAULT_TC_VERSION_def dest!: save_if_frame)

lemma saved_setter:
  assumes "json_lib_ok (set_json env)" "settings_wf st'" "save_if env True st' files = (Some True, st'', files')"
  shows "load_settings env files' other = (Some True, st')"
  using assms load_after_save by (auto simp: save_if_def split: prod.splits)

section \<open>A concrete JSON library\<close>

text \<open>An instance that satisfies the contract, used to run the model on concrete inputs.\<close>

datatype jval = JInts "int list" | JBool bool | JInt int | JString string | JObject "(string \<times> jval) list"

definition sample_lib :: "(jval, jval) json_lib" where
  "sample_lib = \<lparr>json_parse = Some, json_dump = Some,
     json_find = (\<lambda>d k. case d of JObject kvs \<Rightarrow> map_of kvs k | _ \<Rightarrow> None),
     as_int3 = (\<lambda>d. case d of JInts xs \<Rightarrow> if length xs = 3 then Some xs else None | _ \<Rightarrow> None),
     as_bool = (\<lambda>d. case d of JBool b \<Rightarrow> Some b | _ \<Rightarrow> None),
     as_int = (\<lambda>d. case d of JInt i \<Rightarrow> Some i | _ \<Rightarrow> None),
     as_string = (\<lambda>d. case d of JString str \<Rightarrow> Some str | _ \<Rightarrow> None),
     json_object = JObject, of_int_list = JInts, of_bool_json = JBool, of_int_json = JInt, of_string_json = JString\<rparr>"

definition sample_env :: "(jval, jval) settings_env" where
  "sample_env = \<lparr>set_os = sample_os, set_json = sample_lib, empty_file = JObject [], write_ok = True,
     rename_ok = True, remove_ok = True\<rparr>"

lemma sample_lib_ok: "json_lib_ok sample_lib"
  by (auto simp: json_lib_ok_def sample_lib_def split: jval.splits if_splits)

section \<open>Properties\<close>

text \<open>
  C29 Settings survive a restart: whatever was in memory and on disk before, loading after a successful
  save restores every value that was saved.
\<close>

theorem settings_roundtrip:
  assumes "json_lib_ok (set_json env)" "settings_wf st" "save_settings env st files = (Some True, files')"
  shows "load_settings env files' other = (Some True, st)"
  using load_after_save [OF assms] .

theorem settings_roundtrip_witness:
  "load_settings sample_env (snd (save_settings sample_env (default_settings\<lparr>tcVersion := 4\<rparr>) Map.empty)) default_settings =
     (Some True, default_settings\<lparr>tcVersion := 4\<rparr>)"
proof -
  have "json_lib_ok (set_json sample_env)" by (simp add: sample_env_def sample_lib_ok)
  moreover have "settings_wf (default_settings\<lparr>tcVersion := 4\<rparr>)"
    by (simp add: settings_wf_def default_settings_def DEFAULT_SUBNET_def)
  moreover have "fst (save_settings sample_env (default_settings\<lparr>tcVersion := 4\<rparr>) Map.empty) = Some True"
    by code_simp
  ultimately show ?thesis
    using settings_roundtrip [of sample_env "default_settings\<lparr>tcVersion := 4\<rparr>" Map.empty _ default_settings]
    by (metis prod.collapse)
qed

text \<open>
  C33 Saving is atomic for the settings file: whatever step fails, and also when the call throws,
  \<open>settings.json\<close> and every other file except the temporary one are exactly as before; when it
  succeeds, the file is the whole new document and the temporary file is gone.
\<close>

theorem save_atomic:
  assumes "get_filename_path (set_os env) ''settings.json'' = Some path" "save_settings env st files = (r, files')"
  shows "(r = Some True \<longrightarrow> files' path = json_dump (set_json env) (settings_document (set_json env) st) \<and>
       files' path \<noteq> None \<and> files' (temporary_path path) = None) \<and>
     (r \<noteq> Some True \<longrightarrow> (\<forall>p. p \<noteq> temporary_path path \<longrightarrow> files' p = files p))"
  using assms save_settings_True [of env st files files'] save_settings_not_True [OF assms(2) _ assms(1)]
  by auto

theorem save_atomic_witness:
  "snd (save_settings (sample_env\<lparr>rename_ok := False\<rparr>) default_settings [''/c/AOG-TaskController/settings.json'' \<mapsto> JBool True])
     ''/c/AOG-TaskController/settings.json'' = Some (JBool True)"
proof -
  let ?env = "sample_env\<lparr>rename_ok := False\<rparr>" and ?p = "''/c/AOG-TaskController/settings.json''"
  have path: "get_filename_path (set_os ?env) ''settings.json'' = Some ?p" by code_simp
  have r: "fst (save_settings ?env default_settings [?p \<mapsto> JBool True]) \<noteq> Some True" by code_simp
  show ?thesis
    using save_atomic [OF path prod.collapse [symmetric], of default_settings "[?p \<mapsto> JBool True]"] r by simp
qed

text \<open>
  A switch of the configuration (here the tractor ECU; the other three are set by the same code) is
  all or nothing as long as its save does not throw: when the setter answers true after saving, the next
  start loads the new value and everything else as it was; when it answers false, neither the values in
  memory nor the file changed.
\<close>

theorem switch_all_or_nothing:
  assumes "json_lib_ok (set_json env)" "settings_wf st" "get_filename_path (set_os env) ''settings.json'' = Some path"
    "set_tecu_enabled env enabled True st files = (r, st', files')"
  shows "(r = Some True \<longrightarrow> st' = st\<lparr>tecuEnabled := enabled\<rparr> \<and> load_settings env files' other = (Some True, st')) \<and>
     (r = Some False \<longrightarrow> st' = st \<and> files' path = files path)"
  using assms tecu_setting.set_True tecu_setting.set_False tecu_setting.set_saved tecu_setting.set_refused
  unfolding set_tecu_enabled_def by metis

theorem switch_all_or_nothing_witness:
  "fst (set_tecu_enabled (sample_env\<lparr>write_ok := False\<rparr>) False True default_settings Map.empty) = Some False \<and>
   fst (snd (set_tecu_enabled (sample_env\<lparr>write_ok := False\<rparr>) False True default_settings Map.empty)) = default_settings"
proof -
  let ?env = "sample_env\<lparr>write_ok := False\<rparr>"
  have r: "fst (set_tecu_enabled ?env False True default_settings Map.empty) = Some False" by code_simp
  have lib: "json_lib_ok (set_json ?env)" by (simp add: sample_env_def sample_lib_ok)
  have path: "get_filename_path (set_os ?env) ''settings.json'' = Some ''/c/AOG-TaskController/settings.json''" by code_simp
  obtain st' files' where "set_tecu_enabled ?env False True default_settings Map.empty = (Some False, st', files')"
    using r by (metis prod.collapse)
  then show ?thesis
    using switch_all_or_nothing [OF lib settings_wf_default path, of False Map.empty] by simp
qed

end
