(* ===== verification/Udp_Frame.thy ===== *)
theory Udp_Frame
  imports Settings
begin

text \<open>
  The framing of \<open>src/src/udp_connections.cpp\<close>: \<open>calculate_crc\<close>, \<open>send\<close> and the two receive loops
  \<open>handle_incoming_packets\<close> and \<open>handle_address_detection\<close>. Both loops keep a static buffer of 512
  bytes and scan it with an 8-bit index that is set to zero once per call and not per frame; a loop
  that does not end is the value \<open>None\<close>. The operands of \<open>|\<close> in the start word are read left to
  right.
\<close>

section \<open>Checksum and sending\<close>

definition PACKET_START :: u16 where "PACKET_START = 0x8081"
definition MAX_PACKET_SIZE :: nat where "MAX_PACKET_SIZE = 512"

text \<open>\<open>for (uint8_t i = 0; i < data.size(); i++)\<close>: the counter wraps at 256.\<close>

partial_function (option) crc_loop :: "bytes \<Rightarrow> u8 \<Rightarrow> nat \<Rightarrow> nat option" where
  "crc_loop data i result =
     (if unat i < length data then crc_loop data (i + 1) (result + unat (data ! unat i)) else Some result)"

definition calculate_crc :: "bytes \<Rightarrow> u8 option" where
  "calculate_crc data = map_option (\<lambda>result. of_nat result AND 0xFF) (crc_loop data 0 0)"

text \<open>The bytes of a frame as \<open>send\<close> lays them out; a span of more than 506 bytes does not fit.\<close>

definition frame_bytes :: "u8 \<Rightarrow> u8 \<Rightarrow> bytes \<Rightarrow> bytes option" where
  "frame_bytes src pgn data =
     (let header = [ucast (drop_bit 8 PACKET_START), ucast (PACKET_START AND 0xFF), src, pgn, of_nat (length data)]
      in map_option (\<lambda>crc. header @ data @ [crc]) (calculate_crc (drop 2 (header @ data))))"

record datagram =
  dg_payload :: bytes
  dg_address :: string
  dg_port :: nat

text \<open>\<open>send\<close>: \<open>None\<close> when the checksum loop does not end; the socket may refuse the datagram.\<close>

definition udp_send :: "settings \<Rightarrow> bool \<Rightarrow> u8 \<Rightarrow> u8 \<Rightarrow> bytes \<Rightarrow> (bool \<times> datagram list) option" where
  "udp_send st socket_ok src pgn data =
     (case frame_bytes src pgn data of
        None \<Rightarrow> None
      | Some frame \<Rightarrow>
          Some (if socket_ok
                then (True, [\<lparr>dg_payload = frame, dg_address = dotted (configuredSubnet st) ''.255'', dg_port = 9999\<rparr>])
                else (False, [])))"

section \<open>The receive loop\<close>

record rx_state =
  rxBuffer :: bytes
  rxIndex :: nat

definition rx_initial :: rx_state where
  "rx_initial = \<lparr>rxBuffer = replicate MAX_PACKET_SIZE 0, rxIndex = 0\<rparr>"

text \<open>\<open>rxBuffer[index]\<close> with the 8-bit index.\<close>

definition at_index :: "bytes \<Rightarrow> u8 \<Rightarrow> u8" where
  "at_index buf index = buf ! unat index"

definition start_word :: "u8 \<Rightarrow> u8 \<Rightarrow> u16" where
  "start_word hi lo = push_bit 8 (ucast hi) OR ucast lo"

text \<open>\<open>memmove(rxBuffer, rxBuffer + index, rxIndex - index)\<close>.\<close>

definition shift_buffer :: "bytes \<Rightarrow> nat \<Rightarrow> nat \<Rightarrow> bytes" where
  "shift_buffer buf index rx = take (rx - index) (drop index buf) @ drop (rx - index) buf"

text \<open>
  One pass through the body of the loop. \<open>handle\<close> is what the loop does with a frame whose header
  starts at the given index: the events it causes and the index after it.
\<close>

definition frame_step :: "(bytes \<Rightarrow> u8 \<Rightarrow> 'e list \<times> u8) \<Rightarrow> bytes \<Rightarrow> nat \<Rightarrow> u8 \<Rightarrow> 'e list \<times> bytes \<times> nat \<times> u8" where
  "frame_step handle buf rx index =
     (let start = start_word (at_index buf index) (at_index buf (index + 1));
          (events, index', rx') =
            (if start = PACKET_START then (case handle buf (index + 2) of (ev, i) \<Rightarrow> (ev, i, rx))
             else ([], index + 2, 0))
      in if unat index' < rx' then (events, shift_buffer buf (unat index') rx', rx' - unat index', index')
         else (events, buf, 0, index'))"

partial_function (option) frame_loop :: "(bytes \<Rightarrow> u8 \<Rightarrow> 'e list \<times> u8) \<Rightarrow> bytes \<Rightarrow> nat \<Rightarrow> u8 \<Rightarrow> ('e list \<times> rx_state) option" where
  "frame_loop handle buf rx index =
     (if rx \<ge> 8
      then (case frame_step handle buf rx index of
              (events, buf', rx', index') \<Rightarrow>
                Option.bind (frame_loop handle buf' rx' index') (\<lambda>(rest, st). Some (events @ rest, st)))
      else Some ([], \<lparr>rxBuffer = buf, rxIndex = rx\<rparr>))"

text \<open>The answer of \<open>receive_from\<close> on the non-blocking socket, and what both handlers do with it.\<close>

datatype rx_result = WouldBlock | RxError | Received bytes

definition store_received :: "rx_state \<Rightarrow> bytes \<Rightarrow> bytes" where
  "store_received st data = take (rxIndex st) (rxBuffer st) @ data @ drop (rxIndex st + length data) (rxBuffer st)"

definition receive_frames :: "(bytes \<Rightarrow> u8 \<Rightarrow> 'e list \<times> u8) \<Rightarrow> rx_result \<Rightarrow> rx_state \<Rightarrow> ('e list \<times> rx_state) option" where
  "receive_frames handle r st =
     (case r of
        WouldBlock \<Rightarrow> Some ([], st)
      | RxError \<Rightarrow> Some ([], st)
      | Received data \<Rightarrow> frame_loop handle (store_received st data) (rxIndex st + length data) 0)"

section \<open>The two handlers\<close>

type_synonym packet = "u8 \<times> u8 \<times> bytes"

text \<open>A frame is handed to the packet callback when one is set. The checksum is read and not used.\<close>

definition deliver_packet :: "bool \<Rightarrow> bytes \<Rightarrow> u8 \<Rightarrow> packet list \<times> u8" where
  "deliver_packet has_callback buf index =
     (let src = at_index buf index; pgn = at_index buf (index + 1); len = at_index buf (index + 2);
          index3 = index + 3
      in (if has_callback then [(src, pgn, take (unat len) (drop (unat index3) buf))] else [],
          index3 + (len + 1)))"

definition handle_incoming_packets :: "bool \<Rightarrow> rx_result \<Rightarrow> rx_state \<Rightarrow> (packet list \<times> rx_state) option" where
  "handle_incoming_packets has_callback = receive_frames (deliver_packet has_callback)"

text \<open>
  A subnet announcement is recognised by a condition whose last two conjuncts advance the index:
  they leave it advanced when they fail.
\<close>

definition detect_subnet :: "bytes \<Rightarrow> u8 \<Rightarrow> u8 list list \<times> u8" where
  "detect_subnet buf index =
     (let src = at_index buf index; pgn = at_index buf (index + 1); len = at_index buf (index + 2);
          i = index + 3
      in if \<not> (src = 0x7F \<and> pgn = 0xC9 \<and> len = 5) then ([], i + (len + 1))
         else if at_index buf i \<noteq> 0xC9 then ([], (i + 1) + (len + 1))
         else if at_index buf (i + 1) \<noteq> 0xC9 then ([], (i + 2) + (len + 1))
         else ([[at_index buf (i + 2), at_index buf (i + 3), at_index buf (i + 4)]], (i + 5) + (len - 4)))"

section \<open>The address to bind to\<close>

text \<open>
  \<open>get_local_endpoint\<close>: on POSIX the interface list is searched first (\<open>None\<close> when \<open>getifaddrs\<close>
  fails; an entry is \<open>None\<close> when it has no IPv4 address), then the addresses the resolver gives
  (\<open>None\<close> when it throws), and the loopback address is the fallback.
\<close>

definition matches_subnet :: "u8 list \<Rightarrow> u8 list option \<Rightarrow> bool" where
  "matches_subnet subnet addr = (case addr of None \<Rightarrow> False | Some octets \<Rightarrow> take 3 octets = take 3 subnet)"

definition find_address :: "u8 list \<Rightarrow> u8 list option list option \<Rightarrow> u8 list option" where
  "find_address subnet answers =
     (case answers of
        None \<Rightarrow> None
      | Some addrs \<Rightarrow> (case find (matches_subnet subnet) addrs of None \<Rightarrow> None | Some addr \<Rightarrow> addr))"

definition loopback :: "u8 list" where "loopback = [127, 0, 0, 1]"

definition get_local_endpoint :: "platform \<Rightarrow> settings \<Rightarrow> u8 list option list option \<Rightarrow> u8 list option list option \<Rightarrow>
    u8 list \<times> nat" where
  "get_local_endpoint p st interfaces resolved =
     (case (if p = Windows then None else find_address (configuredSubnet st) interfaces) of
        Some addr \<Rightarrow> (addr, 8888)
      | None \<Rightarrow>
          (case find_address (configuredSubnet st) resolved of
             Some addr \<Rightarrow> (addr, 8888)
           | None \<Rightarrow> (loopback, 8888)))"

section \<open>The component\<close>

text \<open>
  The two sockets' receive states, the settings and the address the AgOpenGPS socket is bound to.
  An announcement sets and saves the subnet and binds the socket again; the model covers the runs in
  which neither the save nor the socket calls throw.
\<close>

record net_env =
  net_platform :: platform
  net_interfaces :: "u8 list option list option"
  net_resolved :: "u8 list option list option"

record 'f udp_state =
  packet_rx :: rx_state
  address_rx :: rx_state
  udp_settings :: settings
  udp_files :: "'f fs"
  bound_endpoint :: "u8 list \<times> nat"

definition apply_subnet :: "('j, 'f) settings_env \<Rightarrow> net_env \<Rightarrow> u8 list \<Rightarrow> 'f udp_state \<Rightarrow> 'f udp_state" where
  "apply_subnet env net subnet s =
     (case set_subnet env subnet True (udp_settings s) (udp_files s) of
        (_, st', files') \<Rightarrow>
          s\<lparr>udp_settings := st', udp_files := files',
            bound_endpoint := get_local_endpoint (net_platform net) st' (net_interfaces net) (net_resolved net)\<rparr>)"

definition handle_address_detection :: "('j, 'f) settings_env \<Rightarrow> net_env \<Rightarrow> rx_result \<Rightarrow> 'f udp_state \<Rightarrow> 'f udp_state option" where
  "handle_address_detection env net r s =
     map_option (\<lambda>(subnets, rx'). fold (apply_subnet env net) subnets (s\<lparr>address_rx := rx'\<rparr>))
       (receive_frames detect_subnet r (address_rx s))"

section \<open>The checksum\<close>

lemma crc_loop_sum:
  assumes "length data \<le> 255" "unat i \<le> length data"
  shows "crc_loop data i result = Some (result + sum_list (map unat (drop (unat i) data)))"
  using assms(2)
proof (induction "length data - unat i" arbitrary: i result)
  case 0
  then show ?case by (simp add: crc_loop.simps)
next
  case (Suc n)
  then have i: "unat i < length data" by simp
  then have "unat (i + 1) = Suc (unat i)"
    using assms(1) by (simp add: unat_word_ariths)
  moreover have "drop (unat i) data = data ! unat i # drop (Suc (unat i)) data"
    using i by (simp add: Cons_nth_drop_Suc)
  ultimately show ?case
    using Suc i by (subst crc_loop.simps) simp
qed

lemma crc_loop_returns: "crc_loop data i result = Some y \<Longrightarrow> length data \<le> 255"
proof (erule crc_loop.raw_induct [where P = "\<lambda>data i result y. length data \<le> 255", rotated])
  fix crc :: "bytes \<Rightarrow> u8 \<Rightarrow> nat \<Rightarrow> nat option" and data i result y
  assume "\<And>data i result y. crc data i result = Some y \<Longrightarrow> length data \<le> 255"
    "(if unat i < length data then crc data (i + 1) (result + unat (data ! unat i)) else Some result) = Some y"
  then show "length data \<le> 255"
    using u8_less_256 [of i] by (auto split: if_splits)
qed

lemma u8_and_255 [simp]: "(x :: u8) AND 0xFF = x"
proof -
  have "(0xFF :: u8) = mask 8" by (simp add: mask_eq_exp_minus_1)
  then have "x AND 0xFF = take_bit 8 x" by (simp only: take_bit_eq_mask)
  then show ?thesis by (simp add: take_bit_word_eq_self)
qed

lemma calculate_crc_eq:
  "calculate_crc data = (if length data \<le> 255 then Some (of_nat (sum_list (map unat data))) else None)"
proof -
  have "crc_loop data 0 0 = None" if "\<not> length data \<le> 255"
    using that crc_loop_returns by (cases "crc_loop data 0 0") auto
  then show ?thesis
    by (auto simp: calculate_crc_def crc_loop_sum)
qed

lemma packet_start_bytes:
  "ucast (drop_bit 8 PACKET_START) = (0x80 :: u8)" "ucast (PACKET_START AND 0xFF) = (0x81 :: u8)"
  "ucast PACKET_START = (0x81 :: u8)"
  by (simp_all add: PACKET_START_def)

lemma frame_bytes_eq:
  "frame_bytes src pgn data =
     (if length data \<le> 252
      then Some ([0x80, 0x81, src, pgn, of_nat (length data)] @ data @
             [src + pgn + of_nat (length data) + of_nat (sum_list (map unat data))])
      else None)"
  by (auto simp: frame_bytes_def Let_def calculate_crc_eq packet_start_bytes add.assoc)

section \<open>One pass of the loop\<close>

lemma start_word_halves:
  "ucast (drop_bit 8 (start_word hi lo)) = hi" "ucast (start_word hi lo) = lo"
  by (rule bit_word_eqI; auto simp: start_word_def bit_simps dest: bit_imp_le_length)+

lemma start_word_eq: "start_word hi lo = PACKET_START \<longleftrightarrow> hi = 0x80 \<and> lo = 0x81"
proof
  assume "start_word hi lo = PACKET_START"
  then show "hi = 0x80 \<and> lo = 0x81"
    using start_word_halves [of hi lo] packet_start_bytes by simp
qed (simp add: start_word_def PACKET_START_def)

lemma length_shift_buffer: "index \<le> rx \<Longrightarrow> rx \<le> length buf \<Longrightarrow> length (shift_buffer buf index rx) = length buf"
  by (simp add: shift_buffer_def)

definition rx_wf :: "rx_state \<Rightarrow> bool" where
  "rx_wf st \<longleftrightarrow> length (rxBuffer st) = 512 \<and> rxIndex st < 8"

lemma rx_wf_initial [tc_wf]: "rx_wf rx_initial"
  by (simp add: rx_wf_def rx_initial_def MAX_PACKET_SIZE_def)

lemma frame_loop_done [simp]: "frame_loop handle buf 0 index = Some ([], \<lparr>rxBuffer = buf, rxIndex = 0\<rparr>)"
  by (simp add: frame_loop.simps)

lemma length_store_received:
  "rxIndex st + length data \<le> length (rxBuffer st) \<Longrightarrow> length (store_received st data) = length (rxBuffer st)"
  by (simp add: store_received_def)

text \<open>Whatever the handler does, the buffer keeps its size and at most seven bytes wait.\<close>

lemma frame_step_length:
  assumes "frame_step handle buf rx index = (ev, buf', rx', index')" "rx \<le> length buf"
  shows "length buf' = length buf \<and> rx' \<le> rx"
  using assms by (auto simp: frame_step_def Let_def length_shift_buffer split: if_splits prod.splits)

lemma frame_loop_wf_raw:
  "frame_loop handle buf rx index = Some r \<Longrightarrow>
     length buf = 512 \<longrightarrow> rx \<le> 512 \<longrightarrow> rx_wf (snd r)"
proof (erule frame_loop.raw_induct
    [where P = "\<lambda>handle buf rx index r. length buf = 512 \<longrightarrow> rx \<le> 512 \<longrightarrow> rx_wf (snd r)", rotated])
  fix loop :: "(bytes \<Rightarrow> u8 \<Rightarrow> 'e list \<times> u8) \<Rightarrow> bytes \<Rightarrow> nat \<Rightarrow> u8 \<Rightarrow> ('e list \<times> rx_state) option"
    and handle buf rx index r
  assume IH: "\<And>handle buf rx index r. loop handle buf rx index = Some r \<Longrightarrow>
      length buf = 512 \<longrightarrow> rx \<le> 512 \<longrightarrow> rx_wf (snd r)"
    and run: "(if rx \<ge> 8
      then (case frame_step handle buf rx index of
              (events, buf', rx', index') \<Rightarrow>
                Option.bind (loop handle buf' rx' index') (\<lambda>(rest, st). Some (events @ rest, st)))
      else Some ([], \<lparr>rxBuffer = buf, rxIndex = rx\<rparr>)) = Some r"
  show "length buf = 512 \<longrightarrow> rx \<le> 512 \<longrightarrow> rx_wf (snd r)"
  proof (cases "rx \<ge> 8")
    case False
    with run show ?thesis by (auto simp: rx_wf_def)
  next
    case True
    obtain ev buf' rx' index' where step: "frame_step handle buf rx index = (ev, buf', rx', index')"
      by (metis prod_cases4)
    with run True obtain r' where "loop handle buf' rx' index' = Some r'" "snd r = snd r'"
      by (auto simp: bind_eq_Some_conv)
    with IH [of handle buf' rx' index' r'] frame_step_length [OF step] show ?thesis by auto
  qed
qed

lemma receive_frames_wf:
  assumes "receive_frames handle r st = Some (ev, st')" "rx_wf st"
    "\<And>data. r = Received data \<Longrightarrow> length data \<le> 512 - rxIndex st"
  shows "rx_wf st'"
proof (cases r)
  case (Received data)
  then have "length data \<le> 512 - rxIndex st" using assms(3) by simp
  then have "rxIndex st + length data \<le> 512" using assms(2) unfolding rx_wf_def by linarith
  then show ?thesis
    using assms Received frame_loop_wf_raw [of handle "store_received st data" "rxIndex st + length data" 0 "(ev, st')"]
    by (simp add: receive_frames_def length_store_received rx_wf_def)
qed (use assms in \<open>simp_all add: receive_frames_def\<close>)

section \<open>Frames that arrive one per datagram\<close>

text \<open>A frame at the start of the buffer with its payload in place.\<close>

definition holds_frame :: "bytes \<Rightarrow> u8 \<Rightarrow> u8 \<Rightarrow> bytes \<Rightarrow> bool" where
  "holds_frame buf src pgn data \<longleftrightarrow>
     (\<exists>rest. buf = [0x80, 0x81, src, pgn, of_nat (length data)] @ data @ rest)"

lemma at_index_frame:
  assumes "holds_frame buf src pgn data"
  shows "at_index buf 0 = 0x80" "at_index buf 1 = 0x81" "at_index buf 2 = src" "at_index buf 3 = pgn"
    "at_index buf 4 = of_nat (length data)"
  using assms by (auto simp: holds_frame_def at_index_def)

lemma deliver_frame:
  assumes "holds_frame buf src pgn data" "length data \<le> 255"
  shows "deliver_packet True buf 2 = ([(src, pgn, data)], of_nat (length data) + 6)"
proof -
  have "take (length data) (drop 5 buf) = data"
    using assms(1) by (auto simp: holds_frame_def)
  moreover have "unat (5 :: u8) = 5" by simp
  ultimately show ?thesis
    using assms unat_of_nat_u8 [of "length data"]
    by (simp add: deliver_packet_def Let_def at_index_frame [OF assms(1)] algebra_simps del: unsigned_numeral)
qed

lemma frame_step_deliver:
  assumes "holds_frame buf src pgn data" "length data \<le> 249"
  shows "frame_step (deliver_packet True) buf rx 0 =
     (if length data + 6 < rx
      then ([(src, pgn, data)], shift_buffer buf (length data + 6) rx, rx - (length data + 6), of_nat (length data) + 6)
      else ([(src, pgn, data)], buf, 0, of_nat (length data) + 6))"
proof -
  have "unat (of_nat (length data) + 6 :: u8) = length data + 6"
    using assms(2) unat_of_nat_u8 [of "length data + 6"] by simp
  then show ?thesis
    using assms by (simp add: frame_step_def start_word_eq at_index_frame deliver_frame)
qed

lemma frame_loop_single:
  assumes "holds_frame buf src pgn data" "2 \<le> length data" "length data \<le> 249"
  shows "frame_loop (deliver_packet True) buf (length data + 6) 0 =
           Some ([(src, pgn, data)], \<lparr>rxBuffer = buf, rxIndex = 0\<rparr>)"
  using assms by (subst frame_loop.simps) (simp add: frame_step_deliver)

lemma store_at_start:
  "rxIndex st = 0 \<Longrightarrow> store_received st data = data @ drop (length data) (rxBuffer st)"
  by (simp add: store_received_def)

lemma frame_bytes_holds:
  assumes "frame_bytes src pgn data = Some frame"
  shows "holds_frame (frame @ rest) src pgn data" "length frame = length data + 6" "length data \<le> 252"
  using assms by (auto simp: frame_bytes_eq holds_frame_def split: if_splits)

lemma receive_sent_frame:
  assumes "frame_bytes src pgn data = Some frame" "2 \<le> length data" "length data \<le> 249" "rxIndex st = 0"
  shows "handle_incoming_packets True (Received frame) st =
     Some ([(src, pgn, data)], \<lparr>rxBuffer = store_received st frame, rxIndex = 0\<rparr>)"
  using assms frame_bytes_holds [OF assms(1)]
  by (simp add: handle_incoming_packets_def receive_frames_def frame_loop_single store_at_start)

text \<open>A run of the handler over a sequence of datagrams, one call each.\<close>

fun receive_all :: "bytes list \<Rightarrow> rx_state \<Rightarrow> (packet list \<times> rx_state) option" where
  "receive_all [] st = Some ([], st)"
| "receive_all (d # ds) st =
     (case handle_incoming_packets True (Received d) st of
        None \<Rightarrow> None
      | Some (ps, st') \<Rightarrow> map_option (\<lambda>(qs, st''). (ps @ qs, st'')) (receive_all ds st'))"

lemma receive_all_sent:
  assumes "list_all2 (\<lambda>(src, pgn, data) frame. frame_bytes src pgn data = Some frame) packets frames"
    "\<And>src pgn data. (src, pgn, data) \<in> set packets \<Longrightarrow> 2 \<le> length data \<and> length data \<le> 249"
    "rxIndex st = 0"
  shows "\<exists>st'. receive_all frames st = Some (packets, st') \<and> rxIndex st' = 0"
  using assms
proof (induction packets arbitrary: frames st)
  case (Cons p packets)
  obtain src pgn data where p: "p = (src, pgn, data)" by (metis prod_cases3)
  from Cons.prems(1) p obtain f fs where fs: "frames = f # fs" "frame_bytes src pgn data = Some f"
    "list_all2 (\<lambda>(src, pgn, data) frame. frame_bytes src pgn data = Some frame) packets fs"
    by (auto simp: list_all2_Cons1)
  define st1 where "st1 = \<lparr>rxBuffer = store_received st f, rxIndex = 0\<rparr>"
  have "handle_incoming_packets True (Received f) st = Some ([p], st1)"
    using Cons.prems(2) [of src pgn data] Cons.prems(3) fs(2) p by (simp add: receive_sent_frame st1_def)
  moreover obtain st' where "receive_all fs st1 = Some (packets, st')" "rxIndex st' = 0"
    using Cons.IH [OF fs(3), of st1] Cons.prems(2) by (auto simp: st1_def)
  ultimately show ?case by (simp add: fs(1))
qed simp

section \<open>Bounds\<close>

lemma deliver_in_bounds:
  assumes "length buf = 512" "deliver_packet True buf index = ([(src, pgn, payload)], index')"
  shows "length payload = unat (at_index buf (index + 2))"
    and "unat (index + 3) + unat (at_index buf (index + 2)) < length buf"
proof -
  have "unat (index + 3) + unat (at_index buf (index + 2)) < 512"
    using u8_less_256 [of "index + 3"] u8_less_256 [of "at_index buf (index + 2)"] by linarith
  then show "length payload = unat (at_index buf (index + 2))"
    "unat (index + 3) + unat (at_index buf (index + 2)) < length buf"
    using assms by (auto simp: deliver_packet_def Let_def)
qed

section \<open>Frames the loop does not handle\<close>

lemma frame_250_hangs:
  assumes "rxIndex st = 0" "length (rxBuffer st) = 512" "3 \<le> length rest" "length rest \<le> 507"
  shows "handle_incoming_packets True (Received ([0x80, 0x81, src, pgn, 250] @ rest)) st = None"
proof -
  let ?data = "[0x80, 0x81, src, pgn, 250] @ rest"
  define buf where "buf = store_received st ?data"
  let ?loop = "frame_loop (deliver_packet True) buf (length ?data) 0"
  have idx: "at_index buf 0 = 0x80" "at_index buf 1 = 0x81" "at_index buf 4 = 250"
    using assms(1) by (simp_all add: buf_def store_received_def at_index_def)
  obtain p where "frame_step (deliver_packet True) buf (length ?data) 0 = ([p], shift_buffer buf 0 (length ?data), length ?data, 0)"
    by (simp add: frame_step_def start_word_eq idx deliver_packet_def Let_def)
  then have step: "frame_step (deliver_packet True) buf (length ?data) 0 = ([p], buf, length ?data, 0)"
    by (simp add: shift_buffer_def)
  have "?loop = Option.bind ?loop (\<lambda>(ps, st). Some ([p] @ ps, st))"
    by (subst frame_loop.simps) (use step assms(3) in simp)
  then have "?loop = None" by (cases ?loop) auto
  then show ?thesis
    using assms(1) by (simp add: handle_incoming_packets_def receive_frames_def buf_def)
qed

lemma short_frame_waits:
  assumes "frame_bytes src pgn [x] = Some frame" "rxIndex st = 0"
  shows "handle_incoming_packets True (Received frame) st =
           Some ([], \<lparr>rxBuffer = store_received st frame, rxIndex = 7\<rparr>)"
  using assms frame_bytes_holds(2) [OF assms(1)]
  by (simp add: handle_incoming_packets_def receive_frames_def frame_loop.simps)

lemma shift_two_frames:
  assumes "length frame = k" "length buf = 512" "k + length g \<le> 512" "take (k + length g) buf = frame @ g"
  shows "shift_buffer buf k (k + length g) = g @ drop (length g) buf"
proof -
  have "take (length g) (drop k buf) = drop k (take (k + length g) buf)" by (simp add: take_drop add.commute)
  then show ?thesis using assms by (simp add: shift_buffer_def)
qed

text \<open>The bytes where the scan resumes after a frame of seven bytes are not those of a frame start.\<close>

lemma frame_after_short_lost:
  assumes f: "frame_bytes src pgn [x] = Some frame" and g: "frame_bytes src' pgn' data = Some g"
    and size: "4 \<le> length data" and no_start: "\<not> (data ! 2 = 0x80 \<and> data ! 3 = 0x81)"
    and st: "rx_wf st" "rxIndex st = 0"
  shows "\<exists>st'. receive_all [frame, g] st = Some ([(src, pgn, [x])], st') \<and> rxIndex st' = 0"
proof -
  define st1 where "st1 = \<lparr>rxBuffer = store_received st frame, rxIndex = 7\<rparr>"
  have lens: "length frame = 7" "length g = length data + 6" "length data \<le> 252"
    using frame_bytes_holds(2) [OF f] frame_bytes_holds(2,3) [OF g] by simp_all
  define buf where "buf = store_received st1 g"
  have len: "length buf = 512"
    using st lens by (simp add: buf_def st1_def length_store_received rx_wf_def)
  have pre: "take (7 + length g) buf = frame @ g"
    using st lens by (simp add: buf_def st1_def store_received_def)
  have "buf = (frame @ g) @ drop (7 + length g) buf"
    using pre by (metis append_take_drop_id)
  then have holds: "holds_frame buf src pgn [x]"
    using frame_bytes_holds(1) [OF f, of "g @ drop (7 + length g) buf"] by simp
  define buf2 where "buf2 = shift_buffer buf 7 (7 + length g)"
  have buf2: "buf2 = g @ drop (length g) buf"
    unfolding buf2_def by (rule shift_two_frames) (use lens len pre in auto)
  have step1: "frame_step (deliver_packet True) buf (7 + length g) 0 = ([(src, pgn, [x])], buf2, length g, 7)"
    using frame_step_deliver [OF holds] lens size by (simp add: buf2_def)
  have "at_index buf2 7 = data ! 2" "at_index buf2 8 = data ! 3"
    using g size lens by (auto simp: buf2 at_index_def frame_bytes_eq nth_append split: if_splits)
  with no_start have step2: "frame_step (deliver_packet True) buf2 (length g) 7 = ([], buf2, 0, 9)"
    by (auto simp: frame_step_def start_word_eq)
  have "frame_loop (deliver_packet True) buf (7 + length g) 0 =
      Some ([(src, pgn, [x])], \<lparr>rxBuffer = buf2, rxIndex = 0\<rparr>)"
    using step1 step2 lens size by (simp add: frame_loop.simps [of _ buf] frame_loop.simps [of _ buf2])
  then have "handle_incoming_packets True (Received g) st1 = Some ([(src, pgn, [x])], \<lparr>rxBuffer = buf2, rxIndex = 0\<rparr>)"
    by (simp add: handle_incoming_packets_def receive_frames_def buf_def st1_def)
  then show ?thesis
    using short_frame_waits [OF f st(2)] by (simp add: st1_def)
qed

section \<open>Address detection\<close>

lemma detect_frame:
  assumes "holds_frame buf 0x7F 0xC9 [0xC9, 0xC9, a, b, c]"
  shows "detect_subnet buf 2 = ([[a, b, c]], 11)"
  using assms by (auto simp: holds_frame_def detect_subnet_def Let_def at_index_def)

lemma address_detection_applies:
  assumes "frame_bytes 0x7F 0xC9 [0xC9, 0xC9, a, b, c] = Some frame" "rxIndex (address_rx s) = 0"
  shows "handle_address_detection env net (Received frame) s =
           Some (apply_subnet env net [a, b, c]
             (s\<lparr>address_rx := \<lparr>rxBuffer = store_received (address_rx s) frame, rxIndex = 0\<rparr>\<rparr>))"
proof -
  define buf where "buf = store_received (address_rx s) frame"
  have holds: "holds_frame buf 0x7F 0xC9 [0xC9, 0xC9, a, b, c]" and len: "length frame = 11"
    using frame_bytes_holds [OF assms(1)] assms(2) by (simp_all add: buf_def store_at_start)
  have "frame_step detect_subnet buf 11 0 = ([[a, b, c]], buf, 0, 11)"
    using holds by (simp add: frame_step_def start_word_eq at_index_frame detect_frame)
  then have "frame_loop detect_subnet buf 11 0 = Some ([[a, b, c]], \<lparr>rxBuffer = buf, rxIndex = 0\<rparr>)"
    by (simp add: frame_loop.simps [of _ buf])
  then show ?thesis
    using assms(2) len by (simp add: handle_address_detection_def receive_frames_def buf_def)
qed

lemma apply_subnet_settings:
  "configuredSubnet (udp_settings (apply_subnet env net subnet s)) = subnet"
  "bound_endpoint (apply_subnet env net subnet s) =
     get_local_endpoint (net_platform net) (udp_settings (apply_subnet env net subnet s)) (net_interfaces net) (net_resolved net)"
  "address_rx (apply_subnet env net subnet s) = address_rx s"
  by (auto simp: apply_subnet_def set_subnet_def split: prod.split dest!: save_if_frame)

lemma find_address_Some:
  "find_address subnet answers = Some addr \<Longrightarrow>
     (\<exists>addrs. answers = Some addrs \<and> Some addr \<in> set addrs) \<and> take 3 addr = take 3 subnet"
  by (auto simp: find_address_def matches_subnet_def find_Some_iff split: option.splits) (metis nth_mem)

lemma find_address_None:
  "find_address subnet answers = None \<Longrightarrow> answers = Some addrs \<Longrightarrow> Some addr \<in> set addrs \<Longrightarrow> take 3 addr \<noteq> take 3 subnet"
  by (auto simp: find_address_def matches_subnet_def find_None_iff find_Some_iff split: option.splits)

section \<open>Properties\<close>

text \<open>
  C5 Framing is a faithful channel for one frame per datagram: frames that \<open>send\<close> builds from packets
  with 2 to 249 bytes of payload, received one after the other starting with an empty buffer, are
  delivered exactly once each, in order and with the same source, number and payload, and the buffer
  is empty again.
\<close>

theorem frames_delivered:
  assumes "list_all2 (\<lambda>(src, pgn, data) frame. frame_bytes src pgn data = Some frame) packets frames"
    "\<And>src pgn data. (src, pgn, data) \<in> set packets \<Longrightarrow> 2 \<le> length data \<and> length data \<le> 249"
    "rxIndex st = 0"
  shows "\<exists>st'. receive_all frames st = Some (packets, st') \<and> rxIndex st' = 0"
  using receive_all_sent [OF assms] .

theorem frames_delivered_witness:
  "\<exists>st'. receive_all [[0x80, 0x81, 0x7F, 0xF2, 2, 1, 2, 0x76], [0x80, 0x81, 0x80, 0xF0, 2, 0, 0, 0x72]] rx_initial =
     Some ([(0x7F, 0xF2, [1, 2]), (0x80, 0xF0, [0, 0])], st') \<and> rxIndex st' = 0"
  by (rule frames_delivered) (auto simp: frame_bytes_eq rx_initial_def)

text \<open>
  The receive buffer is never left: whatever a datagram that fits the free space contains, when a
  handler returns, the buffer still has 512 bytes and fewer than eight of them wait, so that the next
  datagram has at least 505 bytes of room.
\<close>

theorem receive_keeps_buffer:
  assumes "receive_frames handle r st = Some (events, st')" "rx_wf st"
    "\<And>data. r = Received data \<Longrightarrow> length data \<le> 512 - rxIndex st"
  shows "rx_wf st' \<and> 505 \<le> 512 - rxIndex st'"
  using receive_frames_wf [OF assms] unfolding rx_wf_def by linarith

theorem receive_keeps_buffer_witness:
  "\<exists>events st'. receive_frames (deliver_packet True) (Received [1, 2, 3]) rx_initial = Some (events, st') \<and> rx_wf st'"
proof -
  obtain events st' where r: "receive_frames (deliver_packet True) (Received [1, 2, 3]) rx_initial = Some (events, st')"
    by (simp add: receive_frames_def frame_loop.simps rx_initial_def)
  moreover have "rx_wf st' \<and> 505 \<le> 512 - rxIndex st'"
    by (rule receive_keeps_buffer [OF r rx_wf_initial]) (auto simp: rx_initial_def)
  ultimately show ?thesis by blast
qed

text \<open>
  No read past the buffer while a frame is taken out of it: with the 8-bit index and length the
  span handed to the callback has exactly the length of the frame's length byte and ends, with the
  checksum byte behind it, inside the 512 bytes.
\<close>

theorem deliver_in_buffer:
  assumes "length buf = 512" "deliver_packet True buf index = ([(src, pgn, payload)], index')"
  shows "length payload = unat (at_index buf (index + 2)) \<and>
     unat (index + 3) + unat (at_index buf (index + 2)) < length buf"
  using deliver_in_bounds [OF assms] by simp

theorem deliver_in_buffer_witness:
  "length (take 255 (drop 255 (replicate 512 (255 :: u8)))) = 255 \<and>
   unat (252 + 3 :: u8) + unat (at_index (replicate 512 255) (252 + 2)) < 512"
proof -
  have r: "at_index (replicate 512 255) i = 255" for i :: u8
    using u8_less_256 [of i] by (simp add: at_index_def)
  have "deliver_packet True (replicate 512 255) 252 =
      ([(255, 255, take 255 (drop 255 (replicate 512 255)))], 252 + 3 + (255 + 1))"
    by (simp add: deliver_packet_def Let_def r)
  then show ?thesis
    using deliver_in_buffer [of "replicate 512 255" 252 255 255] by (simp add: r)
qed

text \<open>
  The checksum: for up to 255 bytes the loop ends with the sum of the bytes modulo 256; for 256
  bytes or more its 8-bit counter never reaches the length and the loop does not end.
\<close>

theorem checksum_exact:
  "calculate_crc data = (if length data \<le> 255 then Some (of_nat (sum_list (map unat data))) else None)"
  by (rule calculate_crc_eq)

text \<open>
  C34 A frame that announces 250 bytes of payload stops the program: its end is at index 256, which the
  8-bit index reads as 0, so the loop finds the same frame again and delivers it forever. Eight bytes
  are enough for that.
\<close>

theorem length_250_never_returns:
  assumes "rxIndex st = 0" "length (rxBuffer st) = 512" "3 \<le> length rest" "length rest \<le> 507"
  shows "handle_incoming_packets True (Received ([0x80, 0x81, src, pgn, 250] @ rest)) st = None"
  using frame_250_hangs [OF assms] .

theorem length_250_never_returns_witness:
  "handle_incoming_packets True (Received [0x80, 0x81, 0x7F, 0xE5, 250, 0, 0, 0]) rx_initial = None"
  using length_250_never_returns [of rx_initial "[0, 0, 0]" "0x7F" "0xE5"]
  by (simp add: rx_initial_def MAX_PACKET_SIZE_def)

text \<open>
  C38 A frame with one byte of payload, the documented size of the section control mode packet, is not
  delivered when it arrives in an empty buffer, because the loop wants eight bytes. When the next datagram
  is a frame whose payload has at least four bytes, the third and fourth of them not a frame start (0x80
  0x81), the short frame is delivered with that datagram and the frame in it is lost: the scan resumes
  seven bytes into it, delivers nothing from it and leaves the buffer empty.
\<close>

theorem short_frame_loses_next:
  assumes "frame_bytes src pgn [x] = Some frame" "frame_bytes src' pgn' data = Some g"
    "4 \<le> length data" "\<not> (data ! 2 = 0x80 \<and> data ! 3 = 0x81)" "rx_wf st" "rxIndex st = 0"
  shows "(\<exists>st'. receive_all [frame] st = Some ([], st')) \<and>
     (\<exists>st'. receive_all [frame, g] st = Some ([(src, pgn, [x])], st') \<and> rxIndex st' = 0)"
  using frame_after_short_lost [OF assms] short_frame_waits [OF assms(1,6)] by simp

theorem short_frame_loses_next_witness:
  "\<exists>st'. receive_all [[0x80, 0x81, 0x7F, 0xF1, 1, 1, 0x72], [0x80, 0x81, 0x7F, 0xE5, 8, 255, 0, 0, 0, 0, 0, 0, 0, 0x6B]] rx_initial =
     Some ([(0x7F, 0xF1, [1])], st') \<and> rxIndex st' = 0"
proof -
  have f: "frame_bytes 0x7F 0xF1 [1] = Some [0x80, 0x81, 0x7F, 0xF1, 1, 1, 0x72]"
    "frame_bytes 0x7F 0xE5 [255, 0, 0, 0, 0, 0, 0, 0] = Some [0x80, 0x81, 0x7F, 0xE5, 8, 255, 0, 0, 0, 0, 0, 0, 0, 0x6B]"
    by (simp_all add: frame_bytes_eq)
  show ?thesis
    using short_frame_loses_next [OF f _ _ rx_wf_initial] by (simp add: rx_initial_def)
qed

text \<open>
  A subnet announcement takes effect: the frame sets the subnet to the three announced octets, and
  the socket is bound to the endpoint chosen for that subnet.
\<close>

theorem announcement_applied:
  assumes "frame_bytes 0x7F 0xC9 [0xC9, 0xC9, x, y, z] = Some frame" "rxIndex (address_rx s) = 0"
  shows "\<exists>s'. handle_address_detection env net (Received frame) s = Some s' \<and>
     configuredSubnet (udp_settings s') = [x, y, z] \<and> rxIndex (address_rx s') = 0 \<and>
     bound_endpoint s' = get_local_endpoint (net_platform net) (udp_settings s') (net_interfaces net) (net_resolved net)"
  using address_detection_applies [OF assms, of env net] by (simp add: apply_subnet_settings)

definition sample_net :: net_env where
  "sample_net = \<lparr>net_platform = Posix, net_interfaces = Some [Some [127, 0, 0, 1], None, Some [10, 0, 2, 15]], net_resolved = None\<rparr>"

definition sample_udp :: "jval udp_state" where
  "sample_udp = \<lparr>packet_rx = rx_initial, address_rx = rx_initial, udp_settings = default_settings, udp_files = Map.empty,
     bound_endpoint = (loopback, 8888)\<rparr>"

theorem announcement_applied_witness:
  "\<exists>s'. handle_address_detection sample_env sample_net (Received [0x80, 0x81, 0x7F, 0xC9, 5, 0xC9, 0xC9, 10, 0, 2, 0xEB]) sample_udp = Some s' \<and>
     configuredSubnet (udp_settings s') = [10, 0, 2] \<and> bound_endpoint s' = ([10, 0, 2, 15], 8888)"
proof -
  have f: "frame_bytes 0x7F 0xC9 [0xC9, 0xC9, 10, 0, 2] = Some [0x80, 0x81, 0x7F, 0xC9, 5, 0xC9, 0xC9, 10, 0, 2, 0xEB]"
    by (simp add: frame_bytes_eq)
  obtain s' where s': "handle_address_detection sample_env sample_net
        (Received [0x80, 0x81, 0x7F, 0xC9, 5, 0xC9, 0xC9, 10, 0, 2, 0xEB]) sample_udp = Some s'"
    "configuredSubnet (udp_settings s') = [10, 0, 2]"
    "bound_endpoint s' = get_local_endpoint Posix (udp_settings s') (net_interfaces sample_net) (net_resolved sample_net)"
    using announcement_applied [OF f, of sample_udp sample_env sample_net]
    by (auto simp: sample_udp_def rx_initial_def sample_net_def)
  then have "bound_endpoint s' = ([10, 0, 2, 15], 8888)"
    by (simp add: get_local_endpoint_def find_address_def sample_net_def matches_subnet_def)
  with s' show ?thesis by blast
qed

text \<open>
  The address to bind to: port 8888 always; an address of the configured subnet that one of the two
  sources lists if there is any, and the loopback address exactly when there is none.
\<close>

theorem endpoint_in_subnet:
  assumes "get_local_endpoint p st interfaces resolved = (addr, port)"
  shows "port = 8888 \<and>
     ((\<exists>addrs. (p \<noteq> Windows \<and> interfaces = Some addrs \<or> resolved = Some addrs) \<and> Some addr \<in> set addrs) \<and>
        take 3 addr = take 3 (configuredSubnet st) \<or>
      addr = loopback \<and>
        (\<forall>addrs a. (p \<noteq> Windows \<and> interfaces = Some addrs \<or> resolved = Some addrs) \<longrightarrow> Some a \<in> set addrs \<longrightarrow>
           take 3 a \<noteq> take 3 (configuredSubnet st)))"
proof (cases "if p = Windows then None else find_address (configuredSubnet st) interfaces")
  case (Some x)
  then show ?thesis
    using assms find_address_Some [of "configuredSubnet st" interfaces x]
    by (auto simp: get_local_endpoint_def split: if_splits)
next
  case None
  then show ?thesis
    using assms find_address_Some [of "configuredSubnet st" resolved] find_address_None [of "configuredSubnet st"]
    by (auto simp: get_local_endpoint_def split: option.splits if_splits)
qed

theorem endpoint_in_subnet_witness:
  "get_local_endpoint Posix default_settings (net_interfaces sample_net) None = (loopback, 8888) \<and>
   take 3 [10, 0, 2, 15 :: u8] \<noteq> take 3 (configuredSubnet default_settings)"
proof -
  have "get_local_endpoint Posix default_settings (net_interfaces sample_net) None = (loopback, 8888)" by code_simp
  moreover have "take 3 [10, 0, 2, 15 :: u8] \<noteq> take 3 (configuredSubnet default_settings)"
    using endpoint_in_subnet [OF calculation]
    by (simp add: default_settings_def DEFAULT_SUBNET_def loopback_def sample_net_def)
  ultimately show ?thesis by blast
qed

end
