(* ===== verification/App_State.thy ===== *)
theory App_State
  imports Tc_Measurement Udp_Frame "HOL-Library.Signed_Division"
begin

text \<open>
  The state of \<open>Application\<close> of \<open>src/include/app.hpp\<close>, with the function-local statics of
  \<open>src/src/app.cpp\<close> as fields beside the members. What leaves the program is recorded: \<open>udp_out\<close>
  holds the calls of \<open>UdpConnections::send\<close> in order and \<open>can_out\<close> the messages handed to the CAN
  network, with the control function they come from.
\<close>

section \<open>Messages\<close>

datatype sender = TC | TECU

record can_msg =
  can_pgn :: nat
  can_data :: bytes
  can_sender :: sender

datatype direction = Forward | Reverse

text \<open>The transmit data of one speed message: direction, speed in mm/s and distance in mm.\<close>

record speed_data =
  machine_direction :: direction
  machine_speed :: u16
  machine_distance :: u32

record speed_interface =
  groundBasedSpeed :: speed_data
  wheelBasedSpeed :: speed_data
  machineSelectedSpeed :: speed_data

text \<open>The NMEA 2000 interface: its course and speed message, and whether it sends it cyclically.\<close>

record cog_sog =
  sequence_id :: u8
  speed_over_ground :: u16
  course_over_ground :: u16
  sending_cyclically :: bool

record implement_snapshot =
  snap_displayName :: string
  snap_sections :: u8
  snap_widthText :: string

record working_without_demand =
  sinceMs :: u32
  warned :: bool

text \<open>The calls of the virtual terminal client of the ISOBUS library, and of its update helper.\<close>

datatype vt_msg =
    InitializeClient
  | UpdateClient
  | TerminateClient
  | SetObjectPool bytes bytes
  | SetScaling nat nat
  | ChangeActiveMask u16 u16
  | ChangeString u16 string
  | ChangeNumeric u16 u32
  | EnableObject u16 bool
  | TrackNumeric u16 u32
  | HelperNumeric u16 u32

record vt_state =
  vtClientStarted :: bool
  vtConfigSynced :: bool
  vtWasConnected :: bool
  vtConnectionWarningLogged :: bool
  vtCapabilitiesLogged :: bool
  vtDisconnectedSinceMs :: u32
  lastVtStatusUpdateMs :: u32
  lastVtSectionUpdateMs :: u32
  lastVtStrings :: "(u16, string) smap"
  vt_out :: "vt_msg list"

text \<open>A line of the lateness log: who was late, by how much, and the gap.\<close>

type_synonym late_line = "string \<times> u32 \<times> u32"

section \<open>State\<close>

record 'f app =
  udp :: "'f udp_state"
  tcServer :: tc_server
  speedMessagesInterface :: "speed_interface option"
  nmea2000MessageInterface :: "cog_sog option"
  nmea2000SequenceIdentifier :: u8
  xteSid :: u8
  lastXteTransmit :: u32
  lastJ1939SpeedTransmit :: u32
  lastTCStatusTransmit :: u32
  lastSpeedValue :: i32
  lastXteValue :: i32
  gnssFixQuality :: u8
  lastGnssQualityMs :: u32
  lastDistanceMm :: u32
  lastAogPacketMs :: u32
  sectionDemand :: "bool list"
  loggedSectionDemand :: "bool list"
  sectionDemandChangesSinceLog :: u32
  lastSectionDemandMs :: u32
  lastSectionDemandLogMs :: u32
  sectionDemandArriving :: bool
  workingWithoutDemand :: "(u64, working_without_demand) smap"
  tcAddressConflictActive :: bool
  tecuAddressClaimFailed :: bool
  implementSnapshots :: "(u64, implement_snapshot) smap"
  lastSectionDemandCheckMs :: u32
  lastConflictCheck :: u32
  lastImplementScanMs :: u32
  lastHeartbeatTransmit :: u32
  lastGnssSendMs :: u32
  lastUpdateCallMs :: u32
  lastSpeedUpdateCallMs :: u32
  lastTcServerUpdateCallMs :: u32
  late_log :: "late_line list"
  vtClient :: "vt_state option"
  udp_out :: "packet list"
  can_out :: "can_msg list"

text \<open>
  What the application reads of its libraries: the two identifiers it dispatches on by name, whether
  its control functions hold an address, the control functions on the bus with the parts of their
  names, whether the network takes a message, the state of the connection to a virtual terminal, and
  whether the socket can tell its local address.
\<close>

record bus_function =
  bf_address :: u8
  bf_address_valid :: bool
  bf_is_task_controller :: bool
  bf_is_ours :: bool
  bf_cf :: cf
  bf_function_code :: u8
  bf_manufacturer_code :: u16
  bf_identity_number :: u32
  bf_industry_group :: u8
  bf_ecu_instance :: u8
  bf_function_instance :: u8
  bf_is_internal :: bool

record app_env =
  app_tc :: tc_env
  ActualSpeed :: u16
  GuidanceLineDeviation :: u16
  tc_exists :: bool
  tc_address_valid :: bool
  tc_address :: u8
  tecu_exists :: bool
  tecu_address_valid :: bool
  control_functions :: "bus_function option list"
  send_can_ok :: bool
  task_totals_active :: bool
  vt_partner_valid :: bool
  vt_connected :: bool
  local_endpoint_ok :: bool

definition udp_emit :: "u8 \<Rightarrow> u8 \<Rightarrow> bytes \<Rightarrow> 'f app \<Rightarrow> 'f app" where
  "udp_emit src pgn data a = a\<lparr>udp_out := udp_out a @ [(src, pgn, data)]\<rparr>"

definition can_emit :: "can_msg \<Rightarrow> 'f app \<Rightarrow> 'f app" where
  "can_emit m a = a\<lparr>can_out := can_out a @ [m]\<rparr>"

lemma udp_emit_simps [simp]:
  "udp_out (udp_emit src pgn data a) = udp_out a @ [(src, pgn, data)]"
  "tcServer (udp_emit src pgn data a) = tcServer a" "can_out (udp_emit src pgn data a) = can_out a"
  "workingWithoutDemand (udp_emit src pgn data a) = workingWithoutDemand a"
  "implementSnapshots (udp_emit src pgn data a) = implementSnapshots a"
  "udp (udp_emit src pgn data a) = udp a"
  by (simp_all add: udp_emit_def)

section \<open>Operator messages\<close>

definition HW_MSG_ALERT :: u8 where "HW_MSG_ALERT = 0"
definition HW_MSG_INFO :: u8 where "HW_MSG_INFO = 1"
definition MAX_TEXT_BYTES :: nat where "MAX_TEXT_BYTES = 60"

definition is_continuation :: "u8 \<Rightarrow> bool" where
  "is_continuation b \<longleftrightarrow> b AND 0xC0 = 0x80"

text \<open>The cut moves left while the byte behind it continues a character.\<close>

fun cut_back :: "bytes \<Rightarrow> nat \<Rightarrow> nat" where
  "cut_back text 0 = 0"
| "cut_back text (Suc n) = (if is_continuation (text ! Suc n) then cut_back text n else Suc n)"

definition text_length :: "bytes \<Rightarrow> nat" where
  "text_length text = (if length text > MAX_TEXT_BYTES then cut_back text MAX_TEXT_BYTES else length text)"

definition send_hardware_message :: "bytes \<Rightarrow> u8 \<Rightarrow> u8 \<Rightarrow> 'f app \<Rightarrow> 'f app" where
  "send_hardware_message text duration color a =
     (if text = [] then a
      else (let message = take (text_length text) text
            in if message = [] then a else udp_emit 0x80 0xDD ([duration, color] @ message) a))"

definition text_bytes :: "string \<Rightarrow> bytes" where
  "text_bytes str = map (\<lambda>c. of_nat (of_char c)) str"

lemma cut_back_le: "cut_back msg n \<le> n"
  by (induction msg n rule: cut_back.induct) auto

lemma text_length_le: "text_length msg \<le> 60" "text_length msg \<le> length msg"
  using cut_back_le [of msg MAX_TEXT_BYTES]
  by (auto simp: text_length_def MAX_TEXT_BYTES_def)

lemma cut_back_boundary: "0 < cut_back msg n \<Longrightarrow> \<not> is_continuation (msg ! cut_back msg n)"
  by (induction msg n rule: cut_back.induct) auto

lemma cut_back_maximal: "cut_back msg n < k \<Longrightarrow> k \<le> n \<Longrightarrow> is_continuation (msg ! k)"
  by (induction msg n rule: cut_back.induct) (auto split: if_splits simp: le_Suc_eq)

lemma send_hardware_message_frame [simp]:
  "tcServer (send_hardware_message msg d col a) = tcServer a"
  "can_out (send_hardware_message msg d col a) = can_out a"
  "udp (send_hardware_message msg d col a) = udp a"
  "workingWithoutDemand (send_hardware_message msg d col a) = workingWithoutDemand a"
  "implementSnapshots (send_hardware_message msg d col a) = implementSnapshots a"
  by (simp_all add: send_hardware_message_def Let_def)

lemma udp_out_hardware_message:
  "\<exists>new. udp_out (send_hardware_message msg d col a) = udp_out a @ new \<and>
     (\<forall>(src, pgn, data)\<in>set new. src = 0x80 \<and> pgn = 0xDD \<and> length data \<le> 62)"
  using text_length_le [of msg] by (auto simp: send_hardware_message_def Let_def)

end
