(* ===== verification/Packet_Handler.thy ===== *)
theory Packet_Handler
  imports App_State
begin

text \<open>
  The packet handler that \<open>Application::setup_udp_connections\<close> of \<open>src/src/app.cpp\<close> installs: what
  the program does with each frame AgOpenGPS sends. Log lines, and the statics that only throttle
  them, are left out.
\<close>

section \<open>The handler\<close>

definition GNSS_FIX_QUALITY_OFFSET :: nat where "GNSS_FIX_QUALITY_OFFSET = 38"
definition GNSS_QUALITY_MAX :: u8 where "GNSS_QUALITY_MAX = 8"

text \<open>PGN 0xD6 from source 0x7C: only the fix quality is read.\<close>

definition on_gnss_packet :: "clock \<Rightarrow> bytes \<Rightarrow> 'f app \<Rightarrow> 'f app" where
  "on_gnss_packet clk data a =
     (if length data < GNSS_FIX_QUALITY_OFFSET + 1 then a
      else (let quality = data ! GNSS_FIX_QUALITY_OFFSET
            in a\<lparr>gnssFixQuality := (if quality \<le> GNSS_QUALITY_MAX then quality else 1),
                 lastGnssQualityMs := timestamp_ms clk\<rparr>))"

text \<open>PGN 0xE5: 64 sections, one bit each.\<close>

definition on_section_packet :: "clock \<Rightarrow> bytes \<Rightarrow> 'f app \<Rightarrow> 'f app" where
  "on_section_packet clk data a =
     (let sectionStates = decode_sections data;
          a1 = a\<lparr>lastAogPacketMs := timestamp_ms clk, lastSectionDemandMs := timestamp_ms clk\<rparr>;
          a2 = (if sectionStates \<noteq> sectionDemand a1
                then a1\<lparr>sectionDemand := sectionStates,
                        sectionDemandChangesSinceLog := sectionDemandChangesSinceLog a1 + 1\<rparr>
                else a1)
      in a2\<lparr>tcServer := update_section_states sectionStates (tcServer a2)\<rparr>)"

definition on_control_packet :: "clock \<Rightarrow> bytes \<Rightarrow> 'f app \<Rightarrow> 'f app" where
  "on_control_packet clk data a =
     a\<lparr>lastAogPacketMs := timestamp_ms clk,
       tcServer := update_section_control_enabled (data ! 0 = 1) (tcServer a)\<rparr>"

text \<open>The two little-endian numbers of a process data packet.\<close>

definition packet_identifier :: "bytes \<Rightarrow> u16" where
  "packet_identifier data = ucast (data ! 0) OR push_bit 8 (ucast (data ! 1))"

definition packet_value :: "bytes \<Rightarrow> i32" where
  "packet_value data = ucast (data ! 2) OR push_bit 8 (ucast (data ! 3)) OR push_bit 16 (ucast (data ! 4))
     OR push_bit 24 (ucast (data ! 5))"

definition is_negative :: "i32 \<Rightarrow> bool" where
  "is_negative v \<longleftrightarrow> sint v < 0"

text \<open>\<open>std::abs\<close>; for the smallest value, where it is undefined, the two's complement negation.\<close>

definition abs32 :: "i32 \<Rightarrow> u32" where
  "abs32 v = (if is_negative v then - v else v)"

definition set_speed :: "direction \<Rightarrow> u16 \<Rightarrow> speed_data \<Rightarrow> speed_data" where
  "set_speed dir speed d = d\<lparr>machine_direction := dir, machine_speed := speed\<rparr>"

definition on_speed_value :: "i32 \<Rightarrow> 'f app \<Rightarrow> 'f app" where
  "on_speed_value v a =
     (let speed = ucast (abs32 v) :: u16;
          dir = (if is_negative v then Reverse else Forward);
          a1 = a\<lparr>lastSpeedValue := v,
                 speedMessagesInterface := map_option (\<lambda>si.
                   \<lparr>groundBasedSpeed = set_speed dir speed (groundBasedSpeed si),
                    wheelBasedSpeed = set_speed dir speed (wheelBasedSpeed si),
                    machineSelectedSpeed = set_speed dir speed (machineSelectedSpeed si)\<rparr>) (speedMessagesInterface a)\<rparr>
      in (case nmea2000MessageInterface a1 of
            None \<Rightarrow> a1
          | Some msg \<Rightarrow>
              a1\<lparr>nmea2000MessageInterface := Some (msg\<lparr>sequence_id := nmea2000SequenceIdentifier a1,
                   speed_over_ground := speed div 10, course_over_ground := 0\<rparr>),
                 nmea2000SequenceIdentifier := nmea2000SequenceIdentifier a1 + 1\<rparr>))"

text \<open>The cross track error: a signed division towards zero, packed into eight bytes.\<close>

definition xte_metres :: "i32 \<Rightarrow> i32" where
  "xte_metres v = word_of_int (sint v sdiv 1000)"

definition xte_data :: "u8 \<Rightarrow> i32 \<Rightarrow> bytes" where
  "xte_data sid xte =
     [sid, 1 OR 0x30 OR 0x40, ucast (xte AND 0xFF), ucast (signed_drop_bit 8 xte AND 0xFF),
      ucast (signed_drop_bit 16 xte AND 0xFF), ucast (signed_drop_bit 24 xte AND 0xFF), 0xFF, 0xFF]"

definition next_xte_sid :: "u8 \<Rightarrow> u8" where
  "next_xte_sid sid = sid mod 253 + 1"

definition on_xte_value :: "app_env \<Rightarrow> clock \<Rightarrow> i32 \<Rightarrow> 'f app \<Rightarrow> 'f app" where
  "on_xte_value env clk v a =
     (let a1 = a\<lparr>lastXteValue := v, xteSid := next_xte_sid (xteSid a)\<rparr>
      in if time_expired_ms clk (lastXteTransmit a1) 1000
         then if send_can_ok env
              then (can_emit \<lparr>can_pgn = 0x1F903, can_data = xte_data (xteSid a1) (xte_metres v), can_sender = TC\<rparr> a1)
                     \<lparr>lastXteTransmit := timestamp_ms clk\<rparr>
              else a1
         else a1)"

definition set_distance :: "u32 \<Rightarrow> speed_data \<Rightarrow> speed_data" where
  "set_distance mm d = d\<lparr>machine_distance := mm\<rparr>"

definition on_distance_value :: "i32 \<Rightarrow> 'f app \<Rightarrow> 'f app" where
  "on_distance_value v a =
     (let mm = (if is_negative v then 0 else v)
      in a\<lparr>lastDistanceMm := mm,
           speedMessagesInterface := map_option (\<lambda>si.
             \<lparr>groundBasedSpeed = set_distance mm (groundBasedSpeed si),
              wheelBasedSpeed = set_distance mm (wheelBasedSpeed si),
              machineSelectedSpeed = set_distance mm (machineSelectedSpeed si)\<rparr>) (speedMessagesInterface a)\<rparr>)"

definition on_process_data_packet :: "app_env \<Rightarrow> clock \<Rightarrow> bytes \<Rightarrow> 'f app \<Rightarrow> 'f app" where
  "on_process_data_packet env clk data a =
     (let a1 = a\<lparr>lastAogPacketMs := timestamp_ms clk\<rparr>;
          identifier = packet_identifier data; v = packet_value data
      in if identifier = ActualSpeed env then on_speed_value v a1
         else if identifier = GuidanceLineDeviation env then on_xte_value env clk v a1
         else if identifier = 597 then on_distance_value v a1
         else a1)"

definition packet_handler :: "app_env \<Rightarrow> clock \<Rightarrow> packet \<Rightarrow> 'f app \<Rightarrow> 'f app" where
  "packet_handler env clk p a =
     (case p of (src, pgn, data) \<Rightarrow>
        if src = 0x7C \<and> pgn = 0xD6 then on_gnss_packet clk data a
        else if src \<noteq> 0x7F then a
        else if pgn = 0xE5 \<and> length data \<ge> 8 then on_section_packet clk data a
        else if pgn = 0xF1 \<and> data \<noteq> [] then on_control_packet clk data a
        else if pgn = 0xF2 \<and> length data \<ge> 6 then on_process_data_packet env clk data a
        else a)"

lemmas packet_defs = on_gnss_packet_def on_section_packet_def on_control_packet_def on_process_data_packet_def
  on_speed_value_def on_xte_value_def on_distance_value_def can_emit_def

section \<open>The numbers in a packet\<close>

text \<open>A 32-bit value as AgOpenGPS sends it, least significant byte first.\<close>

definition le_bytes :: "u32 \<Rightarrow> bytes" where
  "le_bytes v = [ucast v, ucast (drop_bit 8 v), ucast (drop_bit 16 v), ucast (drop_bit 24 v)]"

lemma packet_value_bit:
  "n < 32 \<Longrightarrow> bit (packet_value data) n \<longleftrightarrow> bit (data ! (2 + n div 8)) (n mod 8)"
proof -
  assume n: "n < 32"
  have "n div 8 = 0 \<or> n div 8 = 1 \<or> n div 8 = 2 \<or> n div 8 = 3" using n by linarith
  then consider "n < 8" | "8 \<le> n" "n < 16" | "16 \<le> n" "n < 24" | "24 \<le> n" "n < 32"
    using n by linarith
  then show ?thesis
  proof cases
    case 1
    then show ?thesis by (auto simp: packet_value_def bit_simps dest: bit_imp_le_length)
  next
    case 2
    then have "n div 8 = 1" "n mod 8 = n - 8" by (auto simp: mod_if div_if)
    with 2 show ?thesis by (auto simp: packet_value_def bit_simps dest: bit_imp_le_length)
  next
    case 3
    then have "n div 8 = 2" "n mod 8 = n - 16" by (auto simp: mod_if div_if)
    with 3 show ?thesis by (auto simp: packet_value_def bit_simps dest: bit_imp_le_length)
  next
    case 4
    then have "n div 8 = 3" "n mod 8 = n - 24" by (auto simp: mod_if div_if)
    with 4 show ?thesis by (auto simp: packet_value_def bit_simps dest: bit_imp_le_length)
  qed
qed

lemma bit_le_bytes: "n < 32 \<Longrightarrow> bit (le_bytes v ! (n div 8)) (n mod 8) \<longleftrightarrow> bit v n"
proof -
  assume n: "n < 32"
  define q r where "q = n div 8" and "r = n mod 8"
  have nqr: "n = 8 * q + r" "r < 8" by (simp_all add: q_def r_def)
  then have "q = 0 \<or> q = 1 \<or> q = 2 \<or> q = 3" using n by linarith
  then show ?thesis
    unfolding q_def [symmetric] r_def [symmetric] using nqr by (auto simp: le_bytes_def bit_simps)
qed

lemma packet_value_le_bytes: "packet_value (x # y # le_bytes v @ rest) = v"
proof (rule bit_word_eqI)
  fix n assume "n < LENGTH(32)"
  then have n: "n < 32" by simp
  then have "n div 8 < length (le_bytes v)" by (simp add: le_bytes_def)
  then show "bit (packet_value (x # y # le_bytes v @ rest)) n = bit v n"
    using n by (simp add: packet_value_bit bit_le_bytes nth_append)
qed

lemma xte_data_le_bytes: "xte_data sid xte = [sid, 0x71] @ le_bytes xte @ [0xFF, 0xFF]"
proof -
  have "ucast (x AND 0xFF) = (ucast x :: u8)" for x :: u32
  proof -
    have "(0xFF :: u32) = mask 8" by (simp add: mask_eq_exp_minus_1)
    then have "x AND 0xFF = take_bit 8 x" by (simp only: take_bit_eq_mask)
    then show ?thesis by (intro bit_word_eqI) (simp add: bit_simps)
  qed
  moreover have "ucast (signed_drop_bit k xte) = (ucast (drop_bit k xte) :: u8)" if "k \<le> 24" for k
    using that by (intro bit_word_eqI) (auto simp: bit_simps)
  ultimately show ?thesis by (simp add: xte_data_def le_bytes_def)
qed

lemma next_xte_sid_range: "1 \<le> next_xte_sid sid" "next_xte_sid sid \<le> 253"
proof -
  have "unat (sid mod 253) < 253" by (simp add: unat_mod)
  then have "unat (next_xte_sid sid) = Suc (unat sid mod 253)"
    by (simp add: next_xte_sid_def unat_word_ariths unat_mod)
  then show "1 \<le> next_xte_sid sid" "next_xte_sid sid \<le> 253"
    by (simp_all add: word_le_nat_alt Suc_leI)
qed

section \<open>What the handler leaves alone\<close>

lemma value_frame [simp]:
  "tcServer (on_speed_value v a) = tcServer a" "tcServer (on_xte_value env clk v a) = tcServer a"
  "tcServer (on_distance_value v a) = tcServer a"
  "udp_out (on_speed_value v a) = udp_out a" "udp_out (on_xte_value env clk v a) = udp_out a"
  "udp_out (on_distance_value v a) = udp_out a"
  by (simp_all add: on_speed_value_def on_xte_value_def on_distance_value_def can_emit_def Let_def split: option.split)

lemma packet_frame [simp]:
  "tcServer (on_gnss_packet clk data a) = tcServer a" "tcServer (on_process_data_packet env clk data a) = tcServer a"
  "tcServer (on_section_packet clk data a) = update_section_states (decode_sections data) (tcServer a)"
  "tcServer (on_control_packet clk data a) = update_section_control_enabled (data ! 0 = 1) (tcServer a)"
  "udp_out (on_gnss_packet clk data a) = udp_out a" "udp_out (on_process_data_packet env clk data a) = udp_out a"
  "udp_out (on_section_packet clk data a) = udp_out a" "udp_out (on_control_packet clk data a) = udp_out a"
  by (simp_all add: on_gnss_packet_def on_section_packet_def on_control_packet_def on_process_data_packet_def Let_def)

text \<open>No packet makes the program send to AgOpenGPS, and only the two section packets reach the task controller.\<close>

lemma packet_handler_udp_out: "udp_out (packet_handler env clk (src, pgn, data) a) = udp_out a"
  by (simp add: packet_handler_def)

lemma packet_handler_tcServer:
  "tcServer (packet_handler env clk (src, pgn, data) a) =
     (if src = 0x7F \<and> pgn = 0xE5 \<and> 8 \<le> length data then update_section_states (decode_sections data) (tcServer a)
      else if src = 0x7F \<and> pgn = 0xF1 \<and> data \<noteq> [] then update_section_control_enabled (data ! 0 = 1) (tcServer a)
      else tcServer a)"
  by (simp add: packet_handler_def)

end
