(* ===== verification/Implement_Details.thy ===== *)
theory Implement_Details
  imports Packet_Handler
begin

text \<open>
  \<open>Application::derive_implement_details\<close> of \<open>src/src/app.cpp\<close>: the name, the section count, the
  working width and the boom offset that the operator is shown for an implement.
\<close>

section \<open>Implement details\<close>

text \<open>Millimetres in metres, with two decimals.\<close>

definition fixed2 :: "nat \<Rightarrow> string" where
  "fixed2 mm = fixed_text 2 1000 mm"

definition fixed2_signed :: "i32 \<Rightarrow> string" where
  "fixed2_signed v = (if is_negative v then ''-'' @ fixed2 (nat (- sint v)) else ''+'' @ fixed2 (nat (sint v)))"

record implement_details =
  displayName :: string
  det_sections :: u8
  widthText :: string
  boomOffsetText :: string

definition offset_text :: "boom_geometry \<Rightarrow> string" where
  "offset_text boom =
     (if boom_x_mm boom \<noteq> None \<or> boom_y_mm boom \<noteq> None
      then (case boom_x_mm boom of Some x \<Rightarrow> ''X:'' @ fixed2_signed x | None \<Rightarrow> ''X:n/a'') @ '' ''
         @ (case boom_y_mm boom of Some y \<Rightarrow> ''Y:'' @ fixed2_signed y | None \<Rightarrow> ''Y:n/a'')
      else '''')"

definition width_or_0 :: "i32 option \<Rightarrow> i32" where
  "width_or_0 w = (case w of Some v \<Rightarrow> v | None \<Rightarrow> 0)"

definition sections_width :: "section_geometry list \<Rightarrow> i32" where
  "sections_width xs = sum_list (map (\<lambda>x. width_or_0 (sec_width_mm x)) xs)"

definition sub_boom_width :: "sub_boom \<Rightarrow> i32" where
  "sub_boom_width sb = (if sub_sections sb = [] then width_or_0 (sub_width_mm sb) else 0) + sections_width (sub_sections sb)"

definition total_width :: "boom_geometry list \<Rightarrow> i32" where
  "total_width booms = sum_list (map (\<lambda>boom. sections_width (boom_sections boom)
     + sum_list (map sub_boom_width (boom_sub_booms boom))) booms)"

definition derive_implement_details :: "tc_env \<Rightarrow> client_state \<Rightarrow> implement_details" where
  "derive_implement_details env c =
     (let pool = client_pool c;
          name = (case pool_objects pool of
                    Some obj # _ \<Rightarrow> if designator obj \<noteq> [] then designator obj else ''No implement''
                  | _ \<Rightarrow> ''No implement'');
          booms = get_implement_geometry env pool;
          width = total_width booms
      in \<lparr>displayName = name, det_sections = numberOfSections c,
          widthText = (if sint width > 0 then fixed2 (nat (sint width)) else ''''),
          boomOffsetText = (case booms of [] \<Rightarrow> '''' | boom # _ \<Rightarrow> offset_text boom)\<rparr>)"

end
