(* ===== verification/Vt_Client.thy ===== *)
theory Vt_Client
  imports Implement_Details
begin

text \<open>
  The virtual terminal part of \<open>Application\<close> (\<open>src/src/app.cpp\<close>, from \<open>setup_vt_client\<close> to
  \<open>update_vt_status_strings\<close>): connection handling, the status pages, the section map, the soft keys
  and the two settings the operator can change. The terminal client is part of the ISOBUS library:
  \<open>vt_out\<close> records the calls it gets, and whether a terminal is there and connected is a parameter. Log
  lines are left out, the flags that guard them are kept. The update helper is created together with
  the client, so the check for it is not modelled.
\<close>

section \<open>Object identifiers\<close>

text \<open>The objects of the pool that the program names (\<open>src/resources/AOG_TC.iop.h\<close>).\<close>

definition ISO_DESIGNATOR_HEIGHT :: nat where "ISO_DESIGNATOR_HEIGHT = 80"
definition ISO_MASK_SIZE :: nat where "ISO_MASK_SIZE = 480"
definition WorkingSet_0 :: u16 where "WorkingSet_0 = 0"
definition DataMask_1000 :: u16 where "DataMask_1000 = 1000"
definition DataMask_Config :: u16 where "DataMask_Config = 1001"
definition DataMask_Network :: u16 where "DataMask_Network = 1002"
definition DataMask_Implement :: u16 where "DataMask_Implement = 1003"
definition DataMask_Diagnostics :: u16 where "DataMask_Diagnostics = 1004"
definition NavStatus :: u16 where "NavStatus = 5002"
definition NavNetwork :: u16 where "NavNetwork = 5003"
definition NavImplement :: u16 where "NavImplement = 5004"
definition NavDiagnostics :: u16 where "NavDiagnostics = 5005"
definition NavConfig :: u16 where "NavConfig = 5006"
definition VTControlFunctionsStr :: u16 where "VTControlFunctionsStr = 8000"
definition ConfigHydliftAuxN :: u16 where "ConfigHydliftAuxN = 10001"
definition ConfigNmeaRead :: u16 where "ConfigNmeaRead = 10002"
definition ConfigNmeaSend :: u16 where "ConfigNmeaSend = 10003"
definition ConfigTecuEnabled :: u16 where "ConfigTecuEnabled = 10004"
definition VTWorkingSetStatusStr :: u16 where "VTWorkingSetStatusStr = 11000"
definition VTWorkingSetStatusLabel :: u16 where "VTWorkingSetStatusLabel = 11001"
definition VTSectionsFromAOGS :: u16 where "VTSectionsFromAOGS = 11004"
definition VTAogIPStr :: u16 where "VTAogIPStr = 11005"
definition NetworkConnectedValue :: u16 where "NetworkConnectedValue = 11102"
definition NetworkRows :: u16 where "NetworkRows = 11104"
definition ImplementActiveDDOP :: u16 where "ImplementActiveDDOP = 11202"
definition ImplementSectionControl :: u16 where "ImplementSectionControl = 11203"
definition ImplementWorkingWidth :: u16 where "ImplementWorkingWidth = 11204"
definition ImplementSectionMap :: u16 where "ImplementSectionMap = 11205"
definition ImplementSectionCount :: u16 where "ImplementSectionCount = 11206"
definition ImplementBoomOffset :: u16 where "ImplementBoomOffset = 11209"
definition DiagnosticsValues :: u16 where "DiagnosticsValues = 11302"
definition DiagnosticsAlarmValue :: u16 where "DiagnosticsAlarmValue = 11304"
definition DiagnosticsLastPacket :: u16 where "DiagnosticsLastPacket = 11305"
definition DiagnosticsTcAddress :: u16 where "DiagnosticsTcAddress = 11306"
definition DiagnosticsTaskState :: u16 where "DiagnosticsTaskState = 11307"
definition DiagnosticsActiveDDOP :: u16 where "DiagnosticsActiveDDOP = 11308"
definition DiagnosticsTcClients :: u16 where "DiagnosticsTcClients = 11309"
definition ConfigHydliftLabel :: u16 where "ConfigHydliftLabel = 11501"
definition ConfigNmeaReadLabel :: u16 where "ConfigNmeaReadLabel = 11502"
definition ConfigNmeaSendLabel :: u16 where "ConfigNmeaSendLabel = 11503"
definition ConfigTecuLabel :: u16 where "ConfigTecuLabel = 11504"
definition VTSpeedValue :: u16 where "VTSpeedValue = 12000"
definition VTXteValue :: u16 where "VTXteValue = 12001"

lemmas vt_ids =
  WorkingSet_0_def DataMask_1000_def DataMask_Config_def DataMask_Network_def DataMask_Implement_def
  DataMask_Diagnostics_def NavStatus_def NavNetwork_def NavImplement_def NavDiagnostics_def
  NavConfig_def VTControlFunctionsStr_def ConfigHydliftAuxN_def ConfigNmeaRead_def ConfigNmeaSend_def
  ConfigTecuEnabled_def VTWorkingSetStatusStr_def VTWorkingSetStatusLabel_def VTSectionsFromAOGS_def
  VTAogIPStr_def NetworkConnectedValue_def NetworkRows_def ImplementActiveDDOP_def
  ImplementSectionControl_def ImplementWorkingWidth_def ImplementSectionMap_def
  ImplementSectionCount_def ImplementBoomOffset_def DiagnosticsValues_def DiagnosticsAlarmValue_def
  DiagnosticsLastPacket_def DiagnosticsTcAddress_def DiagnosticsTaskState_def DiagnosticsActiveDDOP_def
  DiagnosticsTcClients_def ConfigHydliftLabel_def ConfigNmeaReadLabel_def ConfigNmeaSendLabel_def
  ConfigTecuLabel_def VTSpeedValue_def VTXteValue_def

definition PREFERRED_TC_ADDRESS :: u8 where "PREFERRED_TC_ADDRESS = 247"

section \<open>Strings\<close>

definition vt_emit :: "vt_msg list \<Rightarrow> vt_state \<Rightarrow> vt_state" where
  "vt_emit msgs v = v\<lparr>vt_out := vt_out v @ msgs\<rparr>"

definition send_vt_string_if_changed :: "u16 \<Rightarrow> string \<Rightarrow> vt_state \<Rightarrow> vt_state" where
  "send_vt_string_if_changed objectID s v =
     (if sm_find (lastVtStrings v) objectID = Some s then v
      else (vt_emit [ChangeString objectID s] v)\<lparr>lastVtStrings := sm_put objectID s (lastVtStrings v)\<rparr>)"

text \<open>\<open>std::uppercase\<close> affects the hexadecimal letters only.\<close>

definition upper_digit :: "nat \<Rightarrow> char" where
  "upper_digit d = (if d < 10 then char_of (48 + d) else char_of (55 + d))"

definition format_hex_address :: "u8 \<Rightarrow> string" where
  "format_hex_address address = ''0x'' @ pad_left 2 (CHR ''0'') (map upper_digit (digits_base 16 (unat address)))"

definition get_bound_ip_address :: "app_env \<Rightarrow> 'f udp_state \<Rightarrow> string" where
  "get_bound_ip_address env u =
     (if \<not> local_endpoint_ok env then ''not available''
      else (case bound_endpoint u of (addr, port) \<Rightarrow> dotted addr (''.'' @ to_string (unat (addr ! 3)))))"

section \<open>Connection\<close>

definition try_start_vt_client :: "app_env \<Rightarrow> clock \<Rightarrow> vt_state \<Rightarrow> vt_state" where
  "try_start_vt_client env clk v =
     (if vt_partner_valid env
      then (vt_emit [InitializeClient] v)\<lparr>vtClientStarted := True, vtDisconnectedSinceMs := timestamp_ms clk\<rparr>
      else v)"

definition handle_vt_disconnected :: "clock \<Rightarrow> vt_state \<Rightarrow> vt_state" where
  "handle_vt_disconnected clk v =
     (let v1 = (if vtWasConnected v
                then v\<lparr>vtDisconnectedSinceMs := timestamp_ms clk, vtConnectionWarningLogged := False, vtCapabilitiesLogged := False\<rparr>
                else if vtDisconnectedSinceMs v = 0 then v\<lparr>vtDisconnectedSinceMs := timestamp_ms clk\<rparr> else v);
          v2 = v1\<lparr>vtWasConnected := False\<rparr>;
          v3 = (if \<not> vtConnectionWarningLogged v2 \<and> time_expired_ms clk (vtDisconnectedSinceMs v2) 30000
                then v2\<lparr>vtConnectionWarningLogged := True\<rparr> else v2)
      in v3\<lparr>lastVtStrings := [], vtConfigSynced := False\<rparr>)"

definition note_vt_connected :: "vt_state \<Rightarrow> vt_state" where
  "note_vt_connected v =
     (if \<not> vtWasConnected v
      then v\<lparr>vtWasConnected := True, vtDisconnectedSinceMs := 0, vtConnectionWarningLogged := False\<rparr> else v)"

definition log_vt_capabilities_once :: "vt_state \<Rightarrow> vt_state" where
  "log_vt_capabilities_once v = (if \<not> vtCapabilitiesLogged v then v\<lparr>vtCapabilitiesLogged := True\<rparr> else v)"

definition flag_value :: "bool \<Rightarrow> u32" where
  "flag_value b = (if b then 1 else 0)"

definition sync_vt_config_once :: "'f app \<Rightarrow> vt_state \<Rightarrow> vt_state" where
  "sync_vt_config_once a v =
     (if \<not> vtConfigSynced v
      then (vt_emit
              [EnableObject ConfigHydliftAuxN False,
               EnableObject ConfigNmeaRead False,
               EnableObject ConfigNmeaSend (nmea2000MessageInterface a \<noteq> None),
               ChangeNumeric ConfigNmeaSend (flag_value (nmeaSendEnabled (udp_settings (udp a)))),
               ChangeNumeric ConfigTecuEnabled (flag_value (tecuEnabled (udp_settings (udp a))))] v)
             \<lparr>vtConfigSynced := True\<rparr>
      else v)"

section \<open>Status pages\<close>

text \<open>The section map of one implement: at most 64 sections, sixteen to a line.\<close>

definition section_map_text :: "client_state \<Rightarrow> string" where
  "section_map_text c =
     (let sectionCount = min (unat (numberOfSections c)) 64
      in if sectionCount > 0
         then concat (map (\<lambda>i. (if i \<noteq> 0 then [if i mod 16 = 0 then newline else CHR '' ''] else [])
                  @ [if get_section_actual_state c (of_nat i) = ON then CHR ''1'' else CHR ''0'']) [0..<sectionCount])
         else ''No sections connected'')"

definition current_section_map :: "'f app \<Rightarrow> string" where
  "current_section_map a =
     (case clients (tcServer a) of [] \<Rightarrow> ''No sections connected'' | (_, c) # _ \<Rightarrow> section_map_text c)"

definition update_vt_section_map :: "clock \<Rightarrow> 'f app \<Rightarrow> vt_state \<Rightarrow> vt_state" where
  "update_vt_section_map clk a v =
     (if time_expired_ms clk (lastVtSectionUpdateMs v) 100
      then (send_vt_string_if_changed ImplementSectionMap (current_section_map a) v)\<lparr>lastVtSectionUpdateMs := timestamp_ms clk\<rparr>
      else v)"

definition packet_age :: "clock \<Rightarrow> 'f app \<Rightarrow> string" where
  "packet_age clk a =
     (if lastAogPacketMs a = 0 then ''never'' else to_string (unat (time_elapsed_ms clk (lastAogPacketMs a)) div 1000) @ '' s'')"

definition distance_text :: "u32 \<Rightarrow> string" where
  "distance_text mm =
     (if mm < 1000000 then fixed_text 1 1000 (unat mm) @ '' m'' else fixed_text 2 1000000 (unat mm) @ '' km'')"

definition total_sections :: "'f app \<Rightarrow> u32" where
  "total_sections a = sum_list (map (\<lambda>(_, c). ucast (numberOfSections c)) (clients (tcServer a)))"

text \<open>The implement page shows the first client.\<close>

record shown_implement =
  implementName :: string
  sectionControl :: string
  workingWidth :: string
  boomOffset :: string
  implementSections :: u8

definition shown_details :: "app_env \<Rightarrow> 'f app \<Rightarrow> shown_implement" where
  "shown_details env a =
     (case clients (tcServer a) of
        [] \<Rightarrow> \<lparr>implementName = ''No implement'', sectionControl = ''DISABLED'', workingWidth = ''n/a'', boomOffset = ''n/a'', implementSections = 0\<rparr>
      | (_, c) # _ \<Rightarrow>
          (let details = derive_implement_details (app_tc env) c
           in \<lparr>implementName = displayName details,
               sectionControl = (if isSectionControlEnabled c then ''ENABLED'' else ''DISABLED''),
               workingWidth = (if widthText details = [] then ''n/a'' else widthText details),
               boomOffset = (if boomOffsetText details = [] then ''n/a'' else boomOffsetText details),
               implementSections = det_sections details\<rparr>))"

definition online_functions :: "app_env \<Rightarrow> nat" where
  "online_functions env = length (filter (\<lambda>f. case f of Some f \<Rightarrow> bf_address_valid f | None \<Rightarrow> False) (control_functions env))"

definition network_row :: "(cf, client_state) smap \<Rightarrow> bus_function \<Rightarrow> string" where
  "network_row cs f =
     pad_right 6 (CHR '' '') (format_hex_address (bf_address f))
     @ pad_right 10 (CHR '' '') (to_string (unat (bf_function_code f)))
     @ pad_right 6 (CHR '' '') (to_string (unat (bf_manufacturer_code f)))
     @ pad_right 9 (CHR '' '') (to_string (unat (bf_identity_number f)))
     @ to_string (unat (case sm_find cs (bf_cf f) of Some c \<Rightarrow> numberOfSections c | None \<Rightarrow> 0))"

text \<open>The loop over the control functions; it stops after seven rows.\<close>

fun network_rows_loop :: "(cf, client_state) smap \<Rightarrow> bus_function option list \<Rightarrow> nat \<Rightarrow> string \<Rightarrow> nat \<times> string" where
  "network_rows_loop cs [] displayed rows = (displayed, rows)"
| "network_rows_loop cs (f # fs) displayed rows =
     (if displayed \<ge> 7 then (displayed, rows)
      else case f of
        None \<Rightarrow> network_rows_loop cs fs displayed rows
      | Some f \<Rightarrow>
          if \<not> bf_address_valid f then network_rows_loop cs fs displayed rows
          else network_rows_loop cs fs (displayed + 1) (rows @ (if displayed \<noteq> 0 then [newline] else []) @ network_row cs f))"

definition network_rows :: "app_env \<Rightarrow> (cf, client_state) smap \<Rightarrow> string" where
  "network_rows env cs =
     (case network_rows_loop cs (control_functions env) 0 [] of
        (displayed, rows) \<Rightarrow> if displayed = 0 then rows @ ''No control functions online'' else rows)"

definition have_preferred_address :: "app_env \<Rightarrow> bool" where
  "have_preferred_address env \<longleftrightarrow> tc_exists env \<and> tc_address_valid env \<and> tc_address env = PREFERRED_TC_ADDRESS"

definition alarm_text :: "app_env \<Rightarrow> bool \<Rightarrow> bool \<Rightarrow> string" where
  "alarm_text env aogConnected no_clients =
     (if \<not> have_preferred_address env
      then (if tc_exists env \<and> tc_address_valid env then ''TC address conflict'' else ''TC address not claimed'')
      else if \<not> aogConnected then ''AOG heartbeat missing''
      else if no_clients then ''Waiting for implement''
      else ''No active alarms'')"

definition main_implement_status :: "app_env \<Rightarrow> 'f app \<Rightarrow> string" where
  "main_implement_status env a =
     ''Name             '' @ take 16 (implementName (shown_details env a)) @ [newline]
     @ ''Sections         '' @ to_string (unat (total_sections a)) @ [newline]
     @ ''Section control  '' @ sectionControl (shown_details env a)"

definition main_system_status :: "app_env \<Rightarrow> clock \<Rightarrow> bool \<Rightarrow> 'f app \<Rightarrow> string" where
  "main_system_status env clk aogConnected a =
     ''Control funcs    '' @ to_string (unat (of_nat (online_functions env) :: u32)) @ [newline]
     @ ''Task state       '' @ (if task_totals_active env then ''RUNNING'' else ''STOPPED'') @ [newline]
     @ ''Direction        '' @ (if \<not> aogConnected then ''--'' else if is_negative (lastSpeedValue a) then ''REV'' else ''FWD'') @ [newline]
     @ ''Distance         '' @ distance_text (lastDistanceMm a) @ [newline]
     @ ''AOG packet age   '' @ packet_age clk a"

text \<open>The strings of \<open>update_vt_status_strings\<close>, in the order they are sent.\<close>

definition status_strings :: "app_env \<Rightarrow> clock \<Rightarrow> bool \<Rightarrow> 'f app \<Rightarrow> (u16 \<times> string) list" where
  "status_strings env clk aogConnected a =
     (let shown = shown_details env a;
          displayName = take 16 (implementName shown);
          no_clients = (clients (tcServer a) = []);
          st = udp_settings (udp a);
          cfCount = to_string (unat (of_nat (online_functions env) :: u32));
          taskState = (if task_totals_active env then ''RUNNING'' else ''STOPPED'')
      in [(VTWorkingSetStatusLabel, ''AOG IP''),
          (VTAogIPStr, get_bound_ip_address env (udp a)),
          (VTWorkingSetStatusStr, if \<not> have_preferred_address env then ''ADDR!'' else if aogConnected then ''OK'' else ''OFF''),
          (VTSectionsFromAOGS, main_implement_status env a),
          (VTControlFunctionsStr, main_system_status env clk aogConnected a),
          (ConfigHydliftLabel, ''Hydlift: not impl.''),
          (ConfigNmeaReadLabel, ''NMEA Read: N/A''),
          (ConfigNmeaSendLabel, if nmea2000MessageInterface a \<noteq> None then ''NMEA Send: '' @ (if nmeaSendEnabled st then ''ON'' else ''OFF'')
                                else ''NMEA Send: N/A''),
          (ConfigTecuLabel, ''TECU: '' @ (if tecuEnabled st then ''ON'' else ''OFF'') @ '' (restart req)''),
          (NetworkConnectedValue, cfCount),
          (NetworkRows, network_rows env (clients (tcServer a))),
          (ImplementActiveDDOP, displayName),
          (ImplementSectionControl, sectionControl shown),
          (ImplementWorkingWidth, workingWidth shown),
          (ImplementBoomOffset, take 16 (boomOffset shown)),
          (ImplementSectionCount, to_string (unat (implementSections shown))),
          (DiagnosticsValues, if aogConnected then ''ONLINE'' else ''OFFLINE''),
          (DiagnosticsLastPacket, packet_age clk a),
          (DiagnosticsTcAddress, if tc_exists env \<and> tc_address_valid env then format_hex_address (tc_address env) else ''not claimed''),
          (DiagnosticsTaskState, taskState),
          (DiagnosticsActiveDDOP, if no_clients then ''none'' else displayName),
          (DiagnosticsTcClients, to_string (length (clients (tcServer a)))),
          (DiagnosticsAlarmValue, alarm_text env aogConnected no_clients)])"

definition update_vt_status_strings :: "app_env \<Rightarrow> clock \<Rightarrow> bool \<Rightarrow> 'f app \<Rightarrow> vt_state \<Rightarrow> vt_state" where
  "update_vt_status_strings env clk aogConnected a v =
     fold (\<lambda>(objectID, s). send_vt_string_if_changed objectID s) (status_strings env clk aogConnected a)
       (v\<lparr>lastVtStatusUpdateMs := timestamp_ms clk\<rparr>)"

section \<open>The cycle\<close>

definition aog_connected :: "clock \<Rightarrow> 'f app \<Rightarrow> bool" where
  "aog_connected clk a \<longleftrightarrow> lastAogPacketMs a \<noteq> 0 \<and> \<not> time_expired_ms clk (lastAogPacketMs a) 3000"

definition set_helper_values :: "clock \<Rightarrow> 'f app \<Rightarrow> vt_state \<Rightarrow> vt_state" where
  "set_helper_values clk a =
     vt_emit
       [HelperNumeric VTSpeedValue (if aog_connected clk a then abs32 (lastSpeedValue a) else 0),
        HelperNumeric VTXteValue (if aog_connected clk a then lastXteValue a XOR 0x80000000 else 0x80000000),
        HelperNumeric ConfigNmeaSend (flag_value (nmeaSendEnabled (udp_settings (udp a)))),
        HelperNumeric ConfigTecuEnabled (flag_value (tecuEnabled (udp_settings (udp a))))]"

definition vt_cycle :: "app_env \<Rightarrow> clock \<Rightarrow> 'f app \<Rightarrow> vt_state \<Rightarrow> vt_state" where
  "vt_cycle env clk a v =
     (if \<not> vtClientStarted v then try_start_vt_client env clk v
      else (let v1 = vt_emit [UpdateClient] v
            in if \<not> vt_connected env then handle_vt_disconnected clk v1
               else (let v2 = update_vt_section_map clk a (set_helper_values clk a
                                (sync_vt_config_once a (log_vt_capabilities_once (note_vt_connected v1))))
                     in if time_expired_ms clk (lastVtStatusUpdateMs v2) 1000
                        then update_vt_status_strings env clk (aog_connected clk a) a v2
                        else v2)))"

definition update_vt_client :: "app_env \<Rightarrow> clock \<Rightarrow> 'f app \<Rightarrow> 'f app" where
  "update_vt_client env clk a = a\<lparr>vtClient := map_option (vt_cycle env clk a) (vtClient a)\<rparr>"

section \<open>Set-up and events\<close>

text \<open>
  \<open>setup_vt_client\<close>. The pool data is generated from the pool file by the build, and the version hash
  is a function of the ISOBUS library.
\<close>

definition scalingCacheSalt :: string where
  "scalingCacheSalt = ''scaled:'' @ to_string ISO_MASK_SIZE @ '':'' @ to_string ISO_DESIGNATOR_HEIGHT @ '':v1''"

definition new_vt :: "bytes \<Rightarrow> (bytes \<Rightarrow> bytes) \<Rightarrow> settings \<Rightarrow> vt_state" where
  "new_vt pool hash_object_pool_to_version st =
     \<lparr>vtClientStarted = False, vtConfigSynced = False, vtWasConnected = False,
      vtConnectionWarningLogged = False, vtCapabilitiesLogged = False, vtDisconnectedSinceMs = 0,
      lastVtStatusUpdateMs = 0, lastVtSectionUpdateMs = 0, lastVtStrings = [],
      vt_out =
        [SetObjectPool pool (hash_object_pool_to_version (pool @ text_bytes scalingCacheSalt)),
         SetScaling ISO_MASK_SIZE ISO_DESIGNATOR_HEIGHT,
         TrackNumeric VTSpeedValue 0,
         TrackNumeric VTXteValue 0,
         TrackNumeric ConfigNmeaSend (flag_value (nmeaSendEnabled st)),
         TrackNumeric ConfigTecuEnabled (flag_value (tecuEnabled st))]\<rparr>"

definition setup_vt_client :: "bytes \<Rightarrow> (bytes \<Rightarrow> bytes) \<Rightarrow> 'f app \<Rightarrow> 'f app" where
  "setup_vt_client pool hash_object_pool_to_version a =
     a\<lparr>vtClient := Some (new_vt pool hash_object_pool_to_version (udp_settings (udp a)))\<rparr>"

text \<open>The listener of the soft keys.\<close>

definition soft_key_mask :: "u16 \<Rightarrow> u16" where
  "soft_key_mask objectID =
     (if objectID = NavStatus then DataMask_1000
      else if objectID = NavNetwork then DataMask_Network
      else if objectID = NavImplement then DataMask_Implement
      else if objectID = NavDiagnostics then DataMask_Diagnostics
      else if objectID = NavConfig then DataMask_Config
      else 0xFFFF)"

definition on_soft_key :: "bool \<Rightarrow> u16 \<Rightarrow> vt_state \<Rightarrow> vt_state" where
  "on_soft_key pressed objectID v =
     (if \<not> pressed then v
      else (let targetMask = soft_key_mask objectID
            in if targetMask \<noteq> 0xFFFF then vt_emit [ChangeActiveMask WorkingSet_0 targetMask] v else v))"

text \<open>
  The listener of numeric values: the two settings. \<open>None\<close> is an exception of \<open>Settings::save\<close>, which
  leaves the listener.
\<close>

definition stored_value :: "u16 \<Rightarrow> settings \<Rightarrow> bool" where
  "stored_value objectID st = (if objectID = ConfigNmeaSend then nmeaSendEnabled st else tecuEnabled st)"

definition config_refused :: "u16 \<Rightarrow> 'f app \<Rightarrow> 'f app" where
  "config_refused objectID a =
     a\<lparr>vtClient := map_option (vt_emit [ChangeNumeric objectID (flag_value (stored_value objectID (udp_settings (udp a))))]) (vtClient a)\<rparr>"

definition with_settings :: "settings \<times> 'f fs \<Rightarrow> 'f app \<Rightarrow> 'f app" where
  "with_settings r a = a\<lparr>udp := (udp a)\<lparr>udp_settings := fst r, udp_files := snd r\<rparr>\<rparr>"

definition on_numeric_value :: "('j, 'f) settings_env \<Rightarrow> u16 \<Rightarrow> u32 \<Rightarrow> 'f app \<Rightarrow> 'f app option" where
  "on_numeric_value senv objectID v a =
     (let enabled = (v \<noteq> 0); st = udp_settings (udp a); files = udp_files (udp a)
      in if objectID = ConfigNmeaSend
         then (case nmea2000MessageInterface a of
                 None \<Rightarrow> Some (config_refused objectID a)
               | Some interface \<Rightarrow>
                   (case set_nmea_send_enabled senv enabled True st files of
                      (None, _) \<Rightarrow> None
                    | (Some True, r) \<Rightarrow>
                        Some ((with_settings r a)\<lparr>nmea2000MessageInterface := Some (interface\<lparr>sending_cyclically := enabled\<rparr>)\<rparr>)
                    | (Some False, r) \<Rightarrow> Some (config_refused objectID (with_settings r a))))
         else if objectID = ConfigTecuEnabled
         then (case set_tecu_enabled senv enabled True st files of
                 (None, _) \<Rightarrow> None
               | (Some True, r) \<Rightarrow> Some (with_settings r a)
               | (Some False, r) \<Rightarrow> Some (config_refused objectID (with_settings r a)))
         else Some a)"

end
