(* ===== verification/Async_Log.thy ===== *)
theory Async_Log
  imports Text_Format "HOL-Library.Sublist"
begin

text \<open>
  The asynchronous log of \<open>src/src/async_log.cpp\<close>: threads collect text in line buffers of their own
  and hand whole lines to a bounded queue, which a writer thread prints. The mutex of the queue is
  held for the body of \<open>submit\<close> and for the two locked parts of \<open>write_lines\<close>, so these are single
  steps; printing happens without the lock, one item per step. The fields \<open>submitted\<close> and \<open>typed\<close>
  record the history and are never read by an operation. Sizes are naturals; \<open>queue_bounded\<close> shows
  that the byte count of the queue stays near eight megabytes, far from the limit of \<open>std::size_t\<close>.
\<close>

section \<open>State\<close>

text \<open>What the writer prints: a notice about lost output, or lines.\<close>

datatype out_item = Notice nat | Chunk string

record alog =
  qlines :: "string list"
  qbytes :: nat
  droppedBytes :: nat
  writing :: bool
  batch :: "string list option"
  pending :: nat
  cout :: "out_item list"
  buffers :: "nat \<Rightarrow> string"
  submitted :: "(nat \<times> string) list"
  typed :: "nat \<Rightarrow> string"

definition empty_log :: alog where
  "empty_log = \<lparr>qlines = [], qbytes = 0, droppedBytes = 0, writing = False, batch = None, pending = 0,
     cout = [], buffers = (\<lambda>_. []), submitted = [], typed = (\<lambda>_. [])\<rparr>"

definition maxQueuedBytes :: nat where
  "maxQueuedBytes = 8 * 1024 * 1024"

section \<open>Submitting lines\<close>

text \<open>The loop that drops the oldest lines while there are too many bytes and more than one line.\<close>

fun drop_oldest :: "string list \<Rightarrow> nat \<Rightarrow> nat \<Rightarrow> string list \<times> nat \<times> nat" where
  "drop_oldest (front # next # rest) n dropped =
     (if n > maxQueuedBytes then drop_oldest (next # rest) (n - length front) (dropped + length front)
      else (front # next # rest, n, dropped))"
| "drop_oldest ls n dropped = (ls, n, dropped)"

definition submit :: "nat \<Rightarrow> string \<Rightarrow> alog \<Rightarrow> alog" where
  "submit t line s =
     (let (ls, n, dropped) = drop_oldest (qlines s @ [line]) (qbytes s + length line) (droppedBytes s)
      in s\<lparr>qlines := ls, qbytes := n, droppedBytes := dropped, submitted := submitted s @ [(t, line)]\<rparr>)"

text \<open>\<open>std::string::rfind\<close>.\<close>

definition rfind :: "char \<Rightarrow> string \<Rightarrow> nat option" where
  "rfind c s = (if c \<in> set s then Some (length s - Suc (length (takeWhile (\<lambda>x. x \<noteq> c) (rev s)))) else None)"

text \<open>\<open>LineBuffer::append\<close>, which \<open>overflow\<close> and \<open>xsputn\<close> call, in the thread \<open>t\<close>.\<close>

definition append_text :: "nat \<Rightarrow> string \<Rightarrow> alog \<Rightarrow> alog" where
  "append_text t text s =
     (let line = buffers s t @ text; s1 = s\<lparr>typed := (typed s)(t := typed s t @ text)\<rparr>
      in case rfind newline line of
           None \<Rightarrow> s1\<lparr>buffers := (buffers s)(t := line)\<rparr>
         | Some e \<Rightarrow> (submit t (take (e + 1) line) s1)\<lparr>buffers := (buffers s)(t := drop (e + 1) line)\<rparr>)"

text \<open>\<open>LineBuffer::overflow\<close> with a character; the end-of-file value appends nothing.\<close>

definition overflow :: "nat \<Rightarrow> char option \<Rightarrow> alog \<Rightarrow> alog" where
  "overflow t ch s = (case ch of Some c \<Rightarrow> append_text t [c] s | None \<Rightarrow> s)"

text \<open>The destructor of the buffer when its thread ends.\<close>

definition thread_exit :: "nat \<Rightarrow> alog \<Rightarrow> alog" where
  "thread_exit t s = (if buffers s t = [] then s else (submit t (buffers s t) s)\<lparr>buffers := (buffers s)(t := [])\<rparr>)"

section \<open>The writer\<close>

text \<open>
  One step of \<open>write_lines\<close>: take everything that is queued, print the notice, print a line, or take
  the lock again. \<open>None\<close>: the thread waits for lines.
\<close>

definition writer_step :: "alog \<Rightarrow> alog option" where
  "writer_step s =
     (case batch s of
        None \<Rightarrow>
          if qlines s = [] then None
          else Some (s\<lparr>batch := Some (qlines s), qlines := [], qbytes := 0, pending := droppedBytes s,
                       droppedBytes := 0, writing := True\<rparr>)
      | Some b \<Rightarrow>
          if pending s \<noteq> 0 then Some (s\<lparr>cout := cout s @ [Notice (pending s)], pending := 0\<rparr>)
          else (case b of
                  line # rest \<Rightarrow> Some (s\<lparr>cout := cout s @ [Chunk line], batch := Some rest\<rparr>)
                | [] \<Rightarrow> Some (s\<lparr>batch := None, writing := False\<rparr>)))"

section \<open>Waiting for the log\<close>

definition drained :: "alog \<Rightarrow> bool" where
  "drained s \<longleftrightarrow> qlines s = [] \<and> \<not> writing s"

text \<open>
  \<open>flush\<close>: every attempt to lock is a pair of whether it succeeded and whether the deadline has
  passed; then every check of the predicate sees a state of the queue and whether the wait timed
  out. \<open>None\<close>: it still waits at the end of what was observed.
\<close>

fun try_lock_loop :: "(bool \<times> bool) list \<Rightarrow> bool option" where
  "try_lock_loop [] = None"
| "try_lock_loop ((locked, late) # polls) =
     (if locked then Some True else if late then Some False else try_lock_loop polls)"

fun wait_until_drained :: "(alog \<times> bool) list \<Rightarrow> bool option" where
  "wait_until_drained [] = None"
| "wait_until_drained ((s, timed_out) # obs) =
     (if drained s then Some True else if timed_out then Some False else wait_until_drained obs)"

definition flush :: "(bool \<times> bool) list \<Rightarrow> (alog \<times> bool) list \<Rightarrow> bool option" where
  "flush polls obs =
     (case try_lock_loop polls of
        None \<Rightarrow> None
      | Some False \<Rightarrow> Some False
      | Some True \<Rightarrow> wait_until_drained obs)"

section \<open>Steps of all threads\<close>

inductive log_step :: "alog \<Rightarrow> alog \<Rightarrow> bool" where
  put: "log_step s (append_text t text s)"
| ending: "log_step s (thread_exit t s)"
| writer: "writer_step s = Some s' \<Longrightarrow> log_step s s'"

inductive_cases log_stepE: "log_step s s'"

section \<open>Line ends\<close>

lemma rfind_Some:
  assumes "rfind c s = Some e"
  shows "e < length s" "s ! e = c" "c \<notin> set (drop (Suc e) s)"
proof -
  have c: "c \<in> set s" and e: "e = length s - Suc (length (takeWhile (\<lambda>x. x \<noteq> c) (rev s)))"
    using assms by (auto simp: rfind_def split: if_splits)
  let ?k = "length (takeWhile (\<lambda>x. x \<noteq> c) (rev s))"
  have k: "?k < length s"
  proof (rule ccontr)
    assume "\<not> ?k < length s"
    then have "takeWhile (\<lambda>x. x \<noteq> c) (rev s) = rev s"
      by (metis length_rev linorder_not_less take_all takeWhile_eq_take)
    with c show False by (auto simp: takeWhile_eq_all_conv)
  qed
  with e show "e < length s" by simp
  have "rev s ! ?k = c" using nth_length_takeWhile [of "\<lambda>x. x \<noteq> c" "rev s"] k by simp
  with k e show "s ! e = c" by (simp add: rev_nth)
  have "Suc e = length s - ?k" using k e by simp
  then have "drop (Suc e) s = rev (take ?k (rev s))" by (simp add: take_rev)
  then have "set (drop (Suc e) s) = set (takeWhile (\<lambda>x. x \<noteq> c) (rev s))"
    by (simp add: takeWhile_eq_take [symmetric])
  then show "c \<notin> set (drop (Suc e) s)" by (auto dest: set_takeWhileD)
qed

lemma rfind_None: "rfind c s = None \<longleftrightarrow> c \<notin> set s"
  by (simp add: rfind_def)

section \<open>The invariant\<close>

definition text_size :: "string list \<Rightarrow> nat" where
  "text_size ls = sum_list (map length ls)"

lemma text_size_simps [simp]: "text_size [] = 0" "text_size (l # ls) = length l + text_size ls" "text_size (xs @ ys) = text_size xs + text_size ys"
  by (simp_all add: text_size_def)

fun chunk_of :: "out_item \<Rightarrow> string list" where
  "chunk_of (Chunk l) = [l]"
| "chunk_of (Notice n) = []"

fun notice_of :: "out_item \<Rightarrow> nat" where
  "notice_of (Chunk l) = 0"
| "notice_of (Notice n) = n"

text \<open>What was printed, is being printed and waits to be printed; and the bytes that were or will be reported lost.\<close>

definition printed :: "alog \<Rightarrow> string list" where
  "printed s = concat (map chunk_of (cout s))"

definition kept :: "alog \<Rightarrow> string list" where
  "kept s = printed s @ (case batch s of None \<Rightarrow> [] | Some b \<Rightarrow> b) @ qlines s"

definition reported :: "alog \<Rightarrow> nat" where
  "reported s = sum_list (map notice_of (cout s)) + pending s + droppedBytes s"

definition thread_text :: "nat \<Rightarrow> alog \<Rightarrow> string" where
  "thread_text t s = concat (map snd (filter (\<lambda>x. fst x = t) (submitted s)))"

definition queue_inv :: "alog \<Rightarrow> bool" where
  "queue_inv s \<longleftrightarrow> qbytes s = text_size (qlines s) \<and> (qbytes s \<le> maxQueuedBytes \<or> length (qlines s) \<le> 1) \<and>
     writing s = (batch s \<noteq> None) \<and> (batch s = None \<longrightarrow> pending s = 0) \<and> (qlines s = [] \<longrightarrow> droppedBytes s = 0) \<and>
     subseq (kept s) (map snd (submitted s)) \<and>
     text_size (map snd (submitted s)) = text_size (kept s) + reported s \<and>
     [] \<notin> snd ` set (submitted s)"

definition thread_inv :: "alog \<Rightarrow> bool" where
  "thread_inv s \<longleftrightarrow> (\<forall>t. thread_text t s @ buffers s t = typed s t) \<and> (\<forall>t. newline \<notin> set (buffers s t))"

definition log_inv :: "alog \<Rightarrow> bool" where
  "log_inv s \<longleftrightarrow> queue_inv s \<and> thread_inv s"

lemmas log_views = kept_def printed_def reported_def

lemma drop_oldest_spec:
  assumes "drop_oldest ls n d = (ls', n', d')" "n = text_size ls"
  shows "\<exists>k. ls' = drop k ls \<and> n' = text_size ls' \<and> text_size (take k ls) + d = d' \<and> (ls \<noteq> [] \<longrightarrow> ls' \<noteq> []) \<and>
    (n' \<le> maxQueuedBytes \<or> length ls' \<le> 1)"
  using assms
proof (induction ls n d rule: drop_oldest.induct)
  case (1 front "next" rest n dropped)
  show ?case
  proof (cases "n > maxQueuedBytes")
    case True
    then obtain k where "ls' = drop k (next # rest)" "n' = text_size ls'" "text_size (take k (next # rest)) + (dropped + length front) = d'"
      "ls' \<noteq> []" "n' \<le> maxQueuedBytes \<or> length ls' \<le> 1"
      using 1 by fastforce
    then show ?thesis by (intro exI [of _ "Suc k"]) simp
  next
    case False
    with 1 show ?thesis by (intro exI [of _ 0]) auto
  qed
qed (auto intro: exI [of _ 0])

lemma submit_cases:
  assumes "qbytes s = text_size (qlines s)"
  obtains k where "submit t line s = s\<lparr>qlines := drop k (qlines s @ [line]), qbytes := text_size (drop k (qlines s @ [line])),
      droppedBytes := droppedBytes s + text_size (take k (qlines s @ [line])), submitted := submitted s @ [(t, line)]\<rparr>"
    "k \<le> length (qlines s)"
    "text_size (drop k (qlines s @ [line])) \<le> maxQueuedBytes \<or> length (drop k (qlines s @ [line])) \<le> 1"
proof -
  obtain ls n d where r: "drop_oldest (qlines s @ [line]) (qbytes s + length line) (droppedBytes s) = (ls, n, d)"
    by (metis prod_cases3)
  have "\<exists>k. ls = drop k (qlines s @ [line]) \<and> n = text_size ls \<and> text_size (take k (qlines s @ [line])) + droppedBytes s = d \<and>
      (qlines s @ [line] \<noteq> [] \<longrightarrow> ls \<noteq> []) \<and> (n \<le> maxQueuedBytes \<or> length ls \<le> 1)"
    by (rule drop_oldest_spec [OF r]) (simp add: assms)
  then obtain k where k: "ls = drop k (qlines s @ [line])" "n = text_size ls" "text_size (take k (qlines s @ [line])) + droppedBytes s = d"
    "ls \<noteq> []" "n \<le> maxQueuedBytes \<or> length ls \<le> 1"
    by blast
  moreover have "k \<le> length (qlines s)" using k(1,4) by (metis drop_all length_append_singleton not_less_eq_eq)
  ultimately show ?thesis
    using r by (intro that [of k]) (simp_all add: submit_def add.commute del: drop_append take_append text_size_simps)
qed

lemma subseq_drop_middle:
  assumes "subseq (A @ B) C"
  shows "subseq (A @ drop k B @ [x]) (C @ [x])"
proof -
  have "subseq (A @ drop k B) (A @ B)"
    by (intro list_emb_append_mono suffix_imp_subseq suffix_drop) simp
  then have "subseq (A @ drop k B) C" using assms by (rule subseq_order.trans)
  then have "subseq ((A @ drop k B) @ [x]) (C @ [x])" by (intro list_emb_append_mono) simp_all
  then show ?thesis by simp
qed

lemma submit_queue_inv [tc_wf]:
  assumes "queue_inv s" "line \<noteq> []"
  shows "queue_inv (submit t line s)"
proof -
  from assms(1) have "qbytes s = text_size (qlines s)" by (simp add: queue_inv_def)
  then obtain k where k: "submit t line s = s\<lparr>qlines := drop k (qlines s @ [line]), qbytes := text_size (drop k (qlines s @ [line])),
      droppedBytes := droppedBytes s + text_size (take k (qlines s @ [line])), submitted := submitted s @ [(t, line)]\<rparr>"
    "k \<le> length (qlines s)"
    "text_size (drop k (qlines s @ [line])) \<le> maxQueuedBytes \<or> length (drop k (qlines s @ [line])) \<le> 1"
    by (rule submit_cases [of s t line])
  let ?A = "printed s @ (case batch s of None \<Rightarrow> [] | Some b \<Rightarrow> b)"
  have split: "text_size (qlines s) = text_size (take k (qlines s)) + text_size (drop k (qlines s))"
    by (metis append_take_drop_id text_size_simps(3))
  have "subseq (?A @ drop k (qlines s) @ [line]) (map snd (submitted s) @ [line])"
    by (rule subseq_drop_middle) (use assms(1) in \<open>simp add: queue_inv_def kept_def\<close>)
  then show ?thesis
    using assms k(2,3) split by (auto simp: queue_inv_def k(1) log_views)
qed

lemma submit_frame [tc_frame, simp]:
  "buffers (submit t line s) = buffers s" "typed (submit t line s) = typed s"
  "submitted (submit t line s) = submitted s @ [(t, line)]" "writing (submit t line s) = writing s"
  "batch (submit t line s) = batch s" "cout (submit t line s) = cout s" "pending (submit t line s) = pending s"
  by (simp_all add: submit_def split: prod.splits)

lemma queue_inv_buffers [simp]:
  "queue_inv (s\<lparr>buffers := b\<rparr>) = queue_inv s" "queue_inv (s\<lparr>typed := y\<rparr>) = queue_inv s"
  by (simp_all add: queue_inv_def log_views)

lemma append_text_inv:
  assumes "log_inv s"
  shows "log_inv (append_text t text s)"
proof (cases "rfind newline (buffers s t @ text)")
  case None
  then have "append_text t text s = s\<lparr>typed := (typed s)(t := typed s t @ text), buffers := (buffers s)(t := buffers s t @ text)\<rparr>"
    by (simp add: append_text_def Let_def)
  moreover have "newline \<notin> set text" using None by (simp add: rfind_None)
  ultimately show ?thesis
    using assms by (auto simp: log_inv_def thread_inv_def thread_text_def)
next
  case (Some e)
  let ?line = "buffers s t @ text"
  let ?s = "s\<lparr>typed := (typed s)(t := typed s t @ text)\<rparr>"
  note e = rfind_Some [OF Some]
  have "queue_inv (submit t (take (e + 1) ?line) ?s)"
    using assms e(1) by (intro tc_wf) (auto simp: log_inv_def)
  moreover have "append_text t text s = (submit t (take (e + 1) ?line) ?s)\<lparr>buffers := (buffers s)(t := drop (e + 1) ?line)\<rparr>"
    using Some by (simp add: append_text_def Let_def del: take_append drop_append)
  ultimately show ?thesis
    using assms e(3) unfolding log_inv_def thread_inv_def thread_text_def
    by (auto simp del: take_append drop_append)
qed

lemma thread_exit_inv:
  assumes "log_inv s"
  shows "log_inv (thread_exit t s)"
  using assms
  by (auto simp: thread_exit_def log_inv_def thread_inv_def thread_text_def intro: tc_wf)

lemma writer_step_inv:
  assumes "log_inv s" "writer_step s = Some s'"
  shows "log_inv s'"
proof (cases "batch s")
  case None
  with assms show ?thesis
    by (auto simp: writer_step_def log_inv_def queue_inv_def thread_inv_def thread_text_def log_views split: if_splits)
next
  case (Some b)
  consider "pending s \<noteq> 0" | "pending s = 0" "b = []" | l ls where "pending s = 0" "b = l # ls" by (cases b) auto
  then show ?thesis
    using assms Some
    by cases (auto simp: writer_step_def log_inv_def queue_inv_def thread_inv_def thread_text_def log_views)
qed

interpretation alog: safe_system log_step log_inv
  by unfold_locales (auto elim!: log_stepE intro: append_text_inv thread_exit_inv writer_step_inv)

lemma empty_log_inv: "log_inv empty_log"
  by (simp add: empty_log_def log_inv_def queue_inv_def thread_inv_def thread_text_def log_views)

lemma reachable_log_inv: "log_step\<^sup>*\<^sup>* empty_log s \<Longrightarrow> log_inv s"
  by (rule alog.reach_inv [OF _ empty_log_inv])

section \<open>Progress\<close>

definition work :: "alog \<Rightarrow> nat" where
  "work s = (if qlines s = [] then 0 else length (qlines s) + 3) +
     (case batch s of None \<Rightarrow> 0 | Some b \<Rightarrow> length b + 1 + (if pending s = 0 then 0 else 1))"

lemma writer_step_work: "writer_step s = Some s' \<Longrightarrow> work s' < work s"
  by (auto simp: writer_step_def work_def split: option.splits list.splits if_splits)

lemma work_0_drained: "log_inv s \<Longrightarrow> drained s \<longleftrightarrow> work s = 0"
  by (auto simp: work_def drained_def log_inv_def queue_inv_def split: option.splits)

lemma quiet_step_work:
  assumes "log_step s s'" "submitted s' = submitted s"
  shows "work s' \<le> work s"
  using assms(1)
proof cases
  case (put t "text")
  then show ?thesis
    using assms(2) by (cases "rfind newline (buffers s t @ text)") (auto simp: append_text_def Let_def work_def)
next
  case (ending t)
  then show ?thesis using assms(2) by (auto simp: thread_exit_def work_def)
next
  case writer
  then show ?thesis by (simp add: writer_step_work less_imp_le)
qed

lemma subseq_same_size:
  assumes "subseq xs ys" "text_size xs = text_size ys" "[] \<notin> set ys"
  shows "xs = ys"
  using assms
proof (induction rule: list_emb.induct)
  case (list_emb_Cons xs ys y)
  have "text_size xs \<le> text_size ys"
    using list_emb_Cons.hyps by (induction rule: list_emb.induct) auto
  with list_emb_Cons.prems show ?case by (auto simp: neq_Nil_conv)
next
  case (list_emb_Nil ys)
  then show ?case by (cases ys) auto
qed auto

lemma drained_accounts:
  assumes "log_inv s" "drained s"
  shows "text_size (map snd (submitted s)) = text_size (printed s) + sum_list (map notice_of (cout s))"
    and "kept s = printed s" "reported s = sum_list (map notice_of (cout s))"
  using assms by (auto simp: drained_def log_inv_def queue_inv_def kept_def reported_def)

lemma nothing_lost:
  assumes "log_inv s" "reported s = 0"
  shows "kept s = map snd (submitted s)"
  using assms by (intro subseq_same_size) (auto simp: log_inv_def queue_inv_def)

lemma wait_until_drained_True: "wait_until_drained obs = Some True \<Longrightarrow> \<exists>s b. (s, b) \<in> set obs \<and> drained s"
  by (induction obs rule: wait_until_drained.induct) (auto split: if_splits)

section \<open>Properties\<close>

text \<open>
  C9 The log keeps order and loses nothing in silence. In every state the threads and the writer can
  reach: what is printed, being printed and queued is, line for line and in the order of submission,
  what was submitted less what was dropped, and the bytes dropped are exactly those a notice reports or
  will report; nothing is missing when there is no notice. The queue holds at most eight megabytes
  unless it holds a single entry. What a thread has written is what it submitted plus an unfinished
  line.
\<close>

theorem log_loses_nothing_silently:
  assumes "log_step\<^sup>*\<^sup>* empty_log s"
  shows "subseq (kept s) (map snd (submitted s)) \<and>
     text_size (map snd (submitted s)) = text_size (kept s) + reported s \<and>
     (reported s = 0 \<longrightarrow> kept s = map snd (submitted s)) \<and>
     (text_size (qlines s) \<le> 8388608 \<or> length (qlines s) \<le> 1) \<and>
     (\<forall>t. thread_text t s @ buffers s t = typed s t \<and> newline \<notin> set (buffers s t))"
proof -
  have inv: "log_inv s" by (rule reachable_log_inv [OF assms])
  then have "text_size (qlines s) \<le> 8388608 \<or> length (qlines s) \<le> 1"
    unfolding log_inv_def queue_inv_def maxQueuedBytes_def by simp metis
  then show ?thesis
    using inv nothing_lost [OF inv] unfolding log_inv_def queue_inv_def thread_inv_def by blast
qed

text \<open>Two threads: one line is complete, one waits for its end; the writer has taken the first.\<close>

definition sample_log0 :: alog where
  "sample_log0 = append_text 2 ''b'' (append_text 1 (''a'' @ [newline]) empty_log)"

definition sample_log :: alog where
  "sample_log = the (writer_step sample_log0)"

lemma sample_log_writer: "writer_step sample_log0 = Some sample_log"
proof -
  have "Option.is_none (writer_step sample_log0) = False" by code_simp
  then show ?thesis by (simp add: sample_log_def Option.is_none_def)
qed

lemma sample_log_reachable: "log_step\<^sup>*\<^sup>* empty_log sample_log"
proof -
  have "log_step\<^sup>*\<^sup>* empty_log sample_log0"
    unfolding sample_log0_def by (meson log_step.put rtranclp.rtrancl_into_rtrancl rtranclp.rtrancl_refl)
  then show ?thesis by (meson log_step.writer rtranclp.rtrancl_into_rtrancl sample_log_writer)
qed

theorem log_loses_nothing_silently_witness:
  "subseq (kept sample_log) [''a'' @ [newline]] \<and> kept sample_log = map snd (submitted sample_log) \<and>
   thread_text 2 sample_log @ ''b'' = typed sample_log 2"
proof -
  have "map snd (submitted sample_log) = [''a'' @ [newline]]" "reported sample_log = 0" "buffers sample_log 2 = ''b''"
    by code_simp+
  then show ?thesis using log_loses_nothing_silently [OF sample_log_reachable] by metis
qed

text \<open>
  C30 When \<open>flush\<close> answers true, the queue was seen in a state in which everything that had been
  submitted was on the console or reported there as dropped, and in which the writer was idle.
\<close>

theorem flush_true_means_written:
  assumes "flush polls obs = Some True" "\<And>s b. (s, b) \<in> set obs \<Longrightarrow> log_step\<^sup>*\<^sup>* empty_log s"
  shows "\<exists>s b. (s, b) \<in> set obs \<and> \<not> writing s \<and> subseq (printed s) (map snd (submitted s)) \<and>
     text_size (map snd (submitted s)) = text_size (printed s) + sum_list (map notice_of (cout s))"
proof -
  have "wait_until_drained obs = Some True"
    using assms(1) by (auto simp: flush_def split: option.splits bool.splits)
  then obtain s b where s: "(s, b) \<in> set obs" "drained s" using wait_until_drained_True by blast
  then have inv: "log_inv s" by (auto intro: reachable_log_inv assms(2))
  have "\<not> writing s" using s(2) by (simp add: drained_def)
  moreover have "subseq (printed s) (map snd (submitted s))"
    using inv drained_accounts(2) [OF inv s(2)] by (simp add: log_inv_def queue_inv_def)
  ultimately show ?thesis using s(1) drained_accounts(1) [OF inv s(2)] by blast
qed

theorem flush_true_means_written_witness:
  "flush [(False, False), (True, False)] [(empty_log, False)] = Some True \<and>
   (\<exists>s b. (s, b) \<in> set [(empty_log, False)] \<and> \<not> writing s \<and> subseq (printed s) (map snd (submitted s)) \<and>
     text_size (map snd (submitted s)) = text_size (printed s) + sum_list (map notice_of (cout s)))"
proof
  show f: "flush [(False, False), (True, False)] [(empty_log, False)] = Some True"
    by (simp add: flush_def drained_def empty_log_def)
  show "\<exists>s b. (s, b) \<in> set [(empty_log, False)] \<and> \<not> writing s \<and> subseq (printed s) (map snd (submitted s)) \<and>
     text_size (map snd (submitted s)) = text_size (printed s) + sum_list (map notice_of (cout s))"
    by (rule flush_true_means_written [OF f]) auto
qed

text \<open>
  C21 The writer catches up: in any endless run of the threads and the writer that is fair to the writer
  (whenever there is something to print, the writer takes a step sooner or later), once no more lines
  are submitted a state is reached in which the queue is drained, so that \<open>flush\<close> succeeds, and in which
  every submitted byte has been printed or reported.
\<close>

theorem log_drains:
  assumes run: "f 0 = empty_log" "\<And>n. log_step (f n) (f (Suc n))"
    and quiet: "\<And>n. N \<le> n \<Longrightarrow> submitted (f n) = submitted (f N)"
    and fair: "\<And>n. \<not> drained (f n) \<Longrightarrow> \<exists>m. n \<le> m \<and> writer_step (f m) = Some (f (Suc m))"
  shows "\<exists>m. N \<le> m \<and> drained (f m) \<and>
    text_size (map snd (submitted (f N))) = text_size (printed (f m)) + sum_list (map notice_of (cout (f m)))"
proof -
  have "log_step\<^sup>*\<^sup>* (f 0) (f n)" for n
    by (induction n) (auto intro: rtranclp.rtrancl_into_rtrancl run(2))
  then have inv: "log_inv (f n)" for n using run(1) by (metis reachable_log_inv)
  have step: "work (f (Suc m)) \<le> work (f m)" if "N \<le> m" for m
    using quiet_step_work [OF run(2)] quiet [of m] quiet [of "Suc m"] that by simp
  have mono: "work (f (n + k)) \<le> work (f n)" if "N \<le> n" for n k
  proof (induction k)
    case (Suc k)
    then show ?case using step [of "n + k"] that by simp
  qed simp
  have "\<exists>m. n \<le> m \<and> drained (f m)" if "N \<le> n" for n
    using that
  proof (induction "work (f n)" arbitrary: n rule: less_induct)
    case less
    show ?case
    proof (cases "drained (f n)")
      case False
      then obtain m where m: "n \<le> m" "writer_step (f m) = Some (f (Suc m))" using fair by blast
      have "work (f (Suc m)) < work (f m)" by (rule writer_step_work [OF m(2)])
      also have "work (f m) \<le> work (f n)" using mono [OF less.prems, of "m - n"] m(1) by simp
      finally obtain k where "Suc m \<le> k" "drained (f k)" using less m(1) by (meson le_SucI le_trans)
      with m(1) show ?thesis by (intro exI [of _ k]) simp
    qed auto
  qed
  then obtain m where m: "N \<le> m" "drained (f m)" by blast
  with drained_accounts(1) [OF inv m(2)] quiet [OF m(1)] show ?thesis by auto
qed

text \<open>The sample run: the writer works whenever it can, otherwise a thread writes nothing.\<close>

definition catch_up :: "alog \<Rightarrow> alog" where
  "catch_up s = (case writer_step s of Some s' \<Rightarrow> s' | None \<Rightarrow> append_text 1 [] s)"

fun sample_run :: "nat \<Rightarrow> alog" where
  "sample_run 0 = empty_log"
| "sample_run (Suc 0) = append_text 1 (''a'' @ [newline]) empty_log"
| "sample_run (Suc (Suc n)) = catch_up (sample_run (Suc n))"

lemma log_step_catch_up: "log_step s (catch_up s)"
  by (auto simp: catch_up_def split: option.splits intro: log_step.intros)

lemma sample_run_step: "log_step (sample_run n) (sample_run (Suc n))"
  by (cases n) (auto intro: log_step.put log_step_catch_up)

lemma sample_run_inv: "log_inv (sample_run n)"
proof -
  have "log_step\<^sup>*\<^sup>* (sample_run 0) (sample_run n)"
    by (induction n) (auto intro: rtranclp.rtrancl_into_rtrancl sample_run_step)
  then show ?thesis using reachable_log_inv by simp
qed

lemma submitted_catch_up: "thread_inv s \<Longrightarrow> submitted (catch_up s) = submitted s"
  by (auto simp: catch_up_def writer_step_def append_text_def Let_def rfind_None [THEN iffD2] thread_inv_def
      split: option.splits list.splits if_splits)

lemma sample_run_quiet: "1 \<le> n \<Longrightarrow> submitted (sample_run n) = submitted (sample_run 1)"
proof (induction n)
  case (Suc n)
  then show ?case
    using sample_run_inv [of n] by (cases n) (auto simp: log_inv_def submitted_catch_up simp del: sample_run.simps(2))
qed simp

lemma writer_step_enabled: "log_inv s \<Longrightarrow> \<not> drained s \<Longrightarrow> writer_step s \<noteq> None"
  by (auto simp: writer_step_def drained_def log_inv_def queue_inv_def split: option.splits list.splits)

lemma sample_run_fair: "\<not> drained (sample_run n) \<Longrightarrow> writer_step (sample_run n) = Some (sample_run (Suc n))"
  using writer_step_enabled [OF sample_run_inv, of n]
  by (cases n) (auto simp: catch_up_def drained_def empty_log_def)

theorem log_drains_witness:
  "\<exists>m. drained (sample_run m) \<and> text_size (printed (sample_run m)) + sum_list (map notice_of (cout (sample_run m))) = 2"
proof -
  have "\<exists>m. 1 \<le> m \<and> drained (sample_run m) \<and>
      text_size (map snd (submitted (sample_run 1))) = text_size (printed (sample_run m)) + sum_list (map notice_of (cout (sample_run m)))"
  proof (rule log_drains)
    show "sample_run 0 = empty_log" by simp
    show "log_step (sample_run n) (sample_run (Suc n))" for n by (rule sample_run_step)
    show "submitted (sample_run n) = submitted (sample_run 1)" if "1 \<le> n" for n using that by (rule sample_run_quiet)
    show "\<exists>m. n \<le> m \<and> writer_step (sample_run m) = Some (sample_run (Suc m))" if "\<not> drained (sample_run n)" for n
      using sample_run_fair [OF that] by blast
  qed
  moreover have "text_size (map snd (submitted (sample_run 1))) = 2" by code_simp
  ultimately show ?thesis by auto
qed

end
