(* ===== verification/Process_Log.thy ===== *)
theory Process_Log
  imports Text_Format Config_Path Async_Log
begin

text \<open>
  The text that reaches the log and the files it goes to: time stamps and tags
  (\<open>src/include/logging_utils.hpp\<close>), the copy of the console in a file and the sink of the CAN
  library's log (\<open>src/src/logging.cpp\<close>), and the crash reports of \<open>src/src/crash_handler.cpp\<close> in its
  POSIX variant. The wall clock is a parameter: the broken-down local time and the milliseconds.
\<close>

section \<open>Time stamps and lines\<close>

record local_time =
  tm_year :: int
  tm_mon :: int
  tm_mday :: int
  tm_hour :: int
  tm_min :: int
  tm_sec :: int
  tm_ms :: nat

definition zero_padded :: "nat \<Rightarrow> int \<Rightarrow> string" where
  "zero_padded w n = pad_left w (CHR ''0'') (int_to_string n)"

definition get_timestamp :: "local_time \<Rightarrow> string" where
  "get_timestamp t = zero_padded 2 (tm_hour t) @ '':'' @ zero_padded 2 (tm_min t) @ '':'' @ zero_padded 2 (tm_sec t)
     @ ''.'' @ zero_padded 3 (int (tm_ms t))"

definition log_line :: "local_time \<Rightarrow> string \<Rightarrow> string" where
  "log_line t text = ''['' @ get_timestamp t @ ''] '' @ text @ [newline]"

definition log_tagged :: "local_time \<Rightarrow> string \<Rightarrow> string \<Rightarrow> string" where
  "log_tagged t tag text = log_line t (''['' @ tag @ ''] '' @ text)"

datatype logging_level = Debug | Info | Warning | Error | Critical

fun level_text :: "logging_level \<Rightarrow> string" where
  "level_text Debug = ''[Debug]''"
| "level_text Info = ''[Info]''"
| "level_text Warning = ''[Warn]''"
| "level_text Error = ''[Error]''"
| "level_text Critical = ''[Critical]''"

text \<open>\<open>CustomLogger::sink_CAN_stack_log\<close> in the thread that logs.\<close>

definition sink_CAN_stack_log :: "nat \<Rightarrow> local_time \<Rightarrow> logging_level \<Rightarrow> string \<Rightarrow> alog \<Rightarrow> alog" where
  "sink_CAN_stack_log thread t level text s =
     append_text thread (text @ [newline]) (append_text thread (level_text level)
       (append_text thread (''['' @ get_timestamp t @ ''] '') s))"

section \<open>The copy in a file\<close>

definition log_file_name :: "local_time \<Rightarrow> string" where
  "log_file_name t = ''logs/AOG-TaskController_'' @ int_to_string (tm_year t + 1900) @ ''-'' @ int_to_string (tm_mon t + 1)
     @ ''-'' @ int_to_string (tm_mday t) @ ''_'' @ int_to_string (tm_hour t) @ ''-'' @ int_to_string (tm_min t) @ ''.log''"

text \<open>
  \<open>TeeStreambuf\<close>: once it is installed, every character goes to the console and to the file.
  \<open>fileStream.put\<close> on a stream that could not be opened does nothing.
\<close>

record tee =
  tee_console :: string
  tee_file :: "string option"

fun tee_overflow :: "char option \<Rightarrow> tee \<Rightarrow> tee" where
  "tee_overflow None s = s"
| "tee_overflow (Some c) s = s\<lparr>tee_console := tee_console s @ [c], tee_file := map_option (\<lambda>f. f @ [c]) (tee_file s)\<rparr>"

text \<open>
  \<open>setup_file_logging\<close>: the file is opened for appending, the message about it goes to the console
  before the buffer is exchanged. \<open>None\<close>: \<open>get_filename_path\<close> throws.
\<close>

definition setup_file_logging :: "os_env \<Rightarrow> (string \<Rightarrow> string option) \<Rightarrow> local_time \<Rightarrow> string \<Rightarrow> tee option" where
  "setup_file_logging env open_append t console =
     (case get_filename_path env (log_file_name t) of
        None \<Rightarrow> None
      | Some path \<Rightarrow> Some \<lparr>tee_console = console @ ''Logging to file: '' @ path @ [newline], tee_file = open_append path\<rparr>)"

lemma tee_copies:
  "tee_console (fold (tee_overflow \<circ> Some) cs s) = tee_console s @ cs"
  "tee_file (fold (tee_overflow \<circ> Some) cs s) = map_option (\<lambda>f. f @ cs) (tee_file s)"
  by (induction cs arbitrary: s) (auto simp: option.map_comp comp_def option.map_ident)

section \<open>Crash reports\<close>

text \<open>\<open>std::snprintf\<close> into 32 bytes keeps at most 31 characters.\<close>

definition crash_stamp :: "local_time \<Rightarrow> string" where
  "crash_stamp t = take 31 (zero_padded 4 (tm_year t + 1900) @ ''-'' @ zero_padded 2 (tm_mon t + 1) @ ''-'' @ zero_padded 2 (tm_mday t)
     @ ''_'' @ zero_padded 2 (tm_hour t) @ ''-'' @ zero_padded 2 (tm_min t) @ ''-'' @ zero_padded 2 (tm_sec t))"

definition crash_file_path :: "os_env \<Rightarrow> local_time \<Rightarrow> string \<Rightarrow> string" where
  "crash_file_path env t extension =
     (case get_filename_path env (''logs/crash_'' @ crash_stamp t @ extension) of
        Some path \<Rightarrow> path
      | None \<Rightarrow> ''crash_'' @ crash_stamp t @ extension)"

text \<open>
  \<open>log_crash\<close>: the line goes to the crash file, or to the console when the file cannot be opened.
  The files are maps from paths to contents; opening for appending creates the file.
\<close>

definition log_crash :: "os_env \<Rightarrow> local_time \<Rightarrow> string \<Rightarrow> (string \<Rightarrow> string option) \<times> string \<Rightarrow> (string \<Rightarrow> string option) \<times> string" where
  "log_crash env t reason st =
     (let path = crash_file_path env t ''.log''; line = ''['' @ get_timestamp t @ ''] [Crash] '' @ reason @ [newline]
      in if os_can_write env path
         then ((fst st)(path \<mapsto> (case fst st path of Some old \<Rightarrow> old | None \<Rightarrow> '''') @ line), snd st)
         else (fst st, snd st @ line))"

text \<open>What \<open>std::terminate\<close> finds: no exception, a standard one with its text, or another.\<close>

datatype thrown = StdException string | UnknownException

definition log_terminate_reason :: "thrown option \<Rightarrow> string" where
  "log_terminate_reason e = ''std::terminate called'' @
     (case e of
        Some (StdException what) \<Rightarrow> '' due to unhandled exception: '' @ what
      | Some UnknownException \<Rightarrow> '' due to an unhandled exception of unknown type''
      | None \<Rightarrow> '' with no active exception (direct std::terminate()/std::abort(), a noexcept violation, or a failure during stack unwinding)'')"

datatype fatal_signal = SIGSEGV | SIGABRT | SIGFPE | SIGILL | SIGBUS | OtherSignal

fun signal_name :: "fatal_signal \<Rightarrow> string" where
  "signal_name SIGSEGV = ''SIGSEGV (segmentation fault)''"
| "signal_name SIGABRT = ''SIGABRT (abort)''"
| "signal_name SIGFPE = ''SIGFPE (arithmetic error)''"
| "signal_name SIGILL = ''SIGILL (illegal instruction)''"
| "signal_name SIGBUS = ''SIGBUS (bus error)''"
| "signal_name OtherSignal = ''unknown signal''"

text \<open>\<open>writeRaw\<close> counts up to the terminating zero of a C string.\<close>

definition write_raw :: "string \<Rightarrow> string \<Rightarrow> string" where
  "write_raw c_string err = err @ takeWhile (\<lambda>c. c \<noteq> CHR 0x00) c_string"

definition fatal_signal_handler :: "fatal_signal \<Rightarrow> string \<Rightarrow> string" where
  "fatal_signal_handler s err =
     write_raw ([newline] @ [CHR 0x00]) (write_raw (signal_name s @ [CHR 0x00])
       (write_raw (''[Crash] Fatal signal: '' @ [CHR 0x00]) err))"

definition fatalSignals :: "fatal_signal list" where
  "fatalSignals = [SIGSEGV, SIGABRT, SIGFPE, SIGILL, SIGBUS]"

lemma fatal_signal_handler_writes:
  "fatal_signal_handler s err = err @ ''[Crash] Fatal signal: '' @ signal_name s @ [newline]"
  by (cases s) (simp_all add: fatal_signal_handler_def write_raw_def newline_def)

end
