(* ===== verification/Command_Line.thy ===== *)
theory Command_Line
  imports Process_Log
begin

text \<open>
  \<open>src/src/main.cpp\<close>: the options of the command line, the choice of the CAN driver, and the loop
  around \<open>Application::update\<close> with its exits. The CAN drivers belong to the ISOBUS library: the model
  stops at the call of a constructor and its arguments. \<open>std::exit\<close> ends the program, so a function
  that may call it answers \<open>Inl\<close> of the exit code.
\<close>

section \<open>Arguments\<close>

datatype can_adapter = NONE | ADAPTER_PCAN_USB | ADAPTER_INNOMAKER_USB2CAN | ADAPTER_RUSOKU_TOUCAN
  | ADAPTER_SYS_TEC_USB2CAN | ADAPTER_SOCKETCAN

record arg_state =
  canAdapter :: can_adapter
  canChannel :: string
  fileLogging :: bool
  log_level :: "logging_level option"
  arg_out :: "string list"

definition no_arguments :: arg_state where
  "no_arguments = \<lparr>canAdapter = NONE, canChannel = [], fileLogging = False, log_level = None, arg_out = []\<rparr>"

definition adapterMap :: "(string \<times> can_adapter) list" where
  "adapterMap =
     [(''peak-pcan'', ADAPTER_PCAN_USB), (''innomaker-usb2can'', ADAPTER_INNOMAKER_USB2CAN),
      (''rusoku-toucan'', ADAPTER_RUSOKU_TOUCAN), (''sys-tec-usb2can'', ADAPTER_SYS_TEC_USB2CAN),
      (''socketcan'', ADAPTER_SOCKETCAN)]"

definition log_levels :: "(string \<times> logging_level) list" where
  "log_levels = [(''debug'', Debug), (''info'', Info), (''warning'', Warning), (''error'', Error), (''critical'', Critical)]"

definition help_text :: "string list" where
  "help_text =
     [''Usage: AOG-TaskController [options]'',
      ''Options:'',
      ''  --help'' @ [CHR 0x09, CHR 0x09] @ ''Show this help message'',
      ''  --version'' @ [CHR 0x09, CHR 0x09] @ ''Show the version of the application'',
      ''  --can_adapter=<driver>'' @ [CHR 0x09] @ ''Select the CAN driver (peak-pcan, innomaker-usb2can, rusoku-toucan, sys-tec-usb2can, socketcan)'',
      ''  --can_channel=<channel>'' @ [CHR 0x09] @ ''Select the CAN channel (numeric, or interface name e.g. can0 for socketcan)'',
      ''  --log_level=<level>'' @ [CHR 0x09] @ ''Set the log level (debug, info, warning, error, critical)'',
      ''  --log2file'' @ [CHR 0x09, CHR 0x09] @ ''Log to file'']"

text \<open>\<open>git::Describe()\<close> and \<open>git::AnyUncommittedChanges()\<close> are generated by the build.\<close>

definition version_text :: "string \<Rightarrow> bool \<Rightarrow> string" where
  "version_text describe dirty = describe @ (if dirty then ''-dirty'' else '''')"

text \<open>The exit code, and what was printed before.\<close>

type_synonym exit = "int \<times> string list"

definition parse_option :: "string \<Rightarrow> string \<Rightarrow> arg_state \<Rightarrow> exit + bool \<times> arg_state" where
  "parse_option version option s =
     (if option = ''--help'' then Inl (0, arg_out s @ help_text)
      else if option = ''--version'' then Inl (0, arg_out s @ [version])
      else if option = ''--log2file'' then Inr (True, s\<lparr>fileLogging := True\<rparr>)
      else Inr (False, s))"

text \<open>The first \<open>=\<close> separates key and value.\<close>

definition split_parameter :: "string \<Rightarrow> (string \<times> string) option" where
  "split_parameter p = (if CHR ''='' \<in> set p
     then Some (takeWhile (\<lambda>c. c \<noteq> CHR ''='') p, tl (dropWhile (\<lambda>c. c \<noteq> CHR ''='') p)) else None)"

definition parse_parameter :: "string \<Rightarrow> arg_state \<Rightarrow> bool \<times> arg_state" where
  "parse_parameter parameter s =
     (case split_parameter parameter of
        None \<Rightarrow> (False, s)
      | Some (key, value) \<Rightarrow>
          if key = ''--can_adapter''
          then (case map_of adapterMap value of
                  Some adapter \<Rightarrow> (True, s\<lparr>canAdapter := adapter\<rparr>)
                | None \<Rightarrow> (False, s\<lparr>arg_out := arg_out s @ [''Unknown CAN adapter: '' @ value]\<rparr>))
          else if key = ''--can_channel'' then (True, s\<lparr>canChannel := value\<rparr>)
          else if key = ''--log_level''
          then (case map_of log_levels value of
                  Some level \<Rightarrow> (True, s\<lparr>log_level := Some level\<rparr>)
                | None \<Rightarrow> (False, s\<lparr>arg_out := arg_out s @ [''Unknown log level: '' @ value]\<rparr>))
          else (False, s))"

text \<open>\<open>ArgumentProcessor::process\<close>: both parsers see the lower-cased argument, their answers are ignored.\<close>

fun process_arguments :: "string \<Rightarrow> string list \<Rightarrow> arg_state \<Rightarrow> exit + bool \<times> arg_state" where
  "process_arguments version [] s = Inr (True, s)"
| "process_arguments version (argument # arguments) s =
     (let arg = map tolower argument
      in case parse_option version arg s of
           Inl e \<Rightarrow> Inl e
         | Inr (_, s1) \<Rightarrow> process_arguments version arguments (snd (parse_parameter arg s1)))"

section \<open>The CAN driver\<close>

text \<open>\<open>std::stoi\<close>: white space, a sign, digits; \<open>None\<close> is an exception (no digits, or not an \<open>int\<close>).\<close>

definition is_space :: "char \<Rightarrow> bool" where
  "is_space c \<longleftrightarrow> c \<in> {CHR '' '', CHR 0x09, CHR 0x0A, CHR 0x0B, CHR 0x0C, CHR 0x0D}"

definition is_digit :: "char \<Rightarrow> bool" where
  "is_digit c \<longleftrightarrow> 48 \<le> (of_char c :: nat) \<and> (of_char c :: nat) \<le> 57"

definition decimal_value :: "string \<Rightarrow> nat" where
  "decimal_value cs = foldl (\<lambda>n c. 10 * n + (of_char c - 48)) 0 cs"

definition stoi :: "string \<Rightarrow> int option" where
  "stoi s =
     (let s1 = dropWhile is_space s;
          negative = (s1 \<noteq> [] \<and> hd s1 = CHR ''-'');
          s2 = (if s1 \<noteq> [] \<and> (hd s1 = CHR ''-'' \<or> hd s1 = CHR ''+'') then tl s1 else s1);
          ds = takeWhile is_digit s2;
          v = (if negative then - int (decimal_value ds) else int (decimal_value ds))
      in if ds = [] then None else if - (2 ^ 31) \<le> v \<and> v < 2 ^ 31 then Some v else None)"

datatype can_driver = PCANBasicWindowsPlugin int | InnoMakerUSB2CANWindowsPlugin int | TouCANPlugin int int
  | SysTecWindowsPlugin u8 | SocketCANInterface string

text \<open>
  What the build has: the Windows drivers and the constant \<open>PCAN_USBBUS1\<close> of their header, or
  SocketCAN. The answer is \<open>None\<close> for an exception, and \<open>Some None\<close> for the null pointer.
\<close>

record build =
  windows_drivers :: bool
  PCAN_USBBUS1 :: int
  socketcan_available :: bool

definition create_can_driver :: "build \<Rightarrow> arg_state \<Rightarrow> can_driver option option" where
  "create_can_driver b args =
     (case canAdapter args of
        ADAPTER_PCAN_USB \<Rightarrow>
          if windows_drivers b then map_option (\<lambda>n. Some (PCANBasicWindowsPlugin (PCAN_USBBUS1 b - 1 + n))) (stoi (canChannel args)) else Some None
      | ADAPTER_INNOMAKER_USB2CAN \<Rightarrow>
          if windows_drivers b then map_option (\<lambda>n. Some (InnoMakerUSB2CANWindowsPlugin (n - 1))) (stoi (canChannel args)) else Some None
      | ADAPTER_RUSOKU_TOUCAN \<Rightarrow>
          if windows_drivers b then map_option (\<lambda>n. Some (TouCANPlugin n n)) (stoi (canChannel args)) else Some None
      | ADAPTER_SYS_TEC_USB2CAN \<Rightarrow>
          if windows_drivers b then map_option (\<lambda>n. Some (SysTecWindowsPlugin (word_of_int n))) (stoi (canChannel args)) else Some None
      | ADAPTER_SOCKETCAN \<Rightarrow>
          if socketcan_available b
          then Some (Some (SocketCANInterface (if canChannel args = [] then ''can0'' else canChannel args))) else Some None
      | NONE \<Rightarrow> Some None)"

text \<open>
  \<open>prepare_application\<close>. Setting up the file log may throw (\<open>file_log_ok\<close> is false), which nothing
  catches; \<open>Crashed\<close> is the end of the program by \<open>std::terminate\<close>.
\<close>

datatype prepared = Exits exit | Crashed | NoDriver "string list" | Driver can_driver "string list"

definition prepare_application :: "build \<Rightarrow> string \<Rightarrow> bool \<Rightarrow> string list \<Rightarrow> prepared" where
  "prepare_application b version file_log_ok arguments =
     (case process_arguments version arguments no_arguments of
        Inl e \<Rightarrow> Exits e
      | Inr (ok, s) \<Rightarrow>
          if fileLogging s \<and> \<not> file_log_ok then Crashed
          else (let out = arg_out s @ [concat (map (\<lambda>arg. arg @ '' '') arguments), ''AOG-TC version: v'' @ version]
                in if \<not> ok then NoDriver (out @ [''Failed to process arguments, exiting...''])
                   else case create_can_driver b s of
                     None \<Rightarrow> Crashed
                   | Some None \<Rightarrow> NoDriver (out @ [''No CAN adapter selected (or selected adapter not compiled into this build).''])
                   | Some (Some driver) \<Rightarrow> Driver driver out))"

section \<open>The main loop\<close>

text \<open>
  A call of the application returns a truth value or throws. One round of the loop is what it reads
  from \<open>running\<close> and how \<open>Application::update\<close> ends; \<open>None\<close> says that the loop still runs after the rounds
  given.
\<close>

datatype call = Returned bool | Threw thrown

datatype app_event = Initialize | Update | Stop | Flush | Logged string | CrashLogged string

fun crash_reason :: "thrown \<Rightarrow> string" where
  "crash_reason (StdException what) = ''Unhandled exception escaped the main loop: '' @ what"
| "crash_reason UnknownException = ''Unhandled exception of unknown type escaped the main loop.''"

fun main_loop :: "(bool \<times> call) list \<Rightarrow> (app_event list \<times> thrown option) option" where
  "main_loop [] = None"
| "main_loop ((running, outcome) # rounds) =
     (if \<not> running then Some ([], None)
      else case outcome of
        Returned True \<Rightarrow> map_option (\<lambda>(events, e). (Update # events, e)) (main_loop rounds)
      | Returned False \<Rightarrow> Some ([Update, Logged ''Something unexpected happened, stopping application...''], None)
      | Threw e \<Rightarrow> Some ([Update], Some e))"

definition shut_down :: "app_event list" where
  "shut_down = [Logged ''Shutting down...'', Stop, Flush]"

definition run_application_loop :: "call \<Rightarrow> (bool \<times> call) list \<Rightarrow> (int \<times> app_event list) option" where
  "run_application_loop init rounds =
     (case init of
        Returned False \<Rightarrow> Some (- 1, [Initialize, Logged ''Failed to initialize application...'', Stop, Flush])
      | Threw e \<Rightarrow> Some (0, [Initialize, CrashLogged (crash_reason e)] @ shut_down)
      | Returned True \<Rightarrow>
          map_option (\<lambda>(events, thrown).
              (0, [Initialize, Logged ''Press Ctrl+C to stop the application...''] @ events
                  @ (case thrown of Some e \<Rightarrow> [CrashLogged (crash_reason e)] | None \<Rightarrow> []) @ shut_down))
            (main_loop rounds))"

text \<open>\<open>main\<close> on POSIX. A program that ends by \<open>std::terminate\<close> has no exit code.\<close>

datatype program_end = ExitCode int | Aborted

definition main_posix :: "build \<Rightarrow> string \<Rightarrow> bool \<Rightarrow> string list \<Rightarrow> call \<Rightarrow> (bool \<times> call) list \<Rightarrow> program_end option" where
  "main_posix b version file_log_ok arguments init rounds =
     (case prepare_application b version file_log_ok arguments of
        Exits (code, _) \<Rightarrow> Some (ExitCode code)
      | Crashed \<Rightarrow> Some Aborted
      | NoDriver _ \<Rightarrow> Some (ExitCode (- 1))
      | Driver _ _ \<Rightarrow> map_option (\<lambda>(code, _). ExitCode code) (run_application_loop init rounds))"

section \<open>Facts about arguments\<close>

text \<open>The values given for a key, in order.\<close>

definition value_for :: "string \<Rightarrow> string \<Rightarrow> string list" where
  "value_for key p = (case split_parameter p of Some (k, v) \<Rightarrow> if k = key then [v] else [] | None \<Rightarrow> [])"

definition given :: "string \<Rightarrow> string list \<Rightarrow> string list" where
  "given key args = concat (map (\<lambda>a. value_for key (map tolower a)) args)"

definition asks_exit :: "string \<Rightarrow> bool" where
  "asks_exit arg \<longleftrightarrow> map tolower arg = ''--help'' \<or> map tolower arg = ''--version''"

definition asks_file :: "string \<Rightarrow> bool" where
  "asks_file arg \<longleftrightarrow> map tolower arg = ''--log2file''"

lemma parse_option_continues:
  "\<not> asks_exit a \<Longrightarrow> parse_option version (map tolower a) s = Inr (asks_file a, s\<lparr>fileLogging := fileLogging s \<or> asks_file a\<rparr>)"
  unfolding parse_option_def asks_exit_def asks_file_def by (simp only: de_Morgan_disj if_False) simp

lemma parse_parameter_fields:
  "canAdapter (snd (parse_parameter p s)) = last (canAdapter s # List.map_filter (map_of adapterMap) (value_for ''--can_adapter'' p))"
  "canChannel (snd (parse_parameter p s)) = last (canChannel s # value_for ''--can_channel'' p)"
  "log_level (snd (parse_parameter p s)) = last (log_level s # map Some (List.map_filter (map_of log_levels) (value_for ''--log_level'' p)))"
  "fileLogging (snd (parse_parameter p s)) = fileLogging s"
  by (auto simp: parse_parameter_def value_for_def List.map_filter_simps split: option.splits)

lemma last_of_last: "last (last (x # xs) # ys) = last (x # xs @ ys)"
  by simp

lemma map_filter_append: "List.map_filter f (xs @ ys) = List.map_filter f xs @ List.map_filter f ys"
  by (simp add: List.map_filter_def)

lemma process_arguments_fields:
  assumes "\<And>a. a \<in> set args \<Longrightarrow> \<not> asks_exit a"
  shows "\<exists>s'. process_arguments version args s = Inr (True, s') \<and>
     canAdapter s' = last (canAdapter s # List.map_filter (map_of adapterMap) (given ''--can_adapter'' args)) \<and>
     canChannel s' = last (canChannel s # given ''--can_channel'' args) \<and>
     log_level s' = last (log_level s # map Some (List.map_filter (map_of log_levels) (given ''--log_level'' args))) \<and>
     fileLogging s' = (fileLogging s \<or> (\<exists>a. a \<in> set args \<and> asks_file a))"
  using assms
proof (induction args arbitrary: s)
  case (Cons a args)
  let ?s = "snd (parse_parameter (map tolower a) (s\<lparr>fileLogging := fileLogging s \<or> asks_file a\<rparr>))"
  have step: "process_arguments version (a # args) s = process_arguments version args ?s"
    using parse_option_continues [of a version s] Cons.prems [of a] by (simp add: Let_def)
  have "given key (a # args) = value_for key (map tolower a) @ given key args" for key by (simp add: given_def)
  then show ?case
    using Cons.IH [of ?s] Cons.prems
    by (simp add: step parse_parameter_fields last_of_last map_filter_append del: last.simps process_arguments.simps)
      (metis parse_parameter_fields(4) arg_state.select_convs(3) arg_state.update_convs(3))
qed (simp add: given_def List.map_filter_simps)

section \<open>Facts about the loop\<close>

lemma round_cases:
  obtains r where "round = (False, r)" | "round = (True, Returned True)" | "round = (True, Returned False)"
    | e where "round = (True, Threw e)"
  by (metis (full_types) call.exhaust surj_pair)

lemma main_loop_ends_ex: "main_loop rounds \<noteq> None \<longleftrightarrow> list_ex (\<lambda>round. \<not> fst round \<or> snd round \<noteq> Returned True) rounds"
proof (induction rounds)
  case (Cons round rounds)
  show ?case by (cases rule: round_cases [of round]) (use Cons in \<open>simp_all\<close>)
qed simp

lemma main_loop_ends: "main_loop rounds \<noteq> None \<longleftrightarrow> (\<exists>round. round \<in> set rounds \<and> (\<not> fst round \<or> snd round \<noteq> Returned True))"
  unfolding main_loop_ends_ex list_ex_iff by blast

lemma main_loop_no_stop: "main_loop rounds = Some (events, e) \<Longrightarrow> Stop \<notin> set events \<and> Flush \<notin> set events"
proof (induction rounds arbitrary: events)
  case (Cons round rounds)
  show ?case
  proof (cases rule: round_cases [of round])
    case 2
    then obtain ev where "main_loop rounds = Some (ev, e)" "events = Update # ev"
      using Cons.prems by auto
    with Cons.IH [of ev] show ?thesis by simp
  qed (use Cons.prems in auto)
qed simp

lemma decimal_value_snoc: "decimal_value (cs @ [c]) = 10 * decimal_value cs + (of_char c - 48)"
  by (simp add: decimal_value_def)

lemma decimal_value_digits:
  "(\<And>d. d \<in> set ds \<Longrightarrow> d < 10) \<Longrightarrow> decimal_value (map digit_char ds) = value_of_digits 10 ds"
proof (induction ds rule: rev_induct)
  case (snoc d ds)
  then have "d < 10" by simp
  then have "of_char (digit_char d) - 48 = d" by (simp add: of_digit_char)
  with snoc show ?case by (simp add: decimal_value_snoc value_of_digits_append mult.commute)
qed (simp add: decimal_value_def value_of_digits_def)

lemma is_digit_char: "d < 10 \<Longrightarrow> is_digit (digit_char d)"
  by (simp add: is_digit_def of_digit_char)

text \<open>A number written in decimal is read back.\<close>

lemma stoi_to_string:
  assumes "n < 2 ^ 31"
  shows "stoi (to_string n) = Some (int n)"
proof -
  let ?s = "to_string n"
  have dig: "is_digit c" if "c \<in> set ?s" for c
    using that by (auto simp: to_string_def intro!: is_digit_char digits_10_less)
  have ne: "?s \<noteq> []" by (simp add: to_string_def)
  have plain: "\<not> is_space c" "c \<noteq> CHR ''-''" "c \<noteq> CHR ''+''" if "is_digit c" for c
    using that by (auto simp: is_digit_def is_space_def)
  have "dropWhile is_space ?s = ?s" using dig ne plain(1) by (cases ?s) auto
  moreover have "takeWhile is_digit ?s = ?s" using dig by (simp add: takeWhile_eq_all_conv)
  moreover have "hd ?s \<noteq> CHR ''-''" "hd ?s \<noteq> CHR ''+''" using dig ne plain(2,3) by (metis list.set_sel(1))+
  moreover have "decimal_value ?s = n"
    unfolding to_string_def by (subst decimal_value_digits) (auto simp: digits_10_less value_digits_base)
  ultimately show ?thesis using assms ne unfolding stoi_def Let_def by (simp del: takeWhile_eq_all_conv)
qed

section \<open>Properties\<close>

text \<open>
  C32 Arguments: unless one of them asks for help or for the version, parsing ends with the last
  recognised adapter and log level, the last channel and the file log if any argument asks for it, and
  arguments it does not understand change nothing. Everything is read in lower case, the channel too,
  so with SocketCAN the interface that is opened is the lower-cased name, or \<open>can0\<close> when none is given.
\<close>

theorem arguments_last_wins:
  assumes "\<And>a. a \<in> set args \<Longrightarrow> \<not> asks_exit a"
  shows "\<exists>s. process_arguments version args no_arguments = Inr (True, s) \<and>
     canAdapter s = last (NONE # List.map_filter (map_of adapterMap) (given ''--can_adapter'' args)) \<and>
     canChannel s = last ([] # given ''--can_channel'' args) \<and>
     log_level s = last (None # map Some (List.map_filter (map_of log_levels) (given ''--log_level'' args))) \<and>
     fileLogging s = (\<exists>a. a \<in> set args \<and> asks_file a) \<and>
     (canAdapter s = ADAPTER_SOCKETCAN \<longrightarrow> socketcan_available b \<longrightarrow>
        create_can_driver b s = Some (Some (SocketCANInterface (if canChannel s = [] then ''can0'' else canChannel s))))"
proof -
  obtain s where s: "process_arguments version args no_arguments = Inr (True, s)"
    "canAdapter s = last (canAdapter no_arguments # List.map_filter (map_of adapterMap) (given ''--can_adapter'' args))"
    "canChannel s = last (canChannel no_arguments # given ''--can_channel'' args)"
    "log_level s = last (log_level no_arguments # map Some (List.map_filter (map_of log_levels) (given ''--log_level'' args)))"
    "fileLogging s = (fileLogging no_arguments \<or> (\<exists>a. a \<in> set args \<and> asks_file a))"
    using process_arguments_fields [OF assms] by blast
  have "create_can_driver b s = Some (Some (SocketCANInterface (if canChannel s = [] then ''can0'' else canChannel s)))"
    if "canAdapter s = ADAPTER_SOCKETCAN" "socketcan_available b"
    using that by (simp add: create_can_driver_def)
  with s show ?thesis by (intro exI [of _ s]) (simp add: no_arguments_def)
qed

definition sample_arguments :: "string list" where
  "sample_arguments = [''/usr/local/bin/AOG-TaskController'', ''--can_adapter=peak-pcan'', ''--CAN_adapter=SocketCAN'',
     ''--can_channel=vCAN0'', ''--log_level=info'', ''--log2file'', ''--unknown'']"

theorem arguments_last_wins_witness:
  "\<exists>s. process_arguments ''v1'' sample_arguments no_arguments = Inr (True, s) \<and> canAdapter s = ADAPTER_SOCKETCAN \<and>
     canChannel s = ''vcan0'' \<and> log_level s = Some Info \<and> fileLogging s"
proof -
  have "list_all (\<lambda>a. \<not> asks_exit a) sample_arguments" by code_simp
  then have ne: "\<not> asks_exit a" if "a \<in> set sample_arguments" for a using that by (auto simp: list_all_iff)
  have "last (NONE # List.map_filter (map_of adapterMap) (given ''--can_adapter'' sample_arguments)) = ADAPTER_SOCKETCAN"
    "last ([] # given ''--can_channel'' sample_arguments) = ''vcan0''"
    "last (None # map Some (List.map_filter (map_of log_levels) (given ''--log_level'' sample_arguments))) = Some Info"
    "list_ex asks_file sample_arguments"
    by code_simp+
  moreover obtain s where "process_arguments ''v1'' sample_arguments no_arguments = Inr (True, s)"
    "canAdapter s = last (NONE # List.map_filter (map_of adapterMap) (given ''--can_adapter'' sample_arguments))"
    "canChannel s = last ([] # given ''--can_channel'' sample_arguments)"
    "log_level s = last (None # map Some (List.map_filter (map_of log_levels) (given ''--log_level'' sample_arguments)))"
    "fileLogging s = (\<exists>a. a \<in> set sample_arguments \<and> asks_file a)"
    using arguments_last_wins [of sample_arguments "''v1''", OF ne] by blast
  ultimately show ?thesis by (intro exI [of _ s]) (auto simp only: list_ex_iff)
qed

text \<open>
  C20 The main loop ends exactly when \<open>running\<close> is read as false or an update fails or throws. However the
  application ends, after a failed start, a stop request, a failed update or an exception, the last
  things it does are to stop the application, once, and then to wait for the log.
\<close>

theorem loop_shuts_down:
  "(run_application_loop (Returned True) rounds = None \<longleftrightarrow> set rounds \<subseteq> {(True, Returned True)}) \<and>
   (case run_application_loop init rounds of
      None \<Rightarrow> init = Returned True
    | Some (code, events) \<Rightarrow> (\<exists>before. events = before @ [Stop, Flush] \<and> Stop \<notin> set before \<and> Flush \<notin> set before))"
proof
  show "run_application_loop (Returned True) rounds = None \<longleftrightarrow> set rounds \<subseteq> {(True, Returned True)}"
    using main_loop_ends [of rounds] by (fastforce simp: run_application_loop_def)
  show "case run_application_loop init rounds of
      None \<Rightarrow> init = Returned True
    | Some (code, events) \<Rightarrow> (\<exists>before. events = before @ [Stop, Flush] \<and> Stop \<notin> set before \<and> Flush \<notin> set before)"
    using main_loop_no_stop [of rounds]
    by (auto simp: run_application_loop_def shut_down_def split: call.splits bool.splits option.splits)
qed

text \<open>
  C39 The exit code of the POSIX \<open>main\<close>: when a driver was created, the program ends with -1 exactly when
  \<open>initialize\<close> answered false, and with 0 otherwise. So it also ends with 0, as if all was well, after an exception in
  \<open>initialize\<close> or \<open>update\<close> and after an update that answered false.
\<close>

theorem exit_code_hides_failure:
  assumes "prepare_application b version file_log_ok args = Driver driver out"
  shows "main_posix b version file_log_ok args init rounds = Some (ExitCode code) \<longleftrightarrow>
    init = Returned False \<and> code = - 1 \<or>
    (\<exists>e. init = Threw e) \<and> code = 0 \<or>
    init = Returned True \<and> code = 0 \<and> (\<exists>round. round \<in> set rounds \<and> (fst round = False \<or> snd round = Returned False \<or> (\<exists>e. snd round = Threw e)))"
proof -
  have ends: "main_loop rounds \<noteq> None \<longleftrightarrow>
      (\<exists>round. round \<in> set rounds \<and> (fst round = False \<or> snd round = Returned False \<or> (\<exists>e. snd round = Threw e)))"
    unfolding main_loop_ends by (metis (full_types) call.exhaust call.distinct(1) call.inject(1))
  have "main_posix b version file_log_ok args init rounds = map_option (\<lambda>(code, _). ExitCode code) (run_application_loop init rounds)"
    by (simp add: main_posix_def assms)
  then show ?thesis
    using ends by (cases init) (auto simp: run_application_loop_def split: bool.splits)
qed

theorem exit_code_hides_failure_witness:
  "main_posix \<lparr>windows_drivers = False, PCAN_USBBUS1 = 81, socketcan_available = True\<rparr> ''v1'' True
     [''AOG-TaskController'', ''--can_adapter=socketcan''] (Returned True)
     [(True, Returned True), (True, Threw (StdException ''bind: address not available''))] = Some (ExitCode 0)"
proof -
  have "prepare_application \<lparr>windows_drivers = False, PCAN_USBBUS1 = 81, socketcan_available = True\<rparr> ''v1'' True
      [''AOG-TaskController'', ''--can_adapter=socketcan''] =
      Driver (SocketCANInterface ''can0'') [''AOG-TaskController --can_adapter=socketcan '', ''AOG-TC version: vv1'']"
    by code_simp
  from exit_code_hides_failure [OF this] show ?thesis by auto
qed

text \<open>With a Windows driver, a channel that is not a number ends the program before it starts.\<close>

lemma windows_channel_must_be_number:
  assumes "process_arguments version args no_arguments = Inr (True, s)" "windows_drivers b"
    "canAdapter s \<notin> {NONE, ADAPTER_SOCKETCAN}" "stoi (canChannel s) = None"
  shows "prepare_application b version file_log_ok args = Crashed"
  using assms by (cases "canAdapter s") (auto simp: prepare_application_def create_can_driver_def Let_def)

end
