(* ===== verification/App_Setup.thy ===== *)
theory App_Setup
  imports Vt_Client Command_Line
begin

text \<open>
  The start of the application, \<open>Application::initialize\<close> of \<open>src/src/app.cpp\<close>, and its end: starting
  the CAN hardware, claiming addresses for the task controller and the tractor ECU with bounded waits,
  creating the server and the interfaces with what they announce, the virtual terminal client and the
  sockets. The CAN network and the clock change while the program waits, so both are one state of an
  unknown type, read and changed only through the functions of the ISOBUS library. A wait that never
  ends is \<open>None\<close>.
\<close>

section \<open>The network while the program waits\<close>

record cf_name =
  arbitrary_address_capable :: bool
  industry_group :: u8
  device_class :: u8
  identity_number :: u32
  ecu_instance :: u8
  function_instance :: u8
  device_class_instance :: u8
  manufacturer_code :: u16
  function_code :: u8

record 'w can_world =
  get_timestamp_ms :: "'w \<Rightarrow> u32"
  get_time_elapsed_ms :: "'w \<Rightarrow> u32 \<Rightarrow> u32"
  network_update :: "'w \<Rightarrow> 'w"
  sleep_for_ms :: "nat \<Rightarrow> 'w \<Rightarrow> 'w"
  start_hardware :: "'w \<Rightarrow> bool \<times> 'w"
  hardware_is_running :: "'w \<Rightarrow> bool"
  driver_is_valid :: "'w \<Rightarrow> bool"
  driver_last_error :: "'w \<Rightarrow> string"
  create_control_function :: "sender \<Rightarrow> cf_name \<Rightarrow> u8 \<Rightarrow> 'w \<Rightarrow> 'w"
  release_control_function :: "sender \<Rightarrow> 'w \<Rightarrow> 'w"
  cf_address_valid :: "'w \<Rightarrow> sender \<Rightarrow> bool"
  cf_address :: "'w \<Rightarrow> sender \<Rightarrow> u8"
  functions_on_bus :: "'w \<Rightarrow> bus_function option list"

text \<open>A line of the log, without its time stamp, with its tag if it has one, or an empty line.\<close>

datatype log_item = EmptyLine | Line string | Tagged string string

datatype tc_version = DraftInternationalStandard | FinalDraftInternationalStandardFirstEdition
  | FirstPublishedEdition | SecondEditionDraftVersion | SecondPublishedEdition

datatype functionality = TaskControllerBasicServer | TaskControllerGeoServer
  | TaskControllerSectionControlServer | BasicTractorECUServer

text \<open>The calls with which the application configures the objects of the library, in order.\<close>

datatype setup_call =
    SetPacketsPerCts nat
  | CreateServer tc_version
  | SetLanguageCode string
  | SetCountryCode string
  | InitializeServer
  | SetTaskTotalsActive bool
  | SetFunctionality sender functionality nat bool
  | SetPolygonPrescriptionMaps bool
  | SetSectionControlOptions nat nat
  | SetClass1NoOptions bool
  | CreateSpeedMessages bool bool bool bool
  | SetWheelStatesNotAvailable
  | SetNavigationBasedSpeed
  | CreateNmea2000 bool
  | TerminateVtClient
  | TerminateServer
  | StopHardware

record ('f, 'w) application =
  state :: "'f app"
  world :: 'w
  has_tcCF :: bool
  has_tecuCF :: bool
  has_tcServer :: bool
  setup_calls :: "setup_call list"
  setup_log :: "log_item list"

definition say :: "log_item list \<Rightarrow> ('f, 'w) application \<Rightarrow> ('f, 'w) application" where
  "say items p = p\<lparr>setup_log := setup_log p @ items\<rparr>"

definition configure :: "setup_call list \<Rightarrow> ('f, 'w) application \<Rightarrow> ('f, 'w) application" where
  "configure new p = p\<lparr>setup_calls := setup_calls p @ new\<rparr>"

section \<open>Waiting\<close>

text \<open>The loop that lets the network run until a span has passed since \<open>start\<close>.\<close>

partial_function (option) wait_ms :: "'w can_world \<Rightarrow> u32 \<Rightarrow> u32 \<Rightarrow> 'w \<Rightarrow> 'w option" where
  "wait_ms W start span w =
     (if get_time_elapsed_ms W w start < span
      then wait_ms W start span (sleep_for_ms W 10 (network_update W w)) else Some w)"

definition MINIMUM_ADDRESS_CLAIM_DELAY_MS :: u32 where "MINIMUM_ADDRESS_CLAIM_DELAY_MS = 250"
definition MAX_ADDRESS_CLAIM_WAIT_MS :: u32 where "MAX_ADDRESS_CLAIM_WAIT_MS = 5000"
definition MAX_TECU_CLAIM_ATTEMPTS :: nat where "MAX_TECU_CLAIM_ATTEMPTS = 50"
definition TractorECU_ADDRESS :: u8 where "TractorECU_ADDRESS = 240"

partial_function (option) claim_loop :: "'w can_world \<Rightarrow> u32 \<Rightarrow> 'w \<Rightarrow> (bool \<times> 'w) option" where
  "claim_loop W start w =
     (if get_time_elapsed_ms W w start < MAX_ADDRESS_CLAIM_WAIT_MS
      then if cf_address_valid W (network_update W w) TC then Some (True, network_update W w)
           else claim_loop W start (sleep_for_ms W 10 (network_update W w))
      else Some (False, w))"

text \<open>The attempts that are left when the tractor ECU waits for its address.\<close>

fun tecu_claim_loop :: "'w can_world \<Rightarrow> nat \<Rightarrow> 'w \<Rightarrow> 'w" where
  "tecu_claim_loop W 0 w = w"
| "tecu_claim_loop W (Suc n) w =
     (if cf_address_valid W w TECU then w else tecu_claim_loop W n (network_update W (sleep_for_ms W 100 w)))"

text \<open>The delay behind a claim, with the line that announces it (\<open>who\<close> is empty or names the ECU).\<close>

definition claim_delay :: "'w can_world \<Rightarrow> string \<Rightarrow> ('f, 'w) application \<Rightarrow> ('f, 'w) application option" where
  "claim_delay W who p =
     (let claimedTime = get_timestamp_ms W (world p);
          elapsed = get_time_elapsed_ms W (world p) claimedTime
      in if elapsed < MINIMUM_ADDRESS_CLAIM_DELAY_MS
         then (let remainingDelay = MINIMUM_ADDRESS_CLAIM_DELAY_MS - elapsed
               in map_option
                    (\<lambda>w. (say [Tagged ''Init'' (''Waiting '' @ to_string (unat remainingDelay) @ ''ms after '' @ who
                                  @ ''address claim (J1939-81 250ms rule)...'')] p)\<lparr>world := w\<rparr>)
                    (wait_ms W (get_timestamp_ms W (world p)) remainingDelay (world p)))
         else Some p)"

section \<open>The list of control functions\<close>

definition bus_row :: "bus_function \<Rightarrow> string" where
  "bus_row f = ''  Address: '' @ pad_left 3 (CHR '' '') (to_string (unat (bf_address f)))
     @ '' | Mfg: '' @ pad_right 5 (CHR '' '') (to_string (unat (bf_manufacturer_code f)))
     @ '' | Func: '' @ pad_right 3 (CHR '' '') (to_string (unat (bf_function_code f)))
     @ '' | IG: '' @ to_string (unat (bf_industry_group f))
     @ '' | Identity: '' @ pad_left 6 (CHR '' '') (to_string (unat (bf_identity_number f)))
     @ '' | ECU Inst: '' @ to_string (unat (bf_ecu_instance f))
     @ '' | Func Inst: '' @ to_string (unat (bf_function_instance f))
     @ (if bf_is_internal f then '' [INTERNAL]'' else '''')"

definition online_on_bus :: "bus_function option list \<Rightarrow> bus_function list" where
  "online_on_bus fs = filter bf_address_valid (List.map_filter (\<lambda>f. f) fs)"

definition enumerate_bus_control_functions :: "string \<Rightarrow> bus_function option list \<Rightarrow> log_item list" where
  "enumerate_bus_control_functions ctxt allCFs =
     (let rule = replicate 50 (CHR ''=''); online = online_on_bus allCFs
      in [EmptyLine] @ map (Tagged ''Bus CFs'')
           ([ctxt, rule, ''Control Functions on ISOBUS:'', replicate 50 (CHR ''-'')]
            @ map bus_row online
            @ (if length online = 0 then [''  (No control functions detected on bus)''] else [])
            @ [rule, ''Total CFs found: '' @ to_string (length online)]) @ [EmptyLine])"

section \<open>Hardware and addresses\<close>

definition setup_can_hardware :: "'w can_world \<Rightarrow> bool \<Rightarrow> ('f, 'w) application \<Rightarrow> (bool \<times> ('f, 'w) application) option" where
  "setup_can_hardware W has_driver p =
     (if \<not> has_driver
      then Some (False, say [Line ''Unable to find a CAN driver. Please make sure the selected driver is installed.''] p)
      else (case start_hardware W (world p) of (started, w) \<Rightarrow>
              if \<not> started \<or> \<not> driver_is_valid W w
              then Some (False, say [Line (''Failed to start CAN hardware interface.''
                     @ (if driver_last_error W w = '''' then '''' else '' '' @ driver_last_error W w))] (p\<lparr>world := w\<rparr>))
              else map_option (\<lambda>w'. (True, configure [SetPacketsPerCts 255] (p\<lparr>world := w'\<rparr>)))
                     (wait_ms W (get_timestamp_ms W w) 100 w)))"

definition ourNAME :: cf_name where
  "ourNAME = \<lparr>arbitrary_address_capable = True, industry_group = 2, device_class = 0, identity_number = 20,
     ecu_instance = 0, function_instance = 0, device_class_instance = 0, manufacturer_code = 1407, function_code = 0\<rparr>"

text \<open>The codes of the two functions are constants of the library.\<close>

definition tcNAME :: "u8 \<Rightarrow> cf_name" where
  "tcNAME taskController = ourNAME\<lparr>function_code := taskController\<rparr>"

definition tecuNAME :: "u8 \<Rightarrow> cf_name" where
  "tecuNAME tractorECU = ourNAME\<lparr>function_code := tractorECU, arbitrary_address_capable := False, ecu_instance := 0\<rparr>"

definition tecu_refused :: "'w can_world \<Rightarrow> ('f, 'w) application \<Rightarrow> ('f, 'w) application" where
  "tecu_refused W p =
     (say [Tagged ''Warning''
             (if cf_address_valid W (world p) TECU
              then ''TECU claimed unexpected address '' @ to_string (unat (cf_address W (world p) TECU)) @ '' instead of ''
                   @ to_string (unat TractorECU_ADDRESS) @ ''!''
              else ''TECU failed to claim address '' @ to_string (unat TractorECU_ADDRESS) @ ''! Another TECU may be on the bus.''),
           Tagged ''Warning'' ''TECU functionality will be disabled.''] p)
       \<lparr>state := (state p)\<lparr>tecuAddressClaimFailed := True\<rparr>, has_tecuCF := False,
        world := release_control_function W TECU (world p)\<rparr>"

text \<open>The part that creates the tractor ECU.\<close>

definition setup_tecu :: "'w can_world \<Rightarrow> u8 \<Rightarrow> ('f, 'w) application \<Rightarrow> ('f, 'w) application option" where
  "setup_tecu W tractorECU p =
     (let w1 = create_control_function W TECU (tecuNAME tractorECU) TractorECU_ADDRESS (world p);
          w2 = tecu_claim_loop W MAX_TECU_CLAIM_ATTEMPTS w1;
          p2 = (say [Tagged ''Init'' ''Creating Tractor ECU control function...'',
                     Tagged ''Init'' ''Tractor ECU control function created, waiting for address claim...''] p)
               \<lparr>world := w2, has_tecuCF := True\<rparr>
      in if cf_address_valid W w2 TECU \<and> cf_address W w2 TECU = TractorECU_ADDRESS
         then claim_delay W ''TECU '' (say [Tagged ''Init'' (''TECU claimed address '' @ to_string (unat (cf_address W w2 TECU)))] p2)
         else Some (tecu_refused W p2))"

definition setup_control_functions ::
    "'w can_world \<Rightarrow> u8 \<Rightarrow> u8 \<Rightarrow> ('f, 'w) application \<Rightarrow> (bool \<times> ('f, 'w) application) option" where
  "setup_control_functions W taskController tractorECU p =
     (let p1 = say (enumerate_bus_control_functions ''Before creating internal control functions'' (functions_on_bus W (world p))
                    @ [Tagged ''Init'' ''Creating Task Controller control function...'']) p;
          w1 = create_control_function W TC (tcNAME taskController) PREFERRED_TC_ADDRESS (world p)
      in (case claim_loop W (get_timestamp_ms W w1) w1 of
            None \<Rightarrow> None
          | Some (False, w2) \<Rightarrow>
              Some (False, say [Line ''Failed to claim address for TC server. The control function might be invalid.'']
                             (p1\<lparr>world := w2, has_tcCF := True\<rparr>))
          | Some (True, w2) \<Rightarrow>
              Option.bind (claim_delay W '''' (say [Tagged ''Init'' (''TC claimed address '' @ to_string (unat (cf_address W w2 TC)))]
                             (p1\<lparr>world := w2, has_tcCF := True\<rparr>)))
                (\<lambda>p3. map_option
                   (\<lambda>p4. (True, say (enumerate_bus_control_functions ''After creating internal control functions''
                                       (functions_on_bus W (world p4))) p4))
                   (if tecuEnabled (udp_settings (udp (state p3))) then setup_tecu W tractorECU p3 else Some p3))))"

section \<open>Server and interfaces\<close>

definition tcVersionEnum :: "u8 \<Rightarrow> tc_version" where
  "tcVersionEnum v =
     (if v = 0 then DraftInternationalStandard
      else if v = 1 then FinalDraftInternationalStandardFirstEdition
      else if v = 2 then FirstPublishedEdition
      else if v = 3 then SecondEditionDraftVersion
      else SecondPublishedEdition)"

definition setup_task_controller_server :: "('f, 'w) application \<Rightarrow> ('f, 'w) application" where
  "setup_task_controller_server p =
     (let st = udp_settings (udp (state p))
      in say [Tagged ''Init'' ''TC announced TC-BAS and TC-SC (1 boom / 64 sections) via PGN 64654'']
           (configure [CreateServer (tcVersionEnum (tcVersion st)), SetLanguageCode (languageCode st), SetCountryCode (countryCode st),
              InitializeServer, SetTaskTotalsActive True,
              SetFunctionality TC TaskControllerBasicServer 1 True, SetFunctionality TC TaskControllerGeoServer 1 False,
              SetPolygonPrescriptionMaps False, SetFunctionality TC TaskControllerSectionControlServer 1 True,
              SetSectionControlOptions 1 64]
           (p\<lparr>state := (state p)\<lparr>tcServer := new_server\<rparr>, has_tcServer := True\<rparr>)))"

text \<open>The transmit data of the library's two interfaces starts with values of the library.\<close>

definition setup_tecu_interfaces :: "'w can_world \<Rightarrow> speed_interface \<Rightarrow> cog_sog \<Rightarrow> ('f, 'w) application \<Rightarrow> ('f, 'w) application" where
  "setup_tecu_interfaces W speed0 nmea0 p =
     (let st = udp_settings (udp (state p))
      in if has_tecuCF p \<and> cf_address_valid W (world p) TECU
         then say (map (Tagged ''Init'')
                [''Creating TECU Control Function Functionalities...'', ''TECU announced as Class 1 Tractor ECU (PGN 64654)'',
                 ''Creating Speed Messages Interface on TECU...'', ''Speed Messages Interface created and initialized.'',
                 ''Creating NMEA2000 Message Interface on TECU...'', ''NMEA2000 Message Interface created and initialized.''])
              (configure [SetFunctionality TECU BasicTractorECUServer 2 True, SetClass1NoOptions True,
                 CreateSpeedMessages True True True False, SetWheelStatesNotAvailable, SetNavigationBasedSpeed,
                 CreateNmea2000 (nmeaSendEnabled st)]
              (p\<lparr>state := (state p)\<lparr>speedMessagesInterface := Some speed0,
                 nmea2000MessageInterface := Some (nmea0\<lparr>sending_cyclically := nmeaSendEnabled st\<rparr>)\<rparr>\<rparr>))
         else say [if \<not> tecuEnabled st then Tagged ''Info'' ''Tractor ECU disabled in settings, skipping ECU initialization.''
                   else Tagged ''Warning'' ''TECU Control Function not available, Speed/NMEA interfaces not created''] p)"

section \<open>Start and end\<close>

text \<open>What the start reads besides the network: \<open>open_ok\<close> tells whether the sockets can be opened and bound.\<close>

record ('j, 'f) start_env =
  se_settings :: "('j, 'f) settings_env"
  se_net :: net_env
  se_taskController :: u8
  se_tractorECU :: u8
  se_pool :: bytes
  se_hash :: "bytes \<Rightarrow> bytes"
  se_speed :: speed_interface
  se_cog_sog :: cog_sog
  se_load_error :: string
  se_open_ok :: bool
  se_open_error :: string

definition new_app :: "'f fs \<Rightarrow> 'f app" where
  "new_app fs = \<lparr>udp = \<lparr>packet_rx = rx_initial, address_rx = rx_initial, udp_settings = default_settings, udp_files = fs,
        bound_endpoint = ([0, 0, 0, 0], 0)\<rparr>,
     tcServer = new_server, speedMessagesInterface = None, nmea2000MessageInterface = None,
     nmea2000SequenceIdentifier = 0, xteSid = 0, lastXteTransmit = 0, lastJ1939SpeedTransmit = 0, lastTCStatusTransmit = 0,
     lastSpeedValue = 0, lastXteValue = 0, gnssFixQuality = 0, lastGnssQualityMs = 0, lastDistanceMm = 0, lastAogPacketMs = 0,
     sectionDemand = [], loggedSectionDemand = [], sectionDemandChangesSinceLog = 0, lastSectionDemandMs = 0,
     lastSectionDemandLogMs = 0, sectionDemandArriving = False, workingWithoutDemand = [], tcAddressConflictActive = False,
     tecuAddressClaimFailed = False, implementSnapshots = [], lastSectionDemandCheckMs = 0, lastConflictCheck = 0,
     lastImplementScanMs = 0, lastHeartbeatTransmit = 0, lastGnssSendMs = 0,
     lastUpdateCallMs = 0, lastSpeedUpdateCallMs = 0, lastTcServerUpdateCallMs = 0, late_log = [], vtClient = None,
     udp_out = [], can_out = []\<rparr>"

definition new_application :: "'f fs \<Rightarrow> 'w \<Rightarrow> ('f, 'w) application" where
  "new_application fs w = \<lparr>state = new_app fs, world = w, has_tcCF = False, has_tecuCF = False, has_tcServer = False,
     setup_calls = [], setup_log = []\<rparr>"

text \<open>
  \<open>UdpConnections::open\<close>. The second socket is bound to any address and port 8888, which is not part of
  the state. \<open>None\<close>: one of the socket calls throws.
\<close>

definition udp_open :: "net_env \<Rightarrow> bool \<Rightarrow> 'f udp_state \<Rightarrow> 'f udp_state option" where
  "udp_open net sockets_ok u =
     (if \<not> sockets_ok then None
      else Some (u\<lparr>bound_endpoint :=
             get_local_endpoint (net_platform net) (udp_settings u) (net_interfaces net) (net_resolved net)\<rparr>))"

definition setup_udp_connections :: "('j, 'f) start_env \<Rightarrow> ('f, 'w) application \<Rightarrow> call \<times> ('f, 'w) application" where
  "setup_udp_connections env p =
     (case udp_open (se_net env) (se_open_ok env) (udp (state p)) of
        None \<Rightarrow> (Threw (StdException (se_open_error env)), p)
      | Some u \<Rightarrow> (Returned True, say [Line ''UDP connections opened.''] (p\<lparr>state := (state p)\<lparr>udp := u\<rparr>\<rparr>)))"

text \<open>Everything behind the address claims.\<close>

definition setup_services :: "'w can_world \<Rightarrow> ('j, 'f) start_env \<Rightarrow> ('f, 'w) application \<Rightarrow> call \<times> ('f, 'w) application" where
  "setup_services W env p =
     (let p1 = say [Line ''Task controller server started.'']
                 (setup_tecu_interfaces W (se_speed env) (se_cog_sog env) (setup_task_controller_server p));
          p2 = (if vtEnabled (udp_settings (udp (state p1)))
                then p1\<lparr>state := setup_vt_client (se_pool env) (se_hash env) (state p1)\<rparr>
                else say [Tagged ''Info'' ''VT UI disabled in settings, skipping VT client.''] p1)
      in setup_udp_connections env p2)"

definition initialize :: "'w can_world \<Rightarrow> ('j, 'f) start_env \<Rightarrow> bool \<Rightarrow> ('f, 'w) application \<Rightarrow> (call \<times> ('f, 'w) application) option" where
  "initialize W env has_driver p =
     (case load_settings (se_settings env) (udp_files (udp (state p))) (udp_settings (udp (state p))) of
        (None, _) \<Rightarrow> Some (Threw (StdException (se_load_error env)), p)
      | (Some _, st) \<Rightarrow>
          Option.bind (setup_can_hardware W has_driver
              (p\<lparr>state := (state p)\<lparr>udp := (udp (state p))\<lparr>udp_settings := st\<rparr>\<rparr>\<rparr>))
            (\<lambda>(started, p1). if \<not> started then Some (Returned False, p1)
               else Option.bind (setup_control_functions W (se_taskController env) (se_tractorECU env) p1)
                      (\<lambda>(claimed, p2). Some (if \<not> claimed then (Returned False, p2) else setup_services W env p2))))"

definition stop :: "'w can_world \<Rightarrow> ('f, 'w) application \<Rightarrow> ('f, 'w) application" where
  "stop W p = configure
     ((case vtClient (state p) of Some v \<Rightarrow> if vtClientStarted v then [TerminateVtClient] else [] | None \<Rightarrow> [])
      @ (if has_tcServer p then [TerminateServer] else [])
      @ (if hardware_is_running W (world p) then [StopHardware] else [])) p"

end
