(* ===== verification/App_Update.thy ===== *)
theory App_Update
  imports Vt_Client
begin

text \<open>
  \<open>Application::update\<close> of \<open>src/src/app.cpp\<close> and what it calls every cycle: the receive handlers,
  the section demand log and check, the address conflict check, the scan for implements, and the
  periodic transmissions (heartbeat, speed, task controller status, GNSS quality). The virtual
  terminal has its own theory, and the library's own \<open>update\<close> calls are not part of the model. One
  call runs at one instant of the clock.
\<close>

section \<open>Section demand\<close>

text \<open>\<open>while ((last + 1 < count) && demand[last + 1]) last++\<close>.\<close>

function run_end :: "bool list \<Rightarrow> nat \<Rightarrow> nat \<Rightarrow> nat" where
  "run_end demand count final = (if final + 1 < count \<and> demand ! (final + 1) then run_end demand count (final + 1) else final)"
  by pat_completeness auto
termination by (relation "measure (\<lambda>(demand, count, final). count - final)") auto

declare run_end.simps [simp del]

definition demand_step :: "bool list \<Rightarrow> nat \<Rightarrow> nat \<Rightarrow> string \<times> nat \<Rightarrow> string \<times> nat" where
  "demand_step demand count i st =
     (case st of (ranges, onCount) \<Rightarrow>
        if \<not> demand ! i \<or> (i > 0 \<and> demand ! (i - 1)) then (ranges, onCount + (if demand ! i then 1 else 0))
        else (let final = run_end demand count i
              in (ranges @ (if onCount = 0 then '''' else '','') @ to_string (i + 1)
                    @ (if final > i then ''-'' @ to_string (final + 1) else ''''), onCount + 1)))"

definition demand_count :: "bool list \<Rightarrow> u8 \<Rightarrow> nat" where
  "demand_count demand n = (if n = 0 then length demand else min (unat n) (length demand))"

definition describe_section_demand :: "bool list \<Rightarrow> u8 \<Rightarrow> string" where
  "describe_section_demand demand n =
     (case fold (demand_step demand (demand_count demand n)) [0..<demand_count demand n] ('''', 0) of
        (ranges, onCount) \<Rightarrow> if onCount = 0 then ''all off'' else to_string onCount @ '' on: '' @ ranges)"

definition log_section_demand :: "clock \<Rightarrow> 'f app \<Rightarrow> 'f app" where
  "log_section_demand clk a =
     (if sectionDemandChangesSinceLog a = 0 \<or> \<not> time_expired_ms clk (lastSectionDemandLogMs a) 200 then a
      else a\<lparr>loggedSectionDemand := sectionDemand a, sectionDemandChangesSinceLog := 0,
             lastSectionDemandLogMs := timestamp_ms clk\<rparr>)"

definition demand_arriving :: "clock \<Rightarrow> 'f app \<Rightarrow> bool" where
  "demand_arriving clk a \<longleftrightarrow> lastSectionDemandMs a \<noteq> 0 \<and> \<not> time_expired_ms clk (lastSectionDemandMs a) 2000"

definition client_working :: "client_state \<Rightarrow> bool" where
  "client_working c = list_ex (\<lambda>i. get_section_actual_state c (of_nat i) = ON) [0..<unat (numberOfSections c)]"

definition client_demanded :: "bool \<Rightarrow> bool list \<Rightarrow> client_state \<Rightarrow> bool" where
  "client_demanded arriving demand c =
     list_ex (\<lambda>i. arriving \<and> i < length demand \<and> demand ! i) [0..<unat (numberOfSections c)]"

definition demand_warning :: "bool \<Rightarrow> bytes" where
  "demand_warning arriving = text_bytes
     (if arriving then ''Implement working, AOG sections off: turn on section Auto''
      else ''Implement working but no field is open in AOG'')"

text \<open>The loop body for one client: forget it, start to watch it, or warn once after ten seconds.\<close>

definition check_client_demand :: "app_env \<Rightarrow> clock \<Rightarrow> bool \<Rightarrow> cf \<times> client_state \<Rightarrow> 'f app \<Rightarrow> 'f app" where
  "check_client_demand env clk arriving entry a =
     (case entry of (client, c) \<Rightarrow>
        let name = get_full_name (app_tc env) client
        in if \<not> isSectionControlEnabled c \<or> \<not> client_working c \<or> client_demanded arriving (sectionDemand a) c
           then a\<lparr>workingWithoutDemand := sm_erase name (workingWithoutDemand a)\<rparr>
           else (let tracked = (case sm_find (workingWithoutDemand a) name of
                                  None \<Rightarrow> \<lparr>sinceMs = timestamp_ms clk, warned = False\<rparr>
                                | Some t \<Rightarrow> t)
                 in if \<not> warned tracked \<and> timestamp_ms clk - sinceMs tracked \<ge> 10000
                    then send_hardware_message (demand_warning arriving) 20 HW_MSG_ALERT
                           (a\<lparr>workingWithoutDemand := sm_put name (tracked\<lparr>warned := True\<rparr>) (workingWithoutDemand a)\<rparr>)
                    else a\<lparr>workingWithoutDemand := sm_put name tracked (workingWithoutDemand a)\<rparr>))"

definition check_section_demand :: "app_env \<Rightarrow> clock \<Rightarrow> 'f app \<Rightarrow> 'f app" where
  "check_section_demand env clk a =
     (let arriving = demand_arriving clk a
      in fold (check_client_demand env clk arriving) (clients (tcServer a)) (a\<lparr>sectionDemandArriving := arriving\<rparr>))"

section \<open>Address conflicts\<close>

definition check_tc_address_conflict :: "app_env \<Rightarrow> bool" where
  "check_tc_address_conflict env \<longleftrightarrow>
     tc_exists env \<and> \<not> (tc_address_valid env \<and> tc_address env = PREFERRED_TC_ADDRESS) \<and>
     list_ex (\<lambda>x. case x of
         None \<Rightarrow> False
       | Some f \<Rightarrow> bf_address_valid f \<and> bf_address f = PREFERRED_TC_ADDRESS \<and> \<not> bf_is_ours f \<and> bf_is_task_controller f)
       (control_functions env)"

definition check_conflict :: "app_env \<Rightarrow> clock \<Rightarrow> 'f app \<Rightarrow> 'f app" where
  "check_conflict env clk a =
     (if time_expired_ms clk (lastConflictCheck a) 15000
      then (let conflictActive = check_tc_address_conflict env;
                a1 = (if conflictActive
                      then send_hardware_message (text_bytes ''TC address conflict: preferred address in use'') 20 HW_MSG_ALERT a
                      else if tcAddressConflictActive a
                      then send_hardware_message (text_bytes ''TC address conflict resolved'') 5 HW_MSG_INFO a
                      else a)
            in a1\<lparr>tcAddressConflictActive := conflictActive, lastConflictCheck := timestamp_ms clk\<rparr>)
      else a)"

section \<open>Implements that come and go\<close>

definition snapshot_of :: "app_env \<Rightarrow> client_state \<Rightarrow> implement_snapshot" where
  "snapshot_of env c =
     (let d = derive_implement_details (app_tc env) c
      in \<lparr>snap_displayName = displayName d, snap_sections = det_sections d, snap_widthText = widthText d\<rparr>)"

fun current_snapshots :: "app_env \<Rightarrow> (cf \<times> client_state) list \<Rightarrow> (u64, implement_snapshot) smap \<Rightarrow>
    (u64, implement_snapshot) smap" where
  "current_snapshots env [] m = m"
| "current_snapshots env ((client, c) # cs) m =
     current_snapshots env cs
       (if numberOfSections c > 0 then sm_put (get_full_name (app_tc env) client) (snapshot_of env c) m else m)"

definition found_message :: "implement_snapshot \<Rightarrow> bytes" where
  "found_message i = text_bytes (''Implement: '' @ snap_displayName i @ '' ('' @ to_string (unat (snap_sections i)) @ '' sections''
     @ (if snap_widthText i \<noteq> [] then '', '' @ snap_widthText i @ '' m'' else '''') @ '')'')"

definition lost_message :: "implement_snapshot \<Rightarrow> bytes" where
  "lost_message i = text_bytes (''Implement lost: '' @ snap_displayName i)"

definition announce_found :: "(u64, implement_snapshot) smap \<Rightarrow> u64 \<times> implement_snapshot \<Rightarrow> 'f app \<Rightarrow> 'f app" where
  "announce_found old e a =
     (if sm_find old (fst e) = None then send_hardware_message (found_message (snd e)) 5 HW_MSG_INFO a else a)"

definition announce_lost :: "(u64, implement_snapshot) smap \<Rightarrow> u64 \<times> implement_snapshot \<Rightarrow> 'f app \<Rightarrow> 'f app" where
  "announce_lost new e a =
     (if sm_find new (fst e) = None then send_hardware_message (lost_message (snd e)) 10 HW_MSG_ALERT a else a)"

definition scan_implements :: "app_env \<Rightarrow> clock \<Rightarrow> 'f app \<Rightarrow> 'f app" where
  "scan_implements env clk a =
     (if time_expired_ms clk (lastImplementScanMs a) 1000
      then (let old = implementSnapshots a;
                new = current_snapshots env (clients (tcServer a)) [];
                a1 = fold (announce_found old) new a;
                a2 = fold (announce_lost new) old a1
            in a2\<lparr>implementSnapshots := new, lastImplementScanMs := timestamp_ms clk\<rparr>)
      else a)"

definition report_claim_failure :: "'f app \<Rightarrow> 'f app" where
  "report_claim_failure a =
     (if tecuAddressClaimFailed a
      then (send_hardware_message (text_bytes ''TECU failed to claim address 240'') 10 HW_MSG_ALERT a)
             \<lparr>tecuAddressClaimFailed := False\<rparr>
      else a)"

section \<open>Periodic transmissions\<close>

definition heartbeat_data :: "client_state \<Rightarrow> bytes" where
  "heartbeat_data c =
     [if isSectionControlEnabled c then 1 else 0, numberOfSections c]
     @ heartbeat_bytes (\<lambda>i. get_section_actual_state c i = ON) (numberOfSections c) 0"

definition send_heartbeat :: "clock \<Rightarrow> 'f app \<Rightarrow> 'f app" where
  "send_heartbeat clk a =
     (if time_expired_ms clk (lastHeartbeatTransmit a) 100
      then (let live = filter (\<lambda>(client, c). numberOfSections c \<noteq> 0) (clients (tcServer a));
                a1 = fold (\<lambda>(client, c). udp_emit 0x80 0xF0 (heartbeat_data c)) live a;
                a2 = (if aogHeartbeatEnabled (udp_settings (udp a)) \<and> live = [] then udp_emit 0x80 0xF0 [0, 0] a1 else a1)
            in a2\<lparr>lastHeartbeatTransmit := timestamp_ms clk\<rparr>)
      else a)"

definition j1939_speed :: "i32 \<Rightarrow> u16" where
  "j1939_speed v = ucast ((abs32 v * 576 + 312) div 625 :: u32)"

definition send_j1939_speed :: "app_env \<Rightarrow> clock \<Rightarrow> 'f app \<Rightarrow> 'f app" where
  "send_j1939_speed env clk a =
     (if time_expired_ms clk (lastJ1939SpeedTransmit a) 100 \<and> tecu_exists env \<and> tecu_address_valid env
      then (let speed = j1939_speed (lastSpeedValue a);
                data = [0xFF, 0xFF, ucast (speed AND 0xFF), ucast (drop_bit 8 speed AND 0xFF), 0xFF, 0xFF, 0xFF, 0xFF]
            in if send_can_ok env
               then (can_emit \<lparr>can_pgn = 0xFEE8, can_data = data, can_sender = TECU\<rparr> a)
                      \<lparr>lastJ1939SpeedTransmit := timestamp_ms clk\<rparr>
               else a)
      else a)"

definition send_task_controller_status_message :: "app_env \<Rightarrow> clock \<Rightarrow> 'f app \<Rightarrow> 'f app" where
  "send_task_controller_status_message env clk a =
     (let statusByte = (if task_totals_active env then 0x01 else 0x00);
          data = [0xFE, 0xFF, 0xFF, 0xFF, statusByte, 0x00, 0x00, 0xFF]
      in (if send_can_ok env then can_emit \<lparr>can_pgn = 0xCB00, can_data = data, can_sender = TC\<rparr> a else a)
           \<lparr>lastTCStatusTransmit := timestamp_ms clk\<rparr>)"

definition send_tc_status :: "app_env \<Rightarrow> clock \<Rightarrow> 'f app \<Rightarrow> 'f app" where
  "send_tc_status env clk a =
     (if time_expired_ms clk (lastTCStatusTransmit a) 2000 \<and> tc_exists env \<and> tc_address_valid env
      then send_task_controller_status_message env clk a else a)"

definition current_gnss_quality :: "clock \<Rightarrow> 'f app \<Rightarrow> u8" where
  "current_gnss_quality clk a =
     (if lastGnssQualityMs a \<noteq> 0
      then (if \<not> time_expired_ms clk (lastGnssQualityMs a) 2000 then gnssFixQuality a else 0)
      else 1)"

definition send_gnss :: "clock \<Rightarrow> 'f app \<Rightarrow> 'f app" where
  "send_gnss clk a =
     (if time_expired_ms clk (lastGnssSendMs a) 250
      then a\<lparr>tcServer := send_gnss_quality (current_gnss_quality clk a) (tcServer a), lastGnssSendMs := timestamp_ms clk\<rparr>
      else a)"

section \<open>One cycle\<close>

definition check_demand_periodically :: "app_env \<Rightarrow> clock \<Rightarrow> 'f app \<Rightarrow> 'f app" where
  "check_demand_periodically env clk a =
     (if time_expired_ms clk (lastSectionDemandCheckMs a) 1000
      then (check_section_demand env clk a)\<lparr>lastSectionDemandCheckMs := timestamp_ms clk\<rparr> else a)"

text \<open>Everything after the request for measurements, in the order of the source.\<close>

definition cycle_work :: "app_env \<Rightarrow> clock \<Rightarrow> 'f app \<Rightarrow> 'f app" where
  "cycle_work env clk a =
     send_gnss clk (send_tc_status env clk (send_j1939_speed env clk (send_heartbeat clk
       (report_claim_failure (scan_implements env clk (check_conflict env clk
         (check_demand_periodically env clk (log_section_demand clk a))))))))"

text \<open>The warning about late calls; a line says by how much and how large the gap was.\<close>

definition warn_if_late :: "string \<Rightarrow> u32 \<Rightarrow> clock \<Rightarrow> u32 \<Rightarrow> late_line list \<times> u32" where
  "warn_if_late label thresholdMs clk lastCallMs =
     (let now = timestamp_ms clk
      in (if lastCallMs \<noteq> 0 \<and> time_expired_ms clk lastCallMs thresholdMs
          then [(label, now - lastCallMs - thresholdMs, now - lastCallMs)] else [], now))"

definition note_update_call :: "clock \<Rightarrow> 'f app \<Rightarrow> 'f app" where
  "note_update_call clk a =
     (let (lines, now) = warn_if_late ''Application::update()'' 200 clk (lastUpdateCallMs a)
      in a\<lparr>late_log := late_log a @ lines, lastUpdateCallMs := now\<rparr>)"

text \<open>The library updates of a cycle; only the checks around them are in this repository.\<close>

definition note_library_calls :: "clock \<Rightarrow> 'f app \<Rightarrow> 'f app" where
  "note_library_calls clk a =
     (let (lines, now) = warn_if_late ''tcServer->update()'' 200 clk (lastTcServerUpdateCallMs a);
          a1 = a\<lparr>late_log := late_log a @ lines, lastTcServerUpdateCallMs := now\<rparr>
      in if speedMessagesInterface a1 = None then a1
         else (let (lines, now) = warn_if_late ''speedMessagesInterface->update()'' 200 clk (lastSpeedUpdateCallMs a1)
               in a1\<lparr>late_log := late_log a1 @ lines, lastSpeedUpdateCallMs := now\<rparr>))"

text \<open>\<open>None\<close> is a receive loop that does not end.\<close>

definition application_update :: "('j, 'f) settings_env \<Rightarrow> net_env \<Rightarrow> app_env \<Rightarrow> clock \<Rightarrow> rx_result \<Rightarrow> rx_result \<Rightarrow>
    'f app \<Rightarrow> 'f app option" where
  "application_update senv net env clk r_address r_packet a =
     (case handle_address_detection senv net r_address (udp a) of
        None \<Rightarrow> None
      | Some u \<Rightarrow>
          (case handle_incoming_packets True r_packet (packet_rx u) of
             None \<Rightarrow> None
           | Some (packets, rx') \<Rightarrow>
               (let a1 = fold (packet_handler env clk) packets ((note_update_call clk a)\<lparr>udp := u\<lparr>packet_rx := rx'\<rparr>\<rparr>)
                in Some (cycle_work env clk (update_vt_client env clk (note_library_calls clk
                     (a1\<lparr>tcServer := request_measurement_commands (app_tc env) (tcServer a1)\<rparr>)))))))"

lemma note_call_frame [simp]:
  "tcServer (note_update_call clk a) = tcServer a" "udp_out (note_update_call clk a) = udp_out a"
  "udp (note_update_call clk a) = udp a" "can_out (note_update_call clk a) = can_out a"
  "tcServer (note_library_calls clk a) = tcServer a" "udp_out (note_library_calls clk a) = udp_out a"
  "udp (note_library_calls clk a) = udp a" "can_out (note_library_calls clk a) = can_out a"
  by (simp_all add: note_update_call_def note_library_calls_def warn_if_late_def Let_def)

lemma update_vt_client_frame [simp]:
  "tcServer (update_vt_client env clk a) = tcServer a" "udp_out (update_vt_client env clk a) = udp_out a"
  "udp (update_vt_client env clk a) = udp a" "can_out (update_vt_client env clk a) = can_out a"
  by (simp_all add: update_vt_client_def)

section \<open>Periodic work\<close>

text \<open>
  The contract every periodic part of \<open>update\<close> keeps: before its period is over it does nothing, and
  when it runs it takes the current time as its new stamp. So it runs at most once per period, however
  often the main loop calls it.
\<close>

locale periodic =
  fixes stamp :: "'s \<Rightarrow> u32" and period :: u32 and work :: "clock \<Rightarrow> 's \<Rightarrow> 's"
  assumes idle: "\<not> time_expired_ms clk (stamp s) period \<Longrightarrow> work clk s = s"
    and stamped: "time_expired_ms clk (stamp s) period \<Longrightarrow> stamp (work clk s) = timestamp_ms clk"
begin

lemma at_most_once:
  assumes "\<not> time_expired_ms later (timestamp_ms clk) period" "time_expired_ms clk (stamp s) period"
  shows "work later (work clk s) = work clk s"
  using assms by (simp add: idle stamped)

lemma quiet_or_stamped: "work clk s = s \<or> stamp (work clk s) = timestamp_ms clk"
  using idle stamped by blast

end

interpretation heartbeat_cycle: periodic lastHeartbeatTransmit 100 send_heartbeat
  by unfold_locales (simp_all add: send_heartbeat_def Let_def)

interpretation scan_cycle: periodic lastImplementScanMs 1000 "scan_implements env" for env
  by unfold_locales (simp_all add: scan_implements_def Let_def)

interpretation conflict_cycle: periodic lastConflictCheck 15000 "check_conflict env" for env
  by unfold_locales (simp_all add: check_conflict_def Let_def)

interpretation demand_cycle: periodic lastSectionDemandCheckMs 1000 "check_demand_periodically env" for env
  by unfold_locales (simp_all add: check_demand_periodically_def)

interpretation gnss_cycle: periodic lastGnssSendMs 250 send_gnss
  by unfold_locales (simp_all add: send_gnss_def)

section \<open>What is sent to AgOpenGPS\<close>

text \<open>An operation that only appends short frames from this program to the outgoing packets.\<close>

definition sends_short :: "'f app \<Rightarrow> 'f app \<Rightarrow> bool" where
  "sends_short a a' \<longleftrightarrow> (\<exists>new. udp_out a' = udp_out a @ new \<and> (\<forall>(src, pgn, data)\<in>set new. src = 0x80 \<and> length data \<le> 62))"

lemma sends_short_refl: "udp_out a' = udp_out a \<Longrightarrow> sends_short a a'"
  by (simp add: sends_short_def)

lemma sends_short_trans: "sends_short a b \<Longrightarrow> sends_short b c \<Longrightarrow> sends_short a c"
  by (auto simp: sends_short_def)

lemma sends_short_message: "sends_short a (send_hardware_message msg d col a)"
  using udp_out_hardware_message [of msg d col a] unfolding sends_short_def by (elim exE, intro exI) auto

lemma sends_short_fold: "(\<And>x b. sends_short b (f x b)) \<Longrightarrow> sends_short a (fold f xs a)"
  by (induction xs arbitrary: a) (auto intro: sends_short_refl sends_short_trans)

lemma sends_short_cong:
  "udp_out b = udp_out a \<Longrightarrow> udp_out b' = udp_out a' \<Longrightarrow> sends_short a a' \<Longrightarrow> sends_short b b'"
  by (simp add: sends_short_def)

lemma sends_short_stamp [simp]: "sends_short a (b\<lparr>lastHeartbeatTransmit := t\<rparr>) \<longleftrightarrow> sends_short a b"
  by (simp add: sends_short_def)

lemma heartbeat_data_length: "length (heartbeat_data c) = 2 + (unat (numberOfSections c) + 7) div 8"
  by (simp add: heartbeat_data_def heartbeat_bytes_length)

lemma heartbeat_data_short: "length (heartbeat_data c) \<le> 34"
  using u8_less_256 [of "numberOfSections c"] by (simp add: heartbeat_data_length)

lemma sends_short_emit: "length data \<le> 62 \<Longrightarrow> sends_short a (udp_emit 0x80 pgn data a)"
  by (simp add: sends_short_def)

lemma sends_short_heartbeat: "sends_short a (send_heartbeat clk a)"
proof -
  define live where "live = filter (\<lambda>(client, c). numberOfSections c \<noteq> 0) (clients (tcServer a))"
  define a1 where "a1 = fold (\<lambda>(client, c). udp_emit 0x80 0xF0 (heartbeat_data c)) live a"
  have "sends_short b (case x of (client, c) \<Rightarrow> udp_emit 0x80 0xF0 (heartbeat_data c) b)"
    for x :: "cf \<times> client_state" and b :: "'a app"
    using heartbeat_data_short by (cases x) (force intro: sends_short_emit order_trans)
  then have "sends_short a a1"
    unfolding a1_def by (intro sends_short_fold) (auto split: prod.split)
  moreover have "sends_short a1 (udp_emit 0x80 0xF0 [0, 0] a1)" by (simp add: sends_short_emit)
  ultimately have "sends_short a (udp_emit 0x80 0xF0 [0, 0] a1)" "sends_short a a1"
    by (auto intro: sends_short_trans)
  moreover have "send_heartbeat clk a = (if time_expired_ms clk (lastHeartbeatTransmit a) 100
      then (if aogHeartbeatEnabled (udp_settings (udp a)) \<and> live = [] then udp_emit 0x80 0xF0 [0, 0] a1 else a1)
        \<lparr>lastHeartbeatTransmit := timestamp_ms clk\<rparr> else a)"
    unfolding send_heartbeat_def Let_def live_def [symmetric] a1_def [symmetric] ..
  ultimately show ?thesis
    by (simp add: sends_short_refl)
qed

lemma sends_short_demand: "sends_short a (check_demand_periodically env clk a)"
proof -
  have "sends_short b (check_client_demand env clk arr e b)" for arr e and b :: "'a app"
    by (cases e) (auto simp: check_client_demand_def Let_def
        intro: sends_short_refl sends_short_cong [OF _ refl sends_short_message])
  then have "sends_short a (check_section_demand env clk a)"
    unfolding check_section_demand_def Let_def
    by (intro sends_short_cong [OF _ refl sends_short_fold]) simp_all
  then show ?thesis
    by (auto simp: check_demand_periodically_def intro: sends_short_refl sends_short_cong [OF refl, rotated])
qed

lemma sends_short_conflict: "sends_short a (check_conflict env clk a)"
  by (auto simp: check_conflict_def Let_def intro: sends_short_refl sends_short_cong [OF refl _ sends_short_message])

lemma sends_short_claim: "sends_short a (report_claim_failure a)"
  by (auto simp: report_claim_failure_def intro: sends_short_refl sends_short_cong [OF refl _ sends_short_message])

lemma sends_short_scan: "sends_short a (scan_implements env clk a)"
proof -
  have found: "sends_short b (announce_found m e b)" and lost: "sends_short b (announce_lost m e b)"
    for m e and b :: "'a app"
    by (auto simp: announce_found_def announce_lost_def intro: sends_short_refl sends_short_message)
  let ?new = "current_snapshots env (clients (tcServer a)) []"
  have "sends_short a (fold (announce_lost ?new) (implementSnapshots a) (fold (announce_found (implementSnapshots a)) ?new a))"
    by (rule sends_short_trans; rule sends_short_fold; rule found lost)
  then show ?thesis
    by (auto simp: scan_implements_def Let_def intro: sends_short_refl sends_short_cong [OF refl])
qed

section \<open>Section demand\<close>

lemma demand_step_count:
  "snd (fold (demand_step demand count) is (ranges, k)) = k + length (filter (\<lambda>i. demand ! i) is)"
proof (induction "is" arbitrary: ranges k)
  case (Cons i "is")
  have "snd (demand_step demand count i (ranges, k)) = k + (if demand ! i then 1 else 0)"
    by (simp add: demand_step_def Let_def)
  then show ?case
    using Cons by (cases "demand_step demand count i (ranges, k)") simp
qed simp

section \<open>Snapshots\<close>

lemma sm_wf_current_snapshots: "sm_wf m \<Longrightarrow> sm_wf (current_snapshots env cs m)"
  by (induction env cs m rule: current_snapshots.induct) (auto simp: smap.wf_put)

lemma keys_current_snapshots:
  "sm_wf m \<Longrightarrow> sm_find (current_snapshots env cs m) name \<noteq> None \<longleftrightarrow>
     sm_find m name \<noteq> None \<or>
     (\<exists>client c. (client, c) \<in> set cs \<and> numberOfSections c > 0 \<and> get_full_name (app_tc env) client = name)"
proof (induction env cs m rule: current_snapshots.induct)
  case (2 env client c cs m)
  then show ?case
    by (auto simp: smap.wf_put smap.find_put)
qed simp

lemma udp_out_announce_fold:
  assumes "\<And>e b. udp_out (f e b) = udp_out b @ out e"
  shows "udp_out (fold f es a) = udp_out a @ concat (map out es)"
  by (induction es arbitrary: a) (simp_all add: assms)

text \<open>The packet an operator message becomes.\<close>

definition message_packets :: "bytes \<Rightarrow> u8 \<Rightarrow> u8 \<Rightarrow> packet list" where
  "message_packets msg duration color =
     (if take (text_length msg) msg = [] then [] else [(0x80, 0xDD, [duration, color] @ take (text_length msg) msg)])"

lemma udp_out_message: "udp_out (send_hardware_message msg d col a) = udp_out a @ message_packets msg d col"
  by (auto simp: send_hardware_message_def message_packets_def Let_def)

lemma concat_map_filter_out: "concat (map (\<lambda>e. if P e then f e else []) es) = concat (map f (filter P es))"
  by (induction es) auto

lemma scan_implements_messages:
  assumes "time_expired_ms clk (lastImplementScanMs a) 1000"
    and new_def: "new = current_snapshots env (clients (tcServer a)) []"
  shows "udp_out (scan_implements env clk a) = udp_out a
     @ concat (map (\<lambda>e. message_packets (found_message (snd e)) 5 HW_MSG_INFO)
         (filter (\<lambda>e. sm_find (implementSnapshots a) (fst e) = None) new))
     @ concat (map (\<lambda>e. message_packets (lost_message (snd e)) 10 HW_MSG_ALERT)
         (filter (\<lambda>e. sm_find new (fst e) = None) (implementSnapshots a)))"
proof -
  have "udp_out (fold (announce_found old) es b) = udp_out b
      @ concat (map (\<lambda>e. if sm_find old (fst e) = None then message_packets (found_message (snd e)) 5 HW_MSG_INFO else []) es)"
    "udp_out (fold (announce_lost old) es b) = udp_out b
      @ concat (map (\<lambda>e. if sm_find old (fst e) = None then message_packets (lost_message (snd e)) 10 HW_MSG_ALERT else []) es)"
    for old es and b :: "'a app"
    by (rule udp_out_announce_fold; simp add: announce_found_def announce_lost_def udp_out_message)+
  then show ?thesis
    using assms by (simp add: scan_implements_def Let_def concat_map_filter_out)
qed

section \<open>The periodic work leaves the task controller alone\<close>

lemma tcServer_fold: "(\<And>x b. tcServer (f x b) = tcServer b) \<Longrightarrow> tcServer (fold f xs a) = tcServer a"
  by (induction xs arbitrary: a) simp_all

lemma tcServer_frame [simp]:
  "tcServer (log_section_demand clk a) = tcServer a" "tcServer (check_conflict env clk a) = tcServer a"
  "tcServer (report_claim_failure a) = tcServer a" "tcServer (send_j1939_speed env clk a) = tcServer a"
  "tcServer (send_tc_status env clk a) = tcServer a"
  by (simp_all add: log_section_demand_def check_conflict_def report_claim_failure_def send_j1939_speed_def
      send_tc_status_def send_task_controller_status_message_def can_emit_def Let_def)

lemma tcServer_demand [simp]: "tcServer (check_demand_periodically env clk a) = tcServer a"
proof -
  have "tcServer (check_client_demand env clk arr e b) = tcServer b" for arr e and b :: "'a app"
    by (cases e) (simp add: check_client_demand_def Let_def)
  then show ?thesis
    by (simp add: check_demand_periodically_def check_section_demand_def Let_def tcServer_fold)
qed

lemma tcServer_scan [simp]: "tcServer (scan_implements env clk a) = tcServer a"
  by (simp add: scan_implements_def Let_def tcServer_fold announce_found_def announce_lost_def)

lemma tcServer_heartbeat [simp]: "tcServer (send_heartbeat clk a) = tcServer a"
proof -
  have "tcServer (fold (\<lambda>(client, c). udp_emit 0x80 0xF0 (heartbeat_data c)) live b) = tcServer b"
    for live :: "(cf \<times> client_state) list" and b :: "'a app"
    by (rule tcServer_fold) (simp split: prod.split)
  then show ?thesis by (simp add: send_heartbeat_def Let_def)
qed

lemma udp_out_packets: "udp_out (fold (packet_handler env clk) ps b) = udp_out b"
  by (induction ps arbitrary: b) (auto simp: packet_handler_udp_out)

lemma udp_out_frame [simp]:
  "udp_out (log_section_demand clk a) = udp_out a" "udp_out (send_j1939_speed env clk a) = udp_out a"
  "udp_out (send_tc_status env clk a) = udp_out a" "udp_out (send_gnss clk a) = udp_out a"
  by (simp_all add: log_section_demand_def send_j1939_speed_def send_tc_status_def send_gnss_def
      send_task_controller_status_message_def can_emit_def Let_def)

lemma send_gnss_tcServer:
  "tcServer (send_gnss clk a) = tcServer a \<or> (\<exists>q. tcServer (send_gnss clk a) = send_gnss_quality q (tcServer a))"
  by (auto simp: send_gnss_def)

text \<open>So the task controller sees, in one cycle, the packets, one request and possibly the GNSS quality.\<close>

lemma cycle_work_tcServer:
  "tcServer (cycle_work env clk a) = tcServer a \<or> (\<exists>q. tcServer (cycle_work env clk a) = send_gnss_quality q (tcServer a))"
proof -
  define b where "b = send_tc_status env clk (send_j1939_speed env clk (send_heartbeat clk
      (report_claim_failure (scan_implements env clk (check_conflict env clk
        (check_demand_periodically env clk (log_section_demand clk a)))))))"
  have "cycle_work env clk a = send_gnss clk b" by (simp only: cycle_work_def b_def)
  moreover have "tcServer b = tcServer a" by (simp add: b_def)
  ultimately show ?thesis using send_gnss_tcServer [of clk b] by simp
qed

lemma sends_short_unchanged:
  "sends_short a (log_section_demand clk a)" "sends_short a (send_j1939_speed env clk a)"
  "sends_short a (send_tc_status env clk a)" "sends_short a (send_gnss clk a)"
  by (rule sends_short_refl; simp)+

lemma cycle_work_sends: "sends_short a (cycle_work env clk a)"
proof -
  note steps = sends_short_unchanged(1) [of a clk] sends_short_demand [of _ env clk] sends_short_conflict [of _ env clk]
    sends_short_scan [of _ env clk] sends_short_claim sends_short_heartbeat [of _ clk]
    sends_short_unchanged(2) [of _ env clk] sends_short_unchanged(3) [of _ env clk] sends_short_unchanged(4) [of _ clk]
  show ?thesis
    unfolding cycle_work_def
    by (rule sends_short_trans [OF _ steps(9)], rule sends_short_trans [OF _ steps(8)], rule sends_short_trans [OF _ steps(7)],
        rule sends_short_trans [OF _ steps(6)], rule sends_short_trans [OF _ steps(5)], rule sends_short_trans [OF _ steps(4)],
        rule sends_short_trans [OF _ steps(3)], rule sends_short_trans [OF _ steps(2)], rule steps(1))
qed

lemma application_update_cases:
  assumes "application_update senv net env clk r_address r_packet a = Some a'"
  obtains u packets rx' a1 where "handle_address_detection senv net r_address (udp a) = Some u"
    "handle_incoming_packets True r_packet (packet_rx u) = Some (packets, rx')"
    "a1 = fold (packet_handler env clk) packets ((note_update_call clk a)\<lparr>udp := u\<lparr>packet_rx := rx'\<rparr>\<rparr>)"
    "a' = cycle_work env clk (update_vt_client env clk (note_library_calls clk
       (a1\<lparr>tcServer := request_measurement_commands (app_tc env) (tcServer a1)\<rparr>)))"
  using assms unfolding application_update_def Let_def by (auto split: option.splits)

lemma application_update_sends:
  assumes "application_update senv net env clk r_address r_packet a = Some a'"
  shows "sends_short a a'"
  using assms
proof (rule application_update_cases)
  fix u packets rx' a1
  assume a1: "a1 = fold (packet_handler env clk) packets ((note_update_call clk a)\<lparr>udp := u\<lparr>packet_rx := rx'\<rparr>\<rparr>)"
    and a': "a' = cycle_work env clk (update_vt_client env clk (note_library_calls clk
      (a1\<lparr>tcServer := request_measurement_commands (app_tc env) (tcServer a1)\<rparr>)))"
  have "sends_short a (update_vt_client env clk (note_library_calls clk
      (a1\<lparr>tcServer := request_measurement_commands (app_tc env) (tcServer a1)\<rparr>)))"
    by (rule sends_short_refl) (simp add: a1 udp_out_packets)
  then show ?thesis unfolding a' using cycle_work_sends sends_short_trans by blast
qed

end
