(* ===== verification/App_Properties.thy ===== *)
theory App_Properties
  imports App_Update Tc_Samples
begin

text \<open>
  Properties of the application: what AgOpenGPS is told, what its packets mean to the vehicle bus and
  how the periodic work behaves.
\<close>

section \<open>Towards AgOpenGPS\<close>

text \<open>
  C36 The heartbeat: for a client it is the mode, the section count and one bit per section, least
  significant first, set exactly for the sections whose actual state is on; bits past the last
  section are clear and there are no further bytes.
\<close>

theorem heartbeat_reports_actual:
  "\<exists>bits. heartbeat_data c = [if isSectionControlEnabled c then 1 else 0, numberOfSections c] @ bits \<and>
     length bits = (unat (numberOfSections c) + 7) div 8 \<and>
     (\<forall>j i. j < length bits \<longrightarrow> i < 8 \<longrightarrow> bit (bits ! j) i =
        (8 * j + i < unat (numberOfSections c) \<and> get_section_actual_state c (of_nat (8 * j + i)) = ON))"
  unfolding heartbeat_data_def
  by (intro exI [of _ "heartbeat_bytes (\<lambda>i. get_section_actual_state c i = ON) (numberOfSections c) 0"])
    (simp add: heartbeat_bytes_length bit_heartbeat_bytes)

theorem heartbeat_reports_actual_witness:
  "\<exists>bits. heartbeat_data sprayer = [1, 20] @ bits \<and> length bits = 3 \<and> \<not> bit (bits ! 2) 7"
proof -
  obtain bits where "heartbeat_data sprayer = [1, 20] @ bits" "length bits = 3"
    "\<forall>j i. j < length bits \<longrightarrow> i < 8 \<longrightarrow> bit (bits ! j) i =
        (8 * j + i < 20 \<and> get_section_actual_state sprayer (of_nat (8 * j + i)) = ON)"
    using heartbeat_reports_actual [of sprayer] by (auto simp: sprayer_fields)
  then show ?thesis by (intro exI [of _ bits]) auto
qed

text \<open>
  Which heartbeats go out: once per period, one per client with sections in the order of the
  clients, and if there is none and the setting asks for it, a single one with no sections.
\<close>

theorem heartbeats_sent:
  assumes "time_expired_ms clk (lastHeartbeatTransmit a) 100"
    "live = filter (\<lambda>(client, c). numberOfSections c \<noteq> 0) (clients (tcServer a))"
  shows "udp_out (send_heartbeat clk a) = udp_out a @ map (\<lambda>(client, c). (0x80, 0xF0, heartbeat_data c)) live
       @ (if aogHeartbeatEnabled (udp_settings (udp a)) \<and> live = [] then [(0x80, 0xF0, [0, 0])] else []) \<and>
     (\<forall>later. \<not> time_expired_ms later (timestamp_ms clk) 100 \<longrightarrow>
        send_heartbeat later (send_heartbeat clk a) = send_heartbeat clk a)"
proof -
  have "udp_out (fold (\<lambda>(client, c). udp_emit 0x80 0xF0 (heartbeat_data c)) xs b) =
      udp_out b @ map (\<lambda>(client, c). (0x80, 0xF0, heartbeat_data c)) xs"
    for xs :: "(cf \<times> client_state) list" and b :: "'a app"
    by (induction xs arbitrary: b) auto
  then have "udp_out (send_heartbeat clk a) = udp_out a @ map (\<lambda>(client, c). (0x80, 0xF0, heartbeat_data c)) live
       @ (if aogHeartbeatEnabled (udp_settings (udp a)) \<and> live = [] then [(0x80, 0xF0, [0, 0])] else [])"
    using assms by (simp add: send_heartbeat_def Let_def)
  then show ?thesis
    using heartbeat_cycle.at_most_once [OF _ assms(1)] by blast
qed

definition sample_app :: "jval app" where
  "sample_app = \<lparr>udp = sample_udp, tcServer = sample_server, speedMessagesInterface = None, nmea2000MessageInterface = None,
     nmea2000SequenceIdentifier = 0, xteSid = 0, lastXteTransmit = 0, lastJ1939SpeedTransmit = 0, lastTCStatusTransmit = 0,
     lastSpeedValue = 0, lastXteValue = 0, gnssFixQuality = 0, lastGnssQualityMs = 0, lastDistanceMm = 0, lastAogPacketMs = 0,
     sectionDemand = [], loggedSectionDemand = [], sectionDemandChangesSinceLog = 0, lastSectionDemandMs = 0,
     lastSectionDemandLogMs = 0, sectionDemandArriving = False, workingWithoutDemand = [], tcAddressConflictActive = False,
     tecuAddressClaimFailed = False, implementSnapshots = [], lastSectionDemandCheckMs = 0, lastConflictCheck = 0,
     lastImplementScanMs = 0, lastHeartbeatTransmit = 0, lastGnssSendMs = 0,
     lastUpdateCallMs = 0, lastSpeedUpdateCallMs = 0, lastTcServerUpdateCallMs = 0, late_log = [], vtClient = None, udp_out = [], can_out = []\<rparr>"

definition sample_app_env :: app_env where
  "sample_app_env = \<lparr>app_tc = sample_tc_env, ActualSpeed = 397, GuidanceLineDeviation = 513, tc_exists = True,
     tc_address_valid = True, tc_address = 247, tecu_exists = True, tecu_address_valid = True, control_functions = [],
     send_can_ok = True, task_totals_active = False,
     vt_partner_valid = True, vt_connected = True, local_endpoint_ok = True\<rparr>"

theorem heartbeats_sent_witness:
  "udp_out (send_heartbeat (clock_at 5000) sample_app) =
     [(0x80, 0xF0, heartbeat_data sprayer), (0x80, 0xF0, heartbeat_data seeder)] \<and>
   send_heartbeat (clock_at 5050) (send_heartbeat (clock_at 5000) sample_app) = send_heartbeat (clock_at 5000) sample_app"
proof -
  have live: "filter (\<lambda>(client, c). numberOfSections c \<noteq> 0) (clients (tcServer sample_app)) = [(7, sprayer), (8, seeder)]"
    by (simp add: sample_app_def sample_server_def sprayer_fields seeder_fields)
  have "time_expired_ms (clock_at 5000) (lastHeartbeatTransmit sample_app) 100" "udp_out sample_app = []"
    by (simp_all add: clock_at_def sample_app_def)
  moreover have "\<not> time_expired_ms (clock_at 5050) (timestamp_ms (clock_at 5000)) 100" by (simp add: clock_at_def)
  ultimately show ?thesis
    using heartbeats_sent [OF _ refl, of "clock_at 5000" sample_app] by (simp add: live)
qed

text \<open>
  Operator messages are cut at a character boundary: the frame carries at most 60 bytes of the
  text, a prefix of it; when the text was longer, the byte behind the prefix does not continue a
  UTF-8 character, and every byte between the prefix and byte 60 does.
\<close>

theorem message_cut_at_character:
  assumes "0 < text_length msg"
  shows "udp_out (send_hardware_message msg duration color a) =
       udp_out a @ [(0x80, 0xDD, [duration, color] @ take (text_length msg) msg)] \<and>
     text_length msg \<le> 60 \<and> text_length msg \<le> length msg \<and>
     (text_length msg < length msg \<longrightarrow> \<not> is_continuation (msg ! text_length msg) \<and>
        (\<forall>k. text_length msg < k \<and> k \<le> 60 \<longrightarrow> is_continuation (msg ! k)))"
proof -
  have "take (text_length msg) msg \<noteq> []" using assms text_length_le(2) [of msg] by auto
  then have "udp_out (send_hardware_message msg duration color a) =
       udp_out a @ [(0x80, 0xDD, [duration, color] @ take (text_length msg) msg)]"
    by (simp add: udp_out_message message_packets_def)
  moreover have "\<not> is_continuation (msg ! text_length msg)"
    "\<forall>k. text_length msg < k \<and> k \<le> 60 \<longrightarrow> is_continuation (msg ! k)" if "text_length msg < length msg"
  proof -
    have eq: "text_length msg = cut_back msg 60" using that by (auto simp: text_length_def MAX_TEXT_BYTES_def split: if_splits)
    show "\<not> is_continuation (msg ! text_length msg)"
      using cut_back_boundary [of msg 60] assms eq by simp
    show "\<forall>k. text_length msg < k \<and> k \<le> 60 \<longrightarrow> is_continuation (msg ! k)"
      using cut_back_maximal [of msg 60] eq by auto
  qed
  ultimately show ?thesis using text_length_le [of msg] by blast
qed

definition long_message :: bytes where
  "long_message = replicate 59 0x61 @ [0xC3, 0xBC, 0x61]"

theorem message_cut_at_character_witness:
  "text_length long_message = 59 \<and> \<not> is_continuation (long_message ! 59) \<and> is_continuation (long_message ! 60)"
proof -
  have l: "text_length long_message = 59" by code_simp
  have "length long_message = 62" by (simp add: long_message_def)
  then show ?thesis
    using message_cut_at_character [of long_message 5 1 sample_app] l by simp
qed

text \<open>
  C35 Every packet the application sends in a cycle comes from source 0x80 and has at most 62 bytes of
  payload. The checksum loop of \<open>UdpConnections::send\<close>, which counts with eight bits and does not end for
  a payload that is too long, ends for it; its frame is six bytes longer than the payload, 68 bytes at
  most, and its length byte is the length of the payload.
\<close>

theorem cycle_sends_terminate:
  assumes "application_update senv net env clk r_address r_packet a = Some a'"
  shows "\<exists>new. udp_out a' = udp_out a @ new \<and>
     (\<forall>src pgn data. (src, pgn, data) \<in> set new \<longrightarrow> src = 0x80 \<and> length data \<le> 62 \<and>
        (\<exists>frame. frame_bytes src pgn data = Some frame \<and> length frame = length data + 6 \<and> length frame \<le> 68 \<and>
           unat (frame ! 4) = length data))"
proof -
  obtain new where new: "udp_out a' = udp_out a @ new" "\<forall>(src, pgn, data)\<in>set new. src = 0x80 \<and> length data \<le> 62"
    using application_update_sends [OF assms] unfolding sends_short_def by blast
  have "\<exists>frame. frame_bytes src pgn data = Some frame \<and> length frame = length data + 6 \<and> length frame \<le> 68 \<and>
      unat (frame ! 4) = length data"
    if "length data \<le> 62" for src pgn data
    using that by (simp add: frame_bytes_eq unat_of_nat)
  with new show ?thesis by (intro exI [of _ new]) fastforce
qed

theorem cycle_sends_terminate_witness:
  "\<exists>a'. application_update sample_env sample_net sample_app_env (clock_at 5) WouldBlock WouldBlock sample_app = Some a' \<and>
     fst ` set (udp_out a') \<subseteq> {0x80}"
proof -
  obtain a' where a': "application_update sample_env sample_net sample_app_env (clock_at 5) WouldBlock WouldBlock sample_app = Some a'"
    by (simp add: application_update_def handle_address_detection_def handle_incoming_packets_def receive_frames_def Let_def)
  have "udp_out sample_app = []" by (simp add: sample_app_def)
  then have "fst ` set (udp_out a') \<subseteq> {0x80}"
    using cycle_sends_terminate [OF a'] by auto
  then show ?thesis using a' by blast
qed

text \<open>
  Implements that come and go: a scan announces exactly the implements with sections whose NAME was
  not there at the last scan, then exactly those that were there and are gone, with the name
  remembered for them; afterwards the snapshots are those of the clients with sections.
\<close>

theorem scan_announces_changes:
  assumes "time_expired_ms clk (lastImplementScanMs a) 1000" "new = implementSnapshots (scan_implements env clk a)"
  shows "udp_out (scan_implements env clk a) = udp_out a
       @ concat (map (\<lambda>e. message_packets (found_message (snd e)) 5 HW_MSG_INFO)
           (filter (\<lambda>e. sm_find (implementSnapshots a) (fst e) = None) new))
       @ concat (map (\<lambda>e. message_packets (lost_message (snd e)) 10 HW_MSG_ALERT)
           (filter (\<lambda>e. sm_find new (fst e) = None) (implementSnapshots a))) \<and>
     (\<forall>name. sm_find new name \<noteq> None \<longleftrightarrow>
        (\<exists>client c. (client, c) \<in> set (clients (tcServer a)) \<and> numberOfSections c > 0 \<and> get_full_name (app_tc env) client = name))"
proof -
  have "new = current_snapshots env (clients (tcServer a)) []"
    using assms by (simp add: scan_implements_def Let_def)
  then show ?thesis
    using scan_implements_messages [OF assms(1)] keys_current_snapshots [of "[]" env "clients (tcServer a)"] by simp
qed

theorem scan_announces_changes_witness:
  "udp_out (scan_implements sample_app_env (clock_at 5000) (sample_app\<lparr>tcServer := new_server,
     implementSnapshots := [(7, \<lparr>snap_displayName = ''Sprayer'', snap_sections = 20, snap_widthText = ''10.00''\<rparr>)]\<rparr>)) =
   [(0x80, 0xDD, [10, 0] @ text_bytes ''Implement lost: Sprayer'')]"
proof -
  let ?snap = "\<lparr>snap_displayName = ''Sprayer'', snap_sections = 20, snap_widthText = ''10.00''\<rparr>"
  let ?a = "sample_app\<lparr>tcServer := new_server, implementSnapshots := [(7, ?snap)]\<rparr>"
  have "time_expired_ms (clock_at 5000) (lastImplementScanMs ?a) 1000"
    by (simp add: clock_at_def sample_app_def)
  moreover from this have "implementSnapshots (scan_implements sample_app_env (clock_at 5000) ?a) = []"
    by (simp add: scan_implements_def Let_def new_server_def)
  moreover have "message_packets (lost_message ?snap) 10 HW_MSG_ALERT = [(0x80, 0xDD, [10, 0] @ text_bytes ''Implement lost: Sprayer'')]"
    by code_simp
  ultimately show ?thesis
    using scan_announces_changes [OF _ refl, of "clock_at 5000" ?a sample_app_env] by (simp add: sample_app_def)
qed

section \<open>Towards the vehicle bus\<close>

text \<open>
  The GNSS quality an implement is told, in every case: what the last fix quality packet said (a
  value above 8 counts as 1) while that packet is fresh, 0 when packets stopped arriving, and 1 when
  none ever arrived.
\<close>

theorem gnss_quality_told:
  assumes "length data \<ge> 39" "timestamp_ms clk \<noteq> 0" "lastGnssQualityMs a0 = 0"
  shows "current_gnss_quality now a0 = 1 \<and>
     current_gnss_quality now (packet_handler env clk (0x7C, 0xD6, data) a) =
       (if time_expired_ms now (timestamp_ms clk) 2000 then 0
        else if data ! 38 \<le> 8 then data ! 38 else 1)"
  using assms
  by (simp add: current_gnss_quality_def packet_handler_def on_gnss_packet_def GNSS_FIX_QUALITY_OFFSET_def
      GNSS_QUALITY_MAX_def)

theorem gnss_quality_told_witness:
  "current_gnss_quality (clock_at 5) sample_app = 1 \<and>
   current_gnss_quality (clock_at 500) (packet_handler sample_app_env (clock_at 5) (0x7C, 0xD6, replicate 38 0 @ [4]) sample_app) = 4"
proof -
  have "\<not> time_expired_ms (clock_at 500) (timestamp_ms (clock_at 5)) 2000" by (simp add: clock_at_def)
  moreover have "(replicate 38 0 @ [4 :: u8]) ! 38 = 4" by (simp add: nth_append)
  ultimately show ?thesis
    using gnss_quality_told [of "replicate 38 0 @ [4]" "clock_at 5" sample_app "clock_at 5" sample_app_env sample_app]
      gnss_quality_told [of "replicate 38 0 @ [4]" "clock_at 5" sample_app "clock_at 500" sample_app_env sample_app]
    by (simp add: sample_app_def clock_at_def)
qed

lemma abs32_nat: "sint v \<noteq> - (2 ^ 31) \<Longrightarrow> unat (abs32 v) = nat \<bar>sint v\<bar>"
proof -
  assume v: "sint v \<noteq> - (2 ^ 31)"
  have r: "- (2 ^ 31) \<le> sint v" "sint v < 2 ^ 31" using sint_ge [of v] sint_lt [of v] by simp_all
  have "abs32 v = word_of_int \<bar>sint v\<bar>" by (simp add: abs32_def is_negative_def abs_if)
  then have "uint (abs32 v) = \<bar>sint v\<bar> mod 2 ^ 32" by (simp only: uint_word_of_int) simp
  also have "\<dots> = \<bar>sint v\<bar>" using r by (intro mod_pos_pos_trivial) auto
  finally show ?thesis by (simp add: unat_eq_nat_uint)
qed

lemma j1939_speed_value:
  assumes "\<bar>sint v\<bar> \<le> 71000"
  shows "unat (j1939_speed v) = (nat \<bar>sint v\<bar> * 576 + 312) div 625"
proof -
  have "sint v \<noteq> - (2 ^ 31)" using assms by auto
  then have n: "unat (abs32 v) = nat \<bar>sint v\<bar>" "nat \<bar>sint v\<bar> \<le> 71000" using assms by (auto simp: abs32_nat)
  have "unat (abs32 v * 576 + 312) = nat \<bar>sint v\<bar> * 576 + 312"
    using n by (simp add: unat_word_ariths)
  then have "unat ((abs32 v * 576 + 312) div 625) = (nat \<bar>sint v\<bar> * 576 + 312) div 625"
    by (simp add: unat_div)
  moreover have "(nat \<bar>sint v\<bar> * 576 + 312) div 625 < 2 ^ 16" using n(2) by simp
  ultimately show ?thesis
    by (simp add: j1939_speed_def unsigned_ucast_eq take_bit_nat_eq_self)
qed

text \<open>
  The speed on the bus is the AgOpenGPS speed in units of 1/256 km/h, that is 576/625 of the speed
  in mm/s, rounded to the nearest: for every speed up to 71 m/s in either direction the 16-bit number
  is within half a unit of the exact value, so neither the 32-bit product nor the result overflows.
\<close>

theorem speed_rounded:
  assumes "\<bar>sint v\<bar> \<le> 71000"
  shows "\<bar>625 * int (unat (j1939_speed v)) - 576 * \<bar>sint v\<bar>\<bar> \<le> 312"
proof -
  define n where "n = nat \<bar>sint v\<bar>"
  define q where "q = (n * 576 + 312) div 625"
  define r where "r = (n * 576 + 312) mod 625"
  have "q * 625 + r = n * 576 + 312" by (simp add: q_def r_def)
  then have "int (q * 625 + r) = int (n * 576 + 312)" by (rule arg_cong)
  then have d: "625 * int q - 576 * int n = 312 - int r" by simp
  have "int r \<le> 624" by (simp add: r_def less_Suc_eq_le [symmetric])
  then have "\<bar>312 - int r\<bar> \<le> 312" by (intro abs_leI) simp_all
  moreover have u: "unat (j1939_speed v) = q" by (simp add: j1939_speed_value [OF assms] q_def n_def)
  moreover have n: "\<bar>sint v\<bar> = int n" by (simp add: n_def)
  ultimately show ?thesis unfolding u n d by simp
qed

theorem speed_rounded_witness: "\<bar>625 * int (unat (j1939_speed (- 5000))) - 576 * 5000\<bar> \<le> 312"
proof -
  have "sint (- 5000 :: i32) = - 5000" by simp
  then show ?thesis using speed_rounded [of "- 5000"] by simp
qed

text \<open>
  The cross track error on the bus: a process data packet with the guidance line deviation makes
  the program send, at most once per second, one message whose bytes 2 to 5, read as the packet's
  value is, are the deviation divided by 1000 towards zero, under a sequence number from 1 to 253.
\<close>

theorem xte_sent:
  assumes "packet_identifier [lo, hi] = GuidanceLineDeviation env" "GuidanceLineDeviation env \<noteq> ActualSpeed env"
    "time_expired_ms clk (lastXteTransmit a) 1000" "send_can_ok env"
  shows "\<exists>sid. 1 \<le> sid \<and> sid \<le> 253 \<and>
     can_out (packet_handler env clk (0x7F, 0xF2, [lo, hi] @ le_bytes v) a) =
       can_out a @ [\<lparr>can_pgn = 0x1F903, can_data = [sid, 0x71] @ le_bytes (word_of_int (sint v sdiv 1000)) @ [0xFF, 0xFF], can_sender = TC\<rparr>]"
proof -
  have "packet_identifier ([lo, hi] @ le_bytes v) = GuidanceLineDeviation env"
    using assms(1) by (simp add: packet_identifier_def)
  moreover have "packet_value ([lo, hi] @ le_bytes v) = v" using packet_value_le_bytes [of lo hi v "[]"] by simp
  moreover have "6 \<le> length ([lo, hi] @ le_bytes v)" by (simp add: le_bytes_def)
  ultimately show ?thesis
    using assms(2-4) next_xte_sid_range [of "xteSid a"]
    by (intro exI [of _ "next_xte_sid (xteSid a)"])
      (simp add: packet_handler_def on_process_data_packet_def on_xte_value_def Let_def can_emit_def xte_metres_def
        xte_data_le_bytes)
qed

theorem xte_sent_witness:
  "\<exists>sid. can_out (packet_handler sample_app_env (clock_at 5000) (0x7F, 0xF2, [1, 2] @ le_bytes (- 2500)) sample_app) =
     [\<lparr>can_pgn = 0x1F903, can_data = [sid, 0x71] @ le_bytes (- 2) @ [0xFF, 0xFF], can_sender = TC\<rparr>]"
proof -
  have i: "packet_identifier [1, 2] = GuidanceLineDeviation sample_app_env" "GuidanceLineDeviation sample_app_env \<noteq> ActualSpeed sample_app_env"
    "time_expired_ms (clock_at 5000) (lastXteTransmit sample_app) 1000" "send_can_ok sample_app_env"
    by (simp_all add: packet_identifier_def sample_app_env_def clock_at_def sample_app_def)
  have v: "word_of_int (sint (- 2500 :: i32) sdiv 1000) = (- 2 :: i32)" by code_simp
  have "can_out sample_app = []" by (simp add: sample_app_def)
  then show ?thesis using xte_sent [OF i, of "- 2500"] unfolding v by auto
qed

section \<open>The watch on implements that work without demand\<close>

text \<open>
  The watch survives a disconnection: while an implement is not connected its entry is kept, so an
  implement that works without demand right after it reconnected is reported at once as having done
  so for ten seconds, however short that was, if its entry is ten seconds old.
\<close>

theorem watch_survives_disconnection:
  assumes "clients (tcServer a) = []"
    "sm_find (workingWithoutDemand a) (get_full_name (app_tc env) client) = Some \<lparr>sinceMs = t0, warned = False\<rparr>"
    "10000 \<le> timestamp_ms later - t0"
    "isSectionControlEnabled c" "client_working c" "\<not> client_demanded arriving (sectionDemand a) c"
  shows "udp_out (check_client_demand env later arriving (client, c) (check_section_demand env clk a)) =
     udp_out (check_section_demand env clk a) @ message_packets (demand_warning arriving) 20 HW_MSG_ALERT"
proof -
  have "check_section_demand env clk a = a\<lparr>sectionDemandArriving := demand_arriving clk a\<rparr>"
    using assms(1) by (simp add: check_section_demand_def Let_def)
  then show ?thesis
    using assms(2-6) by (simp add: check_client_demand_def Let_def udp_out_message)
qed

definition working_sprayer :: client_state where
  "working_sprayer = set_section_actual_state 3 ON sprayer"

theorem watch_survives_disconnection_witness:
  "udp_out (check_client_demand sample_app_env (clock_at 20000) False (7, working_sprayer)
     (check_section_demand sample_app_env (clock_at 15000) (sample_app\<lparr>tcServer := new_server,
       workingWithoutDemand := [(7, \<lparr>sinceMs = 5000, warned = False\<rparr>)]\<rparr>))) =
   [(0x80, 0xDD, [20, 0] @ text_bytes ''Implement working but no field is open in AOG'')]"
proof -
  let ?a = "sample_app\<lparr>tcServer := new_server, workingWithoutDemand := [(7, \<lparr>sinceMs = 5000, warned = False\<rparr>)]\<rparr>"
  have c: "isSectionControlEnabled working_sprayer" "client_working working_sprayer" by code_simp+
  have d: "\<not> client_demanded False (sectionDemand ?a) working_sprayer" by (simp add: client_demanded_def list_ex_iff)
  have m: "message_packets (demand_warning False) 20 HW_MSG_ALERT =
      [(0x80, 0xDD, [20, 0] @ text_bytes ''Implement working but no field is open in AOG'')]" by code_simp
  have "udp_out (check_section_demand sample_app_env (clock_at 15000) ?a) = []"
    by (simp add: check_section_demand_def Let_def new_server_def sample_app_def)
  moreover have "sm_find (workingWithoutDemand ?a) (get_full_name (app_tc sample_app_env) 7) = Some \<lparr>sinceMs = 5000, warned = False\<rparr>"
    by (simp add: sm_find_def sample_app_env_def sample_tc_env_def)
  ultimately show ?thesis
    using watch_survives_disconnection [of ?a sample_app_env 7 5000 "clock_at 20000" working_sprayer False "clock_at 15000"] c d m
    by (simp add: new_server_def clock_at_def)
qed

end
