(* ===== verification/Vt_Properties.thy ===== *)
theory Vt_Properties
  imports App_Properties
begin

text \<open>
  Properties of the virtual terminal part: what the terminal shows is what the program last sent, the
  strings fit the objects of the pool, and a setting changed on the terminal is changed completely or
  not at all.
\<close>

section \<open>What the terminal shows\<close>

text \<open>
  The strings a terminal shows after a sequence of calls, if it lost what it showed before the first
  \<open>n\<close> of them were made: a terminal that was disconnected loads the pool again.
\<close>

fun show_msg :: "vt_msg \<Rightarrow> (u16 \<rightharpoonup> string) \<Rightarrow> (u16 \<rightharpoonup> string)" where
  "show_msg (ChangeString objectID s) m = m(objectID \<mapsto> s)"
| "show_msg _ m = m"

definition displayed :: "nat \<Rightarrow> vt_msg list \<Rightarrow> (u16 \<rightharpoonup> string)" where
  "displayed n msgs = fold show_msg (drop n msgs) Map.empty"

fun is_string_msg :: "vt_msg \<Rightarrow> bool" where
  "is_string_msg (ChangeString objectID s) = True"
| "is_string_msg _ = False"

lemma show_other: "\<not> is_string_msg m \<Longrightarrow> show_msg m d = d"
  by (cases m) auto

lemma displayed_append: "n \<le> length msgs \<Longrightarrow> displayed n (msgs @ new) = fold show_msg new (displayed n msgs)"
  by (simp add: displayed_def)

lemma fold_show_other: "(\<And>m. m \<in> set new \<Longrightarrow> \<not> is_string_msg m) \<Longrightarrow> fold show_msg new d = d"
  by (induction new arbitrary: d) (auto simp: show_other)

text \<open>The cache agrees with the terminal.\<close>

definition cache_ok :: "nat \<Rightarrow> vt_state \<Rightarrow> bool" where
  "cache_ok n v \<longleftrightarrow> sm_wf (lastVtStrings v) \<and> n \<le> length (vt_out v) \<and>
     (\<forall>objectID s. sm_find (lastVtStrings v) objectID = Some s \<longrightarrow> displayed n (vt_out v) objectID = Some s)"

lemma cache_ok_emit:
  assumes "cache_ok n v" "list_all (\<lambda>m. \<not> is_string_msg m) msgs"
  shows "cache_ok n (vt_emit msgs v)"
  using assms by (simp add: cache_ok_def vt_emit_def displayed_append fold_show_other list_all_iff)

lemma cache_ok_send:
  assumes "cache_ok n v"
  shows "cache_ok n (send_vt_string_if_changed objectID s v)"
    "displayed n (vt_out (send_vt_string_if_changed objectID s v)) =
       (if sm_find (lastVtStrings v) objectID = Some s then displayed n (vt_out v) else (displayed n (vt_out v))(objectID \<mapsto> s))"
  using assms
  by (auto simp: cache_ok_def send_vt_string_if_changed_def vt_emit_def displayed_append smap.wf_put smap.find_put split: if_splits)

lemma send_shows:
  assumes "cache_ok n v"
  shows "displayed n (vt_out (send_vt_string_if_changed objectID s v)) objectID = Some s"
    "objectID' \<noteq> objectID \<Longrightarrow> displayed n (vt_out (send_vt_string_if_changed objectID s v)) objectID' = displayed n (vt_out v) objectID'"
  using assms by (auto simp: cache_ok_send(2) cache_ok_def)

abbreviation send_strings :: "(u16 \<times> string) list \<Rightarrow> vt_state \<Rightarrow> vt_state" where
  "send_strings xs v \<equiv> fold (\<lambda>(objectID, s). send_vt_string_if_changed objectID s) xs v"

lemma cache_ok_strings: "cache_ok n v \<Longrightarrow> cache_ok n (send_strings xs v)"
  by (induction xs arbitrary: v) (auto simp: cache_ok_send)

lemma strings_other:
  "cache_ok n v \<Longrightarrow> objectID \<notin> fst ` set xs \<Longrightarrow> displayed n (vt_out (send_strings xs v)) objectID = displayed n (vt_out v) objectID"
  by (induction xs arbitrary: v) (auto simp: cache_ok_send(1) send_shows(2))

lemma strings_shown:
  "cache_ok n v \<Longrightarrow> distinct (map fst xs) \<Longrightarrow> (objectID, s) \<in> set xs \<Longrightarrow> displayed n (vt_out (send_strings xs v)) objectID = Some s"
proof (induction xs arbitrary: v)
  case (Cons x xs)
  obtain i t where x: "x = (i, t)" by fastforce
  show ?case
  proof (cases "(objectID, s) = (i, t)")
    case True
    then show ?thesis
      using Cons.prems by (simp add: x strings_other cache_ok_send(1) send_shows(1))
  next
    case False
    then have "(objectID, s) \<in> set xs" using Cons.prems by (auto simp: x)
    then show ?thesis
      using Cons.IH [of "send_vt_string_if_changed i t v"] Cons.prems by (simp add: x cache_ok_send(1))
  qed
qed simp

lemma strings_sent:
  "\<exists>new. vt_out (send_strings xs v) = vt_out v @ new \<and>
     (\<forall>m. m \<in> set new \<longrightarrow> (\<exists>objectID s. m = ChangeString objectID s \<and> (objectID, s) \<in> set xs))"
proof (induction xs arbitrary: v)
  case (Cons x xs)
  obtain i t where x: "x = (i, t)" by fastforce
  let ?v = "send_vt_string_if_changed i t v"
  obtain new where "vt_out (send_strings xs ?v) = vt_out ?v @ new"
    "\<forall>m. m \<in> set new \<longrightarrow> (\<exists>objectID s. m = ChangeString objectID s \<and> (objectID, s) \<in> set xs)"
    using Cons.IH [of ?v] by blast
  moreover have "vt_out ?v = vt_out v \<or> vt_out ?v = vt_out v @ [ChangeString i t]"
    by (simp add: send_vt_string_if_changed_def vt_emit_def)
  ultimately show ?case
  proof (elim disjE)
    assume "vt_out ?v = vt_out v"
    with \<open>vt_out (send_strings xs ?v) = vt_out ?v @ new\<close>
      \<open>\<forall>m. m \<in> set new \<longrightarrow> (\<exists>objectID s. m = ChangeString objectID s \<and> (objectID, s) \<in> set xs)\<close>
    show ?thesis by (intro exI [of _ new]) (fastforce simp: x)
  next
    assume "vt_out ?v = vt_out v @ [ChangeString i t]"
    with \<open>vt_out (send_strings xs ?v) = vt_out ?v @ new\<close>
      \<open>\<forall>m. m \<in> set new \<longrightarrow> (\<exists>objectID s. m = ChangeString objectID s \<and> (objectID, s) \<in> set xs)\<close>
    show ?thesis by (intro exI [of _ "ChangeString i t # new"]) (fastforce simp: x)
  qed
qed simp

section \<open>The states of the terminal connection\<close>

text \<open>
  Steps of the terminal client while the rest of the application is in any of the states \<open>apps\<close>. The
  second component counts the calls that were made before the terminal last lost its contents, which
  can happen in any cycle that finds the terminal disconnected.
\<close>

definition may_lose :: "app_env \<Rightarrow> vt_state \<Rightarrow> vt_state \<Rightarrow> nat \<Rightarrow> nat \<Rightarrow> bool" where
  "may_lose env v v' n n' \<longleftrightarrow> n' = n \<or> vtClientStarted v \<and> \<not> vt_connected env \<and> n' = length (vt_out v')"

inductive vt_step :: "'f app set \<Rightarrow> vt_state \<times> nat \<Rightarrow> vt_state \<times> nat \<Rightarrow> bool" for apps where
  cycle: "a \<in> apps \<Longrightarrow> may_lose env v (vt_cycle env clk a v) n n' \<Longrightarrow> vt_step apps (v, n) (vt_cycle env clk a v, n')"
| soft_key: "vt_step apps (v, n) (on_soft_key pressed objectID v, n)"
| refused: "vt_step apps (v, n) (vt_emit [ChangeNumeric objectID value'] v, n)"

inductive_cases vt_stepE: "vt_step apps s s'"

text \<open>What a connected cycle does before the status strings.\<close>

definition vt_prepared :: "clock \<Rightarrow> 'f app \<Rightarrow> vt_state \<Rightarrow> vt_state" where
  "vt_prepared clk a v = set_helper_values clk a (sync_vt_config_once a (log_vt_capabilities_once (note_vt_connected (vt_emit [UpdateClient] v))))"

lemma cache_ok_cong: "lastVtStrings v' = lastVtStrings v \<Longrightarrow> vt_out v' = vt_out v \<Longrightarrow> cache_ok n v' = cache_ok n v"
  by (simp add: cache_ok_def)

lemma vt_prepared_out:
  "\<exists>new. vt_out (vt_prepared clk a v) = vt_out v @ new \<and> list_all (\<lambda>m. \<not> is_string_msg m) new"
  "lastVtStrings (vt_prepared clk a v) = lastVtStrings v" "lastVtStatusUpdateMs (vt_prepared clk a v) = lastVtStatusUpdateMs v"
  "lastVtSectionUpdateMs (vt_prepared clk a v) = lastVtSectionUpdateMs v"
  by (simp_all add: vt_prepared_def set_helper_values_def sync_vt_config_once_def log_vt_capabilities_once_def note_vt_connected_def vt_emit_def)

lemma cache_ok_prepared: "cache_ok n v \<Longrightarrow> cache_ok n (vt_prepared clk a v)"
  using vt_prepared_out [of clk a v] by (auto simp: cache_ok_def displayed_append fold_show_other list_all_iff)

lemma vt_cycle_connected:
  "vtClientStarted v \<Longrightarrow> vt_connected env \<Longrightarrow> vt_cycle env clk a v =
     (let v2 = update_vt_section_map clk a (vt_prepared clk a v)
      in if time_expired_ms clk (lastVtStatusUpdateMs v2) 1000 then update_vt_status_strings env clk (aog_connected clk a) a v2 else v2)"
  by (simp add: vt_cycle_def vt_prepared_def Let_def)

lemma cache_ok_section_map: "cache_ok n v \<Longrightarrow> cache_ok n (update_vt_section_map clk a v)"
  using cache_ok_send(1) [of n v ImplementSectionMap "current_section_map a"]
  by (auto simp: update_vt_section_map_def cache_ok_def)

lemma cache_ok_status: "cache_ok n v \<Longrightarrow> cache_ok n (update_vt_status_strings env clk conn a v)"
  unfolding update_vt_status_strings_def by (rule cache_ok_strings) (simp add: cache_ok_def)

lemma cache_ok_disconnected: "n \<le> length (vt_out v) \<Longrightarrow> cache_ok n (handle_vt_disconnected clk v)"
  by (simp add: handle_vt_disconnected_def Let_def cache_ok_def)

lemma cache_ok_cycle:
  assumes "cache_ok n v"
  shows "cache_ok n (vt_cycle env clk a v)"
proof -
  have "cache_ok n (vt_emit [InitializeClient] v)" using assms by (rule cache_ok_emit) simp
  then have "cache_ok n (try_start_vt_client env clk v)"
    using assms by (simp add: try_start_vt_client_def cache_ok_def)
  moreover have "cache_ok n (vt_cycle env clk a v)" if "vtClientStarted v" "vt_connected env"
    using assms that by (simp add: vt_cycle_connected Let_def cache_ok_status cache_ok_section_map cache_ok_prepared)
  ultimately show ?thesis
    using assms cache_ok_disconnected [of n "vt_emit [UpdateClient] v"]
    by (auto simp: vt_cycle_def Let_def) (simp add: cache_ok_def vt_emit_def)
qed

lemma vt_out_disconnected: "vt_out (handle_vt_disconnected clk v) = vt_out v"
  by (simp add: handle_vt_disconnected_def Let_def)

lemma cache_ok_lost:
  assumes "cache_ok n v" "may_lose env v (vt_cycle env clk a v) n n'"
  shows "cache_ok n' (vt_cycle env clk a v)"
proof (cases "n' = n")
  case True
  then show ?thesis using cache_ok_cycle [OF assms(1)] by simp
next
  case False
  then have "vtClientStarted v" "\<not> vt_connected env" "n' = length (vt_out (vt_cycle env clk a v))"
    using assms(2) by (auto simp: may_lose_def)
  then show ?thesis
    using cache_ok_disconnected [of n' "vt_emit [UpdateClient] v" clk] by (simp add: vt_cycle_def vt_out_disconnected)
qed

interpretation vt: safe_system "vt_step apps" "\<lambda>(v, n). cache_ok n v" for apps
  by unfold_locales (auto elim!: vt_stepE intro: cache_ok_lost simp: cache_ok_emit on_soft_key_def Let_def)

lemma cache_ok_new: "cache_ok 0 (new_vt pool hash st)"
  by (simp add: new_vt_def cache_ok_def)

section \<open>The declared lengths\<close>

text \<open>
  The lengths of the string objects as the object pool \<open>src/resources/AOG_TC.iop\<close> declares them. A
  terminal refuses a longer string.
\<close>

definition pool_lengths :: "(u16 \<times> nat) list" where
  "pool_lengths =
     [(VTControlFunctionsStr, 128), (VTWorkingSetStatusStr, 5), (VTWorkingSetStatusLabel, 6), (VTSectionsFromAOGS, 100),
      (VTAogIPStr, 15), (NetworkConnectedValue, 3), (NetworkRows, 255), (ImplementActiveDDOP, 16),
      (ImplementSectionControl, 16), (ImplementWorkingWidth, 12), (ImplementSectionMap, 127), (ImplementSectionCount, 3),
      (ImplementBoomOffset, 16), (DiagnosticsValues, 7), (DiagnosticsAlarmValue, 22), (DiagnosticsLastPacket, 9),
      (DiagnosticsTcAddress, 11), (DiagnosticsTaskState, 7), (DiagnosticsActiveDDOP, 18), (DiagnosticsTcClients, 3),
      (ConfigHydliftLabel, 18), (ConfigNmeaReadLabel, 14), (ConfigNmeaSendLabel, 14), (ConfigTecuLabel, 23)]"

definition fits :: "u16 \<times> string \<Rightarrow> bool" where
  "fits x = (case map_of pool_lengths (fst x) of Some n \<Rightarrow> length (snd x) \<le> n | None \<Rightarrow> False)"

lemma u32_less: "unat (x :: u32) < 4294967296"
  using unsigned_less [of x, where ?'a = nat] by simp

lemma length_to_string_u32: "length (to_string (unat (x :: u32))) \<le> 10"
  using u32_less [of x] by (intro length_to_string_le) simp_all

lemma length_to_string_byte: "length (to_string (unat (x :: u8))) \<le> 3"
  using u8_less_256 [of x] by (intro length_to_string_u8) simp

lemma length_hex_address: "length (format_hex_address x) = 4"
proof -
  have "length (digits_base 16 (unat x)) \<le> 2"
    using u8_less_256 [of x] by (intro length_digits_base_le) simp_all
  then show ?thesis by (simp add: format_hex_address_def)
qed

lemma length_ip: "length (get_bound_ip_address env u) \<le> 15"
proof -
  obtain addr port where e: "bound_endpoint u = (addr, port)" by fastforce
  have "length (to_string (unat (addr ! i))) \<le> 3" for i by (rule length_to_string_byte)
  from this [of 0] this [of 1] this [of 2] this [of 3] show ?thesis
    by (simp add: get_bound_ip_address_def dotted_def e)
qed

lemma length_packet_age: "length (packet_age clk a) \<le> 9"
proof -
  have "unat (time_elapsed_ms clk (lastAogPacketMs a)) div 1000 < 10 ^ 7"
    using u32_less [of "time_elapsed_ms clk (lastAogPacketMs a)"] by simp
  then have "length (to_string (unat (time_elapsed_ms clk (lastAogPacketMs a)) div 1000)) \<le> 7"
    by (intro length_to_string_le) simp_all
  then show ?thesis by (simp add: packet_age_def)
qed

lemma length_distance: "length (distance_text mm) \<le> 10"
proof (cases "mm < 1000000")
  case True
  then have "unat mm < 1000000" by (simp add: word_less_nat_alt)
  then have "length (fixed_text 1 1000 (unat mm)) \<le> 5 + 1 + 1" by (intro length_fixed_text) simp_all
  with True show ?thesis by (simp add: distance_text_def)
next
  case False
  have "unat mm * 100 div 1000000 \<le> 429497" using u32_less [of mm] by simp
  then have "length (fixed_text 2 1000000 (unat mm)) \<le> 4 + 1 + 2" by (intro length_fixed_text) simp_all
  with False show ?thesis by (simp add: distance_text_def)
qed

lemma length_width:
  assumes "p < 2 ^ 31"
  shows "length (fixed_text 2 1000 p) \<le> 10"
proof -
  have "p * 100 div 1000 \<le> 214748365" using assms by simp
  then have "length (fixed_text 2 1000 p) \<le> 7 + 1 + 2" by (intro length_fixed_text) simp_all
  then show ?thesis by simp
qed

lemma length_shown_width: "length (workingWidth (shown_details env a)) \<le> 12"
proof -
  have "length (widthText (derive_implement_details t c)) \<le> 10" for t c
  proof -
    let ?w = "total_width (get_implement_geometry t (client_pool c))"
    have "nat (sint ?w) < 2 ^ 31" using sint_lt [of ?w] by simp
    then show ?thesis by (simp add: derive_implement_details_def Let_def fixed2_def length_width)
  qed
  then have "length (widthText (derive_implement_details t c)) \<le> 12" for t c by (rule order_trans) simp
  then show ?thesis by (auto simp: shown_details_def Let_def split: list.split)
qed

lemma length_shown: "length (sectionControl (shown_details env a)) \<le> 8"
  by (auto simp: shown_details_def Let_def split: list.split)

lemma length_section_map: "length (section_map_text c) \<le> 127"
proof -
  have "length (concat (map (\<lambda>i. (if i \<noteq> 0 then [f i] else []) @ [g i]) [0..<n])) = 2 * n - 1" for f g :: "nat \<Rightarrow> char" and n
    by (induction n) auto
  moreover have "2 * min n 64 - 1 \<le> 127" for n :: nat by linarith
  ultimately show ?thesis unfolding section_map_text_def Let_def by simp
qed

lemma length_current_section_map: "length (current_section_map a) \<le> 127"
  using length_section_map by (auto simp: current_section_map_def split: list.split)

lemma length_alarm: "length (alarm_text env conn none) \<le> 22"
  by (simp add: alarm_text_def)

lemma length_network_row:
  assumes "bf_manufacturer_code f < 2048" "bf_identity_number f < 2097152"
  shows "length (network_row cs f) \<le> 34"
proof -
  have "unat (bf_manufacturer_code f) < 2048" "unat (bf_identity_number f) < 2097152"
    using assms by (simp_all add: word_less_nat_alt)
  then have "length (to_string (unat (bf_manufacturer_code f))) \<le> 4" "length (to_string (unat (bf_identity_number f))) \<le> 7"
    by (auto intro!: length_to_string_le)
  moreover have "length (to_string (unat (bf_function_code f))) \<le> 3" by (rule length_to_string_byte)
  moreover have "length (to_string (unat (case sm_find cs (bf_cf f) of Some c \<Rightarrow> numberOfSections c | None \<Rightarrow> 0))) \<le> 3"
    by (rule length_to_string_byte)
  ultimately show ?thesis by (simp add: network_row_def length_hex_address)
qed

text \<open>The fields of a NAME have 11 and 21 bits.\<close>

definition names_ok :: "app_env \<Rightarrow> bool" where
  "names_ok env = list_all (\<lambda>f. case f of Some f \<Rightarrow> bf_manufacturer_code f < 2048 \<and> bf_identity_number f < 2097152 | None \<Rightarrow> True)
     (control_functions env)"

lemma length_network_rows_loop:
  assumes "list_all (\<lambda>f. case f of Some f \<Rightarrow> bf_manufacturer_code f < 2048 \<and> bf_identity_number f < 2097152 | None \<Rightarrow> True) fs"
    "length rows + 1 \<le> 35 * n + (if n = 0 then 1 else 0)" "n \<le> 7"
    "network_rows_loop cs fs n rows = (n', rows')"
  shows "length rows' + 1 \<le> 35 * n' + (if n' = 0 then 1 else 0) \<and> n' \<le> 7"
  using assms
proof (induction cs fs n rows rule: network_rows_loop.induct)
  case (2 cs f fs n rows)
  show ?case
  proof (cases "7 \<le> n \<or> f = None \<or> \<not> bf_address_valid (the f)")
    case True
    then show ?thesis using 2 by (auto split: if_splits option.splits)
  next
    case False
    then obtain g where g: "f = Some g" "bf_address_valid g" "n < 7" by auto
    let ?rows = "rows @ (if n \<noteq> 0 then [newline] else []) @ network_row cs g"
    have "length (network_row cs g) \<le> 34" using 2(4) g(1) by (intro length_network_row) simp_all
    then have "length ?rows + 1 \<le> 35 * (n + 1) + (if n + 1 = 0 then 1 else 0)" using 2(5) by (simp split: if_splits)
    moreover have "network_rows_loop cs fs (n + 1) ?rows = (n', rows')" using 2(7) g by simp
    ultimately show ?thesis using 2(3) 2(4) g by simp
  qed
qed simp

lemma length_network_rows:
  assumes "names_ok env"
  shows "length (network_rows env cs) \<le> 244"
proof -
  obtain n rows where r: "network_rows_loop cs (control_functions env) 0 [] = (n, rows)" by fastforce
  have "length rows + 1 \<le> 35 * n + (if n = 0 then 1 else 0) \<and> n \<le> 7"
    by (rule length_network_rows_loop [OF _ _ _ r]) (use assms in \<open>simp_all add: names_ok_def\<close>)
  then show ?thesis by (auto simp: network_rows_def r split: if_splits)
qed

lemma fits_simps:
  "fits (VTControlFunctionsStr, s) = (length s \<le> 128)" "fits (VTWorkingSetStatusStr, s) = (length s \<le> 5)"
  "fits (VTWorkingSetStatusLabel, s) = (length s \<le> 6)" "fits (VTSectionsFromAOGS, s) = (length s \<le> 100)"
  "fits (VTAogIPStr, s) = (length s \<le> 15)" "fits (NetworkConnectedValue, s) = (length s \<le> 3)"
  "fits (NetworkRows, s) = (length s \<le> 255)" "fits (ImplementActiveDDOP, s) = (length s \<le> 16)"
  "fits (ImplementSectionControl, s) = (length s \<le> 16)" "fits (ImplementWorkingWidth, s) = (length s \<le> 12)"
  "fits (ImplementSectionMap, s) = (length s \<le> 127)" "fits (ImplementSectionCount, s) = (length s \<le> 3)"
  "fits (ImplementBoomOffset, s) = (length s \<le> 16)" "fits (DiagnosticsValues, s) = (length s \<le> 7)"
  "fits (DiagnosticsAlarmValue, s) = (length s \<le> 22)" "fits (DiagnosticsLastPacket, s) = (length s \<le> 9)"
  "fits (DiagnosticsTcAddress, s) = (length s \<le> 11)" "fits (DiagnosticsTaskState, s) = (length s \<le> 7)"
  "fits (DiagnosticsActiveDDOP, s) = (length s \<le> 18)" "fits (DiagnosticsTcClients, s) = (length s \<le> 3)"
  "fits (ConfigHydliftLabel, s) = (length s \<le> 18)" "fits (ConfigNmeaReadLabel, s) = (length s \<le> 14)"
  "fits (ConfigNmeaSendLabel, s) = (length s \<le> 14)" "fits (ConfigTecuLabel, s) = (length s \<le> 23)"
  by (simp_all add: fits_def pool_lengths_def vt_ids)

lemma main_status_fit:
  "length (main_implement_status env a) \<le> 100" "length (main_system_status env clk conn a) \<le> 128"
proof -
  show "length (main_implement_status env a) \<le> 100"
    using length_to_string_u32 [of "total_sections a"] length_shown [of env a] by (simp add: main_implement_status_def)
  show "length (main_system_status env clk conn a) \<le> 128"
    using length_to_string_u32 [of "of_nat (online_functions env)"] length_distance [of "lastDistanceMm a"] length_packet_age [of clk a]
    by (simp add: main_system_status_def del: unat_of_nat)
qed

lemma count_fits: "n < 1000 \<Longrightarrow> length (to_string (unat (of_nat n :: u32))) \<le> 3" "n < 1000 \<Longrightarrow> length (to_string n) \<le> 3"
  by (auto simp: unat_of_nat intro!: length_to_string_le)

lemma status_strings_fit:
  assumes "names_ok env" "online_functions env < 1000" "length (clients (tcServer a)) < 1000"
  shows "list_all fits (status_strings env clk conn a)"
proof -
  have "length (network_rows env (clients (tcServer a))) \<le> 255" using length_network_rows [OF assms(1)] by (rule order_trans) simp
  moreover have "length (sectionControl (shown_details env a)) \<le> 16" using length_shown by (rule order_trans) simp
  moreover have "length (format_hex_address (tc_address env)) \<le> 11" by (simp add: length_hex_address)
  moreover have "min (length (implementName (shown_details env a))) 16 \<le> 18" by (rule min.coboundedI2) simp
  ultimately show ?thesis
    unfolding status_strings_def Let_def
    by (simp add: fits_simps length_ip main_status_fit length_packet_age length_alarm length_shown_width length_to_string_byte
        count_fits assms(2,3) del: unat_of_nat)
qed

lemma status_ids_distinct: "distinct (map fst (status_strings env clk conn a))"
  unfolding status_strings_def Let_def by (simp add: vt_ids)

section \<open>The cycle\<close>

lemma send_one: "send_vt_string_if_changed objectID s v = send_strings [(objectID, s)] v"
  by simp

lemma vt_connected_out:
  assumes "vtClientStarted v" "vt_connected env"
  shows "\<exists>new. vt_out (vt_cycle env clk a v) = vt_out v @ new \<and>
    (\<forall>objectID s. ChangeString objectID s \<in> set new \<longrightarrow>
       (objectID, s) \<in> set ((ImplementSectionMap, current_section_map a) # status_strings env clk (aog_connected clk a) a))"
proof -
  let ?p = "vt_prepared clk a v" and ?m = "update_vt_section_map clk a (vt_prepared clk a v)"
  obtain n1 where n1: "vt_out ?p = vt_out v @ n1" "list_all (\<lambda>m. \<not> is_string_msg m) n1"
    using vt_prepared_out(1) [of clk a v] by blast
  have "\<exists>n2. vt_out ?m = vt_out ?p @ n2 \<and> (\<forall>m. m \<in> set n2 \<longrightarrow> m = ChangeString ImplementSectionMap (current_section_map a))"
    by (auto simp: update_vt_section_map_def send_vt_string_if_changed_def vt_emit_def)
  then obtain n2 where n2: "vt_out ?m = vt_out ?p @ n2" "\<forall>m. m \<in> set n2 \<longrightarrow> m = ChangeString ImplementSectionMap (current_section_map a)"
    by blast
  have "\<exists>n3. vt_out (vt_cycle env clk a v) = vt_out ?m @ n3 \<and>
    (\<forall>m. m \<in> set n3 \<longrightarrow> (\<exists>objectID s. m = ChangeString objectID s \<and> (objectID, s) \<in> set (status_strings env clk (aog_connected clk a) a)))"
    using strings_sent [of "status_strings env clk (aog_connected clk a) a" "?m\<lparr>lastVtStatusUpdateMs := timestamp_ms clk\<rparr>"]
    by (simp add: vt_cycle_connected [OF assms] Let_def update_vt_status_strings_def)
  then obtain n3 where n3: "vt_out (vt_cycle env clk a v) = vt_out ?m @ n3"
    "\<forall>m. m \<in> set n3 \<longrightarrow> (\<exists>objectID s. m = ChangeString objectID s \<and> (objectID, s) \<in> set (status_strings env clk (aog_connected clk a) a))"
    by blast
  have "(objectID, s) \<in> set ((ImplementSectionMap, current_section_map a) # status_strings env clk (aog_connected clk a) a)"
    if "ChangeString objectID s \<in> set (n1 @ n2 @ n3)" for objectID s
    using that n1(2) n2(2) n3(2) by (fastforce simp: list_all_iff)
  then show ?thesis using n1(1) n2(1) n3(1) by (intro exI [of _ "n1 @ n2 @ n3"]) simp
qed

lemma vt_idle_out:
  assumes "\<not> (vtClientStarted v \<and> vt_connected env)"
  shows "vt_out (vt_cycle env clk a v) \<in> {vt_out v, vt_out v @ [InitializeClient], vt_out v @ [UpdateClient]}"
  using assms by (auto simp: vt_cycle_def try_start_vt_client_def handle_vt_disconnected_def vt_emit_def Let_def)

text \<open>
  C22 Every string a cycle sends to the terminal fits the length its object declares in the object pool,
  so the terminal does not refuse it: for any implement, name, distance, speed and packet age and for any
  bus whose NAMEs have fields of the standard's 11 and 21 bits, as long as fewer than a thousand control functions are online and fewer than a thousand clients
  connected.
\<close>

theorem vt_strings_fit:
  assumes "names_ok env" "online_functions env < 1000" "length (clients (tcServer a)) < 1000"
  shows "\<exists>new. vt_out (vt_cycle env clk a v) = vt_out v @ new \<and>
    (\<forall>objectID s. ChangeString objectID s \<in> set new \<longrightarrow>
       (\<exists>n. map_of pool_lengths objectID = Some n \<and> length s \<le> n))"
proof (cases "vtClientStarted v \<and> vt_connected env")
  case True
  then obtain new where new: "vt_out (vt_cycle env clk a v) = vt_out v @ new"
    "\<forall>objectID s. ChangeString objectID s \<in> set new \<longrightarrow>
       (objectID, s) \<in> set ((ImplementSectionMap, current_section_map a) # status_strings env clk (aog_connected clk a) a)"
    using vt_connected_out [of v env clk a] by blast
  have fit: "list_all fits ((ImplementSectionMap, current_section_map a) # status_strings env clk (aog_connected clk a) a)"
    using status_strings_fit [OF assms] length_current_section_map [of a] by (simp add: fits_simps)
  have "\<exists>n. map_of pool_lengths objectID = Some n \<and> length s \<le> n" if "ChangeString objectID s \<in> set new" for objectID s
  proof -
    have "fits (objectID, s)" using fit new(2) that unfolding list_all_iff by blast
    then show ?thesis by (simp add: fits_def split: option.splits)
  qed
  with new(1) show ?thesis by blast
next
  case False
  from vt_idle_out [OF this, of clk a] show ?thesis by auto
qed

definition sample_vt :: vt_state where
  "sample_vt = (new_vt [] (\<lambda>_. []) default_settings)\<lparr>vtClientStarted := True\<rparr>"

theorem vt_strings_fit_witness:
  "\<exists>new. vt_out (vt_cycle sample_app_env (clock_at 5000) sample_app sample_vt) = vt_out sample_vt @ new \<and>
     list_all (\<lambda>m. case m of ChangeString objectID s \<Rightarrow> fits (objectID, s) | _ \<Rightarrow> True) new"
proof -
  have "names_ok sample_app_env" "online_functions sample_app_env < 1000" "length (clients (tcServer sample_app)) < 1000"
    by (simp_all add: names_ok_def online_functions_def sample_app_env_def sample_app_def sample_server_def)
  then obtain new where "vt_out (vt_cycle sample_app_env (clock_at 5000) sample_app sample_vt) = vt_out sample_vt @ new"
    "\<forall>objectID s. ChangeString objectID s \<in> set new \<longrightarrow> (\<exists>n. map_of pool_lengths objectID = Some n \<and> length s \<le> n)"
    using vt_strings_fit by blast
  then show ?thesis
    by (intro exI [of _ new]) (fastforce simp: list_all_iff fits_def split: vt_msg.splits)
qed

text \<open>
  C10 The terminal shows the status: in any state the terminal client can reach, through any sequence of
  cycles, connections and losses, key presses and refused settings, and even if the terminal forgets what it
  shows whenever it is found disconnected, a connected cycle in which the status is due leaves the
  terminal showing every one of the current status strings, although only strings that differ from what
  was sent before are sent again; and the strings remembered as sent are always those the terminal shows.
\<close>

theorem vt_shows_status:
  assumes "(vt_step apps)\<^sup>*\<^sup>* (new_vt pool hash st, 0) (v, n)" "vtClientStarted v" "vt_connected env"
    "time_expired_ms clk (lastVtStatusUpdateMs v) 1000"
  shows "(\<forall>objectID s. (objectID, s) \<in> set (status_strings env clk (aog_connected clk a) a) \<longrightarrow>
       displayed n (vt_out (vt_cycle env clk a v)) objectID = Some s) \<and>
     (\<forall>objectID s. sm_find (lastVtStrings (vt_cycle env clk a v)) objectID = Some s \<longrightarrow>
       displayed n (vt_out (vt_cycle env clk a v)) objectID = Some s)"
proof -
  have ok: "cache_ok n v" using vt.reach_inv [OF assms(1)] cache_ok_new by simp
  let ?m = "update_vt_section_map clk a (vt_prepared clk a v)"
  have "lastVtStatusUpdateMs ?m = lastVtStatusUpdateMs v"
    by (simp add: update_vt_section_map_def send_vt_string_if_changed_def vt_emit_def vt_prepared_out)
  then have "vt_cycle env clk a v = send_strings (status_strings env clk (aog_connected clk a) a) (?m\<lparr>lastVtStatusUpdateMs := timestamp_ms clk\<rparr>)"
    using assms(4) by (simp add: vt_cycle_connected [OF assms(2,3)] Let_def update_vt_status_strings_def)
  moreover have "cache_ok n (?m\<lparr>lastVtStatusUpdateMs := timestamp_ms clk\<rparr>)"
    using cache_ok_section_map [OF cache_ok_prepared [OF ok]] by (simp add: cache_ok_def)
  ultimately have "displayed n (vt_out (vt_cycle env clk a v)) objectID = Some s"
    if "(objectID, s) \<in> set (status_strings env clk (aog_connected clk a) a)" for objectID s
    using that strings_shown status_ids_distinct by metis
  moreover have "cache_ok n (vt_cycle env clk a v)" using ok by (rule cache_ok_cycle)
  ultimately show ?thesis by (auto simp: cache_ok_def)
qed

theorem vt_shows_status_witness:
  "\<exists>v n. vtClientStarted v \<and> 0 < n \<and>
     displayed n (vt_out (vt_cycle sample_app_env (clock_at 5000) sample_app v)) DiagnosticsTcClients = Some ''2'' \<and>
     displayed n (vt_out (vt_cycle sample_app_env (clock_at 5000) sample_app v)) DiagnosticsAlarmValue = Some ''AOG heartbeat missing''"
proof -
  let ?start = "new_vt [] (\<lambda>_. []) default_settings" and ?off = "sample_app_env\<lparr>vt_connected := False\<rparr>"
  let ?u = "vt_cycle sample_app_env (clock_at 5) sample_app ?start"
  let ?v = "vt_cycle ?off (clock_at 6) sample_app ?u" let ?n = "length (vt_out ?v)"
  let ?strings = "status_strings sample_app_env (clock_at 5000) (aog_connected (clock_at 5000) sample_app) sample_app"
  have u: "?u = (vt_emit [InitializeClient] ?start)\<lparr>vtClientStarted := True, vtDisconnectedSinceMs := 5\<rparr>"
    by (simp add: vt_cycle_def try_start_vt_client_def new_vt_def sample_app_env_def clock_at_def)
  have v: "?v = handle_vt_disconnected (clock_at 6) (vt_emit [UpdateClient] ?u)" unfolding u by (simp add: vt_cycle_def vt_emit_def)
  have "vt_step {sample_app} (?start, 0) (?u, 0)" by (rule vt_step.cycle) (simp_all add: may_lose_def)
  moreover have "vt_step {sample_app} (?u, 0) (?v, ?n)" by (rule vt_step.cycle) (simp_all add: may_lose_def, simp add: u)
  ultimately have reach: "(vt_step {sample_app})\<^sup>*\<^sup>* (?start, 0) (?v, ?n)"
    by (meson r_into_rtranclp rtranclp.rtrancl_into_rtrancl)
  have first: "vtClientStarted ?u" "lastVtStatusUpdateMs ?u = 0" unfolding u by (simp_all add: vt_emit_def new_vt_def)
  then have started: "vtClientStarted ?v" unfolding v by (simp add: handle_vt_disconnected_def vt_emit_def Let_def)
  have lost: "0 < ?n" unfolding v by (simp add: vt_out_disconnected vt_emit_def)
  have due: "time_expired_ms (clock_at 5000) (lastVtStatusUpdateMs ?v) 1000"
    using first(2) unfolding v by (simp add: handle_vt_disconnected_def vt_emit_def Let_def clock_at_def)
  have connected: "vt_connected sample_app_env" by (simp add: sample_app_env_def)
  have "to_string 2 = ''2''" by code_simp
  moreover have "length (clients (tcServer sample_app)) = 2" by (simp add: sample_app_def sample_server_def)
  moreover have "alarm_text sample_app_env (aog_connected (clock_at 5000) sample_app) b = ''AOG heartbeat missing''" for b
    by (simp add: alarm_text_def have_preferred_address_def sample_app_env_def PREFERRED_TC_ADDRESS_def aog_connected_def sample_app_def)
  ultimately have "(DiagnosticsTcClients, ''2'') \<in> set ?strings" "(DiagnosticsAlarmValue, ''AOG heartbeat missing'') \<in> set ?strings"
    by (simp_all add: status_strings_def Let_def)
  then show ?thesis
    using vt_shows_status [OF reach started connected due, of sample_app] started lost by blast
qed

section \<open>Settings\<close>

text \<open>The setting behind an input field with a new value, and the call of its setter.\<close>

definition with_switch :: "u16 \<Rightarrow> bool \<Rightarrow> settings \<Rightarrow> settings" where
  "with_switch objectID enabled st = (if objectID = ConfigNmeaSend then st\<lparr>nmeaSendEnabled := enabled\<rparr> else st\<lparr>tecuEnabled := enabled\<rparr>)"

definition switch_setter :: "('j, 'f) settings_env \<Rightarrow> u16 \<Rightarrow> bool \<Rightarrow> settings \<Rightarrow> 'f fs \<Rightarrow> 'f setter_result" where
  "switch_setter senv objectID enabled =
     (if objectID = ConfigNmeaSend then set_nmea_send_enabled senv enabled True else set_tecu_enabled senv enabled True)"

text \<open>What saving the new value answers; without the NMEA 2000 interface its field is refused at once.\<close>

definition switch_answer :: "('j, 'f) settings_env \<Rightarrow> u16 \<Rightarrow> bool \<Rightarrow> 'f app \<Rightarrow> bool option" where
  "switch_answer senv objectID enabled a =
     (if objectID = ConfigNmeaSend \<and> nmea2000MessageInterface a = None then Some False
      else fst (save_settings senv (with_switch objectID enabled (udp_settings (udp a))) (udp_files (udp a))))"

lemma switch_setter_eq:
  "switch_setter senv objectID enabled st fs =
     (case save_settings senv (with_switch objectID enabled st) fs of
        (Some False, fs') \<Rightarrow> (Some False, st, fs')
      | (r, fs') \<Rightarrow> (r, with_switch objectID enabled st, fs'))"
  by (cases "objectID = ConfigNmeaSend"; cases "save_settings senv (with_switch objectID enabled st) fs")
    (simp_all add: switch_setter_def with_switch_def set_nmea_send_enabled_def set_tecu_enabled_def set_boolean_def
      split: option.split bool.split)

text \<open>The listener is the setter, with the answer told to the terminal when it is no.\<close>

definition switched :: "u16 \<Rightarrow> bool \<Rightarrow> settings \<times> 'f fs \<Rightarrow> 'f app \<Rightarrow> 'f app" where
  "switched objectID enabled r a =
     (if objectID = ConfigNmeaSend
      then (with_settings r a)\<lparr>nmea2000MessageInterface := map_option (\<lambda>i. i\<lparr>sending_cyclically := enabled\<rparr>) (nmea2000MessageInterface a)\<rparr>
      else with_settings r a)"

lemma on_numeric_value_eq:
  assumes "objectID = ConfigNmeaSend \<or> objectID = ConfigTecuEnabled" "objectID = ConfigNmeaSend \<Longrightarrow> nmea2000MessageInterface a \<noteq> None"
  shows "on_numeric_value senv objectID v a =
    (case switch_setter senv objectID (v \<noteq> 0) (udp_settings (udp a)) (udp_files (udp a)) of
       (None, _) \<Rightarrow> None
     | (Some True, r) \<Rightarrow> Some (switched objectID (v \<noteq> 0) r a)
     | (Some False, r) \<Rightarrow> Some (config_refused objectID (with_settings r a)))"
proof -
  obtain r st' fs' where r: "switch_setter senv objectID (v \<noteq> 0) (udp_settings (udp a)) (udp_files (udp a)) = (r, st', fs')"
    by (metis prod_cases3)
  show ?thesis
  proof (cases "objectID = ConfigNmeaSend")
    case True
    then obtain i where "nmea2000MessageInterface a = Some i" using assms(2) by auto
    with True r show ?thesis
      by (cases r) (simp_all add: on_numeric_value_def switch_setter_def switched_def split: bool.split)
  next
    case False
    with assms(1) r show ?thesis
      by (cases r) (simp_all add: on_numeric_value_def switch_setter_def switched_def split: bool.split)
  qed
qed

text \<open>
  C12 A setting changed on the terminal has one of three outcomes, by the answer of \<open>Settings::save\<close>. Saved:
  the new value is in memory, the next start will load it, the other settings are as they were, the terminal is
  told nothing, and for the NMEA setting the cyclic sending follows. Not saved, or no NMEA interface: memory
  and settings file are as before and the terminal is sent the value that is still in force. An exception
  (no configuration directory, or a value the JSON library cannot dump): it leaves the listener, the terminal
  is told nothing, the settings file is as before, but the setter has already put the new value in memory.
\<close>

theorem vt_config_outcomes:
  assumes "json_lib_ok (set_json senv)" "settings_wf (udp_settings (udp a))"
    "objectID = ConfigNmeaSend \<or> objectID = ConfigTecuEnabled"
  shows "case switch_answer senv objectID (v \<noteq> 0) a of
     Some True \<Rightarrow> (\<exists>a'. on_numeric_value senv objectID v a = Some a' \<and>
       udp_settings (udp a') = with_switch objectID (v \<noteq> 0) (udp_settings (udp a)) \<and>
       load_settings senv (udp_files (udp a')) other = (Some True, udp_settings (udp a')) \<and> vtClient a' = vtClient a \<and>
       (objectID = ConfigNmeaSend \<longrightarrow> (\<exists>i. nmea2000MessageInterface a' = Some i \<and> sending_cyclically i = (v \<noteq> 0))))
   | Some False \<Rightarrow> (\<exists>a'. on_numeric_value senv objectID v a = Some a' \<and> udp_settings (udp a') = udp_settings (udp a) \<and>
       (\<forall>path. get_filename_path (set_os senv) ''settings.json'' = Some path \<longrightarrow> udp_files (udp a') path = udp_files (udp a) path) \<and>
       vtClient a' = map_option (vt_emit [ChangeNumeric objectID (flag_value (stored_value objectID (udp_settings (udp a))))]) (vtClient a))
   | None \<Rightarrow> on_numeric_value senv objectID v a = None \<and>
       (\<exists>fs'. switch_setter senv objectID (v \<noteq> 0) (udp_settings (udp a)) (udp_files (udp a)) =
            (None, with_switch objectID (v \<noteq> 0) (udp_settings (udp a)), fs') \<and>
          (\<forall>path. get_filename_path (set_os senv) ''settings.json'' = Some path \<longrightarrow> fs' path = udp_files (udp a) path))"
proof (cases "objectID = ConfigNmeaSend \<and> nmea2000MessageInterface a = None")
  case True
  then show ?thesis by (simp add: switch_answer_def on_numeric_value_def config_refused_def)
next
  case False
  let ?st = "with_switch objectID (v \<noteq> 0) (udp_settings (udp a))"
  obtain r fs' where r: "save_settings senv ?st (udp_files (udp a)) = (r, fs')" by fastforce
  have wf: "settings_wf ?st" using assms(2) by (simp add: with_switch_def settings_wf_def)
  have kept: "fs' path = udp_files (udp a) path"
    if "r \<noteq> Some True" "get_filename_path (set_os senv) ''settings.json'' = Some path" for path
    by (rule save_settings_not_True [OF r that]) simp
  have saved: "load_settings senv fs' other = (Some True, ?st)" if "r = Some True"
    by (rule load_after_save [OF assms(1) wf]) (use r that in simp)
  have eq: "on_numeric_value senv objectID v a = (case switch_setter senv objectID (v \<noteq> 0) (udp_settings (udp a)) (udp_files (udp a)) of
       (None, _) \<Rightarrow> None
     | (Some True, r) \<Rightarrow> Some (switched objectID (v \<noteq> 0) r a)
     | (Some False, r) \<Rightarrow> Some (config_refused objectID (with_settings r a)))"
    by (rule on_numeric_value_eq [OF assms(3)]) (use False in simp)
  have answer: "switch_answer senv objectID (v \<noteq> 0) a = r" using False r by (auto simp: switch_answer_def)
  consider "r = None" | "r = Some True" | "r = Some False" by (cases r) auto
  then show ?thesis
  proof cases
    case 1
    then have "on_numeric_value senv objectID v a = None" by (simp add: eq switch_setter_eq r)
    then show ?thesis using kept 1 by (simp add: answer switch_setter_eq r)
  next
    case 2
    then have "on_numeric_value senv objectID v a = Some (switched objectID (v \<noteq> 0) (?st, fs') a)"
      by (simp add: eq switch_setter_eq r)
    then show ?thesis using saved 2 False by (auto simp: answer switched_def with_settings_def)
  next
    case 3
    then have "on_numeric_value senv objectID v a = Some (config_refused objectID (with_settings (udp_settings (udp a), fs') a))"
      by (simp add: eq switch_setter_eq r)
    then show ?thesis using kept 3 by (simp add: answer config_refused_def with_settings_def)
  qed
qed

definition vt_app :: "jval app" where
  "vt_app = sample_app\<lparr>vtClient := Some (new_vt [] (\<lambda>_. []) default_settings)\<rparr>"

definition no_directory_env :: "(jval, jval) settings_env" where
  "no_directory_env = sample_env\<lparr>set_os := (set_os sample_env)\<lparr>os_create_directories := (\<lambda>_. False)\<rparr>\<rparr>"

theorem vt_config_outcomes_witness:
  "switch_answer sample_env ConfigTecuEnabled False vt_app = Some True \<and>
   (\<exists>a'. on_numeric_value sample_env ConfigTecuEnabled 0 vt_app = Some a' \<and>
      udp_settings (udp a') = (udp_settings (udp vt_app))\<lparr>tecuEnabled := False\<rparr>) \<and>
   switch_answer (sample_env\<lparr>write_ok := False\<rparr>) ConfigTecuEnabled False vt_app = Some False \<and>
   (\<exists>a'. on_numeric_value (sample_env\<lparr>write_ok := False\<rparr>) ConfigTecuEnabled 0 vt_app = Some a' \<and>
      udp_settings (udp a') = udp_settings (udp vt_app)) \<and>
   switch_answer no_directory_env ConfigTecuEnabled False vt_app = None \<and>
   on_numeric_value no_directory_env ConfigTecuEnabled 0 vt_app = None"
proof -
  have lib: "json_lib_ok (set_json sample_env)" "json_lib_ok (set_json (sample_env\<lparr>write_ok := False\<rparr>))"
    "json_lib_ok (set_json no_directory_env)"
    by (simp_all add: no_directory_env_def sample_env_def sample_lib_ok)
  have wf: "settings_wf (udp_settings (udp vt_app))"
    by (simp add: vt_app_def sample_app_def sample_udp_def settings_wf_default)
  have answers: "switch_answer sample_env ConfigTecuEnabled False vt_app = Some True"
    "switch_answer (sample_env\<lparr>write_ok := False\<rparr>) ConfigTecuEnabled False vt_app = Some False"
    "switch_answer no_directory_env ConfigTecuEnabled False vt_app = None" by code_simp+
  have "with_switch ConfigTecuEnabled False st = st\<lparr>tecuEnabled := False\<rparr>" for st by (simp add: with_switch_def vt_ids)
  then show ?thesis
    using vt_config_outcomes [OF lib(1) wf, of ConfigTecuEnabled 0 default_settings]
      vt_config_outcomes [OF lib(2) wf, of ConfigTecuEnabled 0 default_settings]
      vt_config_outcomes [OF lib(3) wf, of ConfigTecuEnabled 0 default_settings]
    by (auto simp: answers)
qed

end
