(* ===== verification/Setup_Properties.thy ===== *)
theory Setup_Properties
  imports App_Setup Vt_Properties
begin

text \<open>
  That the start of the application ends, in bounded time, and what it has done then: the address of
  the task controller is held and the delay behind the claim has passed before anything else is
  created, the tractor ECU exists only on its own address, and the state the application starts to
  work in satisfies the invariants of its components.
\<close>

section \<open>Time\<close>

text \<open>
  What is relied on of the library's clock: it counts milliseconds modulo 2^32, a sleep lasts at least
  as long as asked, and nothing takes more than \<open>u\<close> milliseconds beyond that. \<open>ms\<close> is the time itself.
\<close>

definition time_ok :: "nat \<Rightarrow> ('w \<Rightarrow> nat) \<Rightarrow> 'w can_world \<Rightarrow> bool" where
  "time_ok u ms W \<longleftrightarrow>
     (\<forall>w. get_timestamp_ms W w = of_nat (ms w)) \<and> (\<forall>w t. get_time_elapsed_ms W w t = of_nat (ms w) - t) \<and>
     (\<forall>w. ms (network_update W w) \<in> {ms w..ms w + u}) \<and>
     (\<forall>n w. ms (sleep_for_ms W n w) \<in> {ms w + n..ms w + n + u}) \<and>
     (\<forall>w. ms (snd (start_hardware W w)) \<in> {ms w..ms w + u}) \<and>
     (\<forall>who name address w. ms (create_control_function W who name address w) \<in> {ms w..ms w + u}) \<and>
     (\<forall>who w. ms (release_control_function W who w) \<in> {ms w..ms w + u})"

text \<open>What can happen to the network while the program starts.\<close>

inductive bus_step :: "'w can_world \<Rightarrow> 'w \<Rightarrow> 'w \<Rightarrow> bool" for W where
  update: "bus_step W w (network_update W w)"
| sleep: "bus_step W w (sleep_for_ms W n w)"
| start: "bus_step W w (snd (start_hardware W w))"
| create: "bus_step W w (create_control_function W who name address w)"
| release: "bus_step W w (release_control_function W who w)"

abbreviation bus_runs :: "'w can_world \<Rightarrow> 'w \<Rightarrow> 'w \<Rightarrow> bool" where
  "bus_runs W \<equiv> (bus_step W)\<^sup>*\<^sup>*"

lemmas bus_runs_step = r_into_rtranclp [of "bus_step W" for W]
lemmas bus_runs_trans = rtranclp_trans [of "bus_step W" for W]

lemma time_okD:
  assumes "time_ok u ms W"
  shows "get_timestamp_ms W w = of_nat (ms w)" "get_time_elapsed_ms W w t = of_nat (ms w) - t"
    "ms w \<le> ms (network_update W w)" "ms (network_update W w) \<le> ms w + u"
    "ms w + n \<le> ms (sleep_for_ms W n w)" "ms (sleep_for_ms W n w) \<le> ms w + n + u"
    "ms w \<le> ms (snd (start_hardware W w))" "ms (snd (start_hardware W w)) \<le> ms w + u"
    "ms w \<le> ms (create_control_function W who name address w)" "ms (create_control_function W who name address w) \<le> ms w + u"
    "ms w \<le> ms (release_control_function W who w)" "ms (release_control_function W who w) \<le> ms w + u"
  using assms by (auto simp: time_ok_def)

lemma bus_runs_time: "bus_runs W w w' \<Longrightarrow> time_ok u ms W \<Longrightarrow> ms w \<le> ms w'"
proof (induction rule: rtranclp_induct)
  case (step w1 w2)
  from step.hyps(2) time_okD [OF step.prems] have "ms w1 \<le> ms w2"
    by cases (auto intro: order_trans [OF le_add1 time_okD(5) [OF step.prems]])
  with step show ?case by simp
qed simp

lemma elapsed_less:
  assumes "time_ok u ms W" "t \<le> ms w" "ms w - t < 2 ^ 32"
  shows "get_time_elapsed_ms W w (of_nat t) < span \<longleftrightarrow> ms w < t + unat span"
proof -
  have "get_time_elapsed_ms W w (of_nat t) = (of_nat (ms w - t) :: u32)" using assms(1,2) by (simp add: of_nat_diff time_okD(2))
  then have "unat (get_time_elapsed_ms W w (of_nat t)) = ms w - t"
    using assms(3) by (simp only: unat_of_nat) (simp add: take_bit_nat_eq_self)
  then show ?thesis using assms(2) by (auto simp: word_less_nat_alt)
qed

section \<open>The waiting loops end\<close>

lemma wait_ms_ends:
  assumes "time_ok u ms W" "u \<le> 1000000" "unat span \<le> 10000" "t \<le> ms w" "ms w \<le> t + unat span + 2 * u + 10"
  shows "\<exists>w'. wait_ms W (of_nat t) span w = Some w' \<and> bus_runs W w w' \<and> t + unat span \<le> ms w' \<and> ms w' \<le> t + unat span + 2 * u + 10"
  using assms(4,5)
proof (induction "t + unat span - ms w" arbitrary: w rule: less_induct)
  case less
  have fits: "ms w - t < 2 ^ 32" using less.prems assms(2,3) by simp
  note el = elapsed_less [OF assms(1) less.prems(1) fits]
  show ?case
  proof (cases "ms w < t + unat span")
    case True
    let ?w = "sleep_for_ms W 10 (network_update W w)"
    have "ms w + 10 \<le> ms ?w" "ms ?w \<le> ms w + 10 + 2 * u"
      using time_okD(3,4) [OF assms(1), of w] time_okD(5,6) [OF assms(1), where n = 10 and w = "network_update W w"] by simp_all
    moreover have "bus_runs W w ?w" by (meson bus_step.sleep bus_step.update r_into_rtranclp rtranclp.rtrancl_into_rtrancl)
    moreover have "wait_ms W (of_nat t) span w = wait_ms W (of_nat t) span ?w"
      using True by (subst wait_ms.simps) (simp add: el)
    moreover have "t + unat span - ms ?w < t + unat span - ms w" "t \<le> ms ?w" "ms ?w \<le> t + unat span + 2 * u + 10"
      using calculation True less.prems by simp_all
    ultimately show ?thesis using less.hyps [of ?w] by (metis bus_runs_trans)
  next
    case False
    then show ?thesis using less.prems by (subst wait_ms.simps) (auto simp: el)
  qed
qed

lemma claim_loop_ends:
  assumes "time_ok u ms W" "u \<le> 1000000" "t \<le> ms w" "ms w \<le> t + 5010 + 2 * u"
  shows "\<exists>r w'. claim_loop W (of_nat t) w = Some (r, w') \<and> bus_runs W w w' \<and> ms w' \<le> t + 5010 + 2 * u \<and>
    (r \<longrightarrow> cf_address_valid W w' TC) \<and> (\<not> r \<longrightarrow> t + 5000 \<le> ms w')"
  using assms(3,4)
proof (induction "t + 5000 - ms w" arbitrary: w rule: less_induct)
  case less
  have fits: "ms w - t < 2 ^ 32" using less.prems assms(2) by simp
  have el: "get_time_elapsed_ms W w (of_nat t) < MAX_ADDRESS_CLAIM_WAIT_MS \<longleftrightarrow> ms w < t + 5000"
    using elapsed_less [OF assms(1) less.prems(1) fits, of MAX_ADDRESS_CLAIM_WAIT_MS] by (simp add: MAX_ADDRESS_CLAIM_WAIT_MS_def)
  let ?v = "network_update W w" let ?w = "sleep_for_ms W 10 ?v"
  have v: "bus_runs W w ?v" by (rule r_into_rtranclp, rule bus_step.update)
  have m: "ms w \<le> ms ?v" "ms ?v \<le> ms w + u" "ms ?v + 10 \<le> ms ?w" "ms ?w \<le> ms ?v + 10 + u"
    using time_okD(3-6) [OF assms(1)] by auto
  consider "\<not> ms w < t + 5000" | "ms w < t + 5000" "cf_address_valid W ?v TC" | "ms w < t + 5000" "\<not> cf_address_valid W ?v TC"
    by blast
  then show ?case
  proof cases
    case 1
    then have "claim_loop W (of_nat t) w = Some (False, w)" by (subst claim_loop.simps) (simp add: el)
    then show ?thesis using 1 less.prems by auto
  next
    case 2
    then have "claim_loop W (of_nat t) w = Some (True, ?v)" by (subst claim_loop.simps) (simp add: el)
    then show ?thesis using 2 v m by auto
  next
    case 3
    have "bus_runs W w ?w" using v bus_step.sleep by (rule rtranclp.rtrancl_into_rtrancl)
    moreover have "t + 5000 - ms ?w < t + 5000 - ms w" "t \<le> ms ?w" "ms ?w \<le> t + 5010 + 2 * u"
      using m 3(1) less.prems by simp_all
    moreover have "claim_loop W (of_nat t) w = claim_loop W (of_nat t) ?w"
      using 3 by (subst claim_loop.simps) (simp add: el)
    ultimately show ?thesis using less.hyps [of ?w] by (metis bus_runs_trans)
  qed
qed

lemma tecu_claim_loop_ends:
  assumes "time_ok u ms W"
  shows "bus_runs W w (tecu_claim_loop W n w) \<and> ms (tecu_claim_loop W n w) \<le> ms w + n * (100 + 2 * u)"
proof (induction n arbitrary: w)
  case (Suc n)
  let ?w = "network_update W (sleep_for_ms W 100 w)"
  have "bus_runs W w ?w" by (meson bus_step.sleep bus_step.update r_into_rtranclp rtranclp.rtrancl_into_rtrancl)
  moreover have "ms ?w \<le> ms w + (100 + 2 * u)"
    using time_okD(4) [OF assms, of "sleep_for_ms W 100 w"] time_okD(6) [OF assms, of 100 w] by simp
  ultimately show ?case using Suc [of ?w] by (auto intro: bus_runs_trans)
qed simp

section \<open>Addresses\<close>

lemma say_simps [simp]:
  "state (say items p) = state p" "world (say items p) = world p" "has_tcCF (say items p) = has_tcCF p"
  "has_tecuCF (say items p) = has_tecuCF p" "has_tcServer (say items p) = has_tcServer p" "setup_calls (say items p) = setup_calls p"
  by (simp_all add: say_def)

lemma configure_simps [simp]:
  "state (configure new p) = state p" "world (configure new p) = world p" "has_tcCF (configure new p) = has_tcCF p"
  "has_tecuCF (configure new p) = has_tecuCF p" "has_tcServer (configure new p) = has_tcServer p"
  "setup_calls (configure new p) = setup_calls p @ new"
  by (simp_all add: configure_def)

text \<open>The parts of the application that a wait leaves alone.\<close>

definition same_parts :: "('f, 'w) application \<Rightarrow> ('f, 'w) application \<Rightarrow> bool" where
  "same_parts p q \<longleftrightarrow> state q = state p \<and> has_tcCF q = has_tcCF p \<and> has_tecuCF q = has_tecuCF p \<and>
     has_tcServer q = has_tcServer p \<and> setup_calls q = setup_calls p"

lemma claim_delay_ends:
  assumes "time_ok u ms W" "u \<le> 1000000"
  shows "\<exists>q. claim_delay W who p = Some q \<and> same_parts p q \<and> bus_runs W (world p) (world q) \<and>
    ms (world p) + 250 \<le> ms (world q) \<and> ms (world q) \<le> ms (world p) + 260 + 2 * u"
proof -
  have "get_time_elapsed_ms W (world p) (get_timestamp_ms W (world p)) = 0" by (simp add: time_okD [OF assms(1)])
  then show ?thesis
    using wait_ms_ends [OF assms, of 250 "ms (world p)" "world p"]
    by (auto simp: claim_delay_def Let_def MINIMUM_ADDRESS_CLAIM_DELAY_MS_def time_okD(1) [OF assms(1)] same_parts_def)
qed

text \<open>The tractor ECU was on its own address at \<open>wt\<close>, and the delay has passed since.\<close>

definition on_own_address :: "'w can_world \<Rightarrow> ('w \<Rightarrow> nat) \<Rightarrow> 'w \<Rightarrow> 'w \<Rightarrow> bool" where
  "on_own_address W ms w w' \<longleftrightarrow>
     (\<exists>wt. bus_runs W w wt \<and> cf_address_valid W wt TECU \<and> cf_address W wt TECU = TractorECU_ADDRESS \<and>
        bus_runs W wt w' \<and> ms wt + 250 \<le> ms w')"

lemma setup_tecu_ends:
  assumes "time_ok u ms W" "u \<le> 1000000"
  shows "\<exists>q. setup_tecu W tractorECU p = Some q \<and> bus_runs W (world p) (world q) \<and>
    ms (world q) \<le> ms (world p) + 5260 + 103 * u \<and>
    state q = (if has_tecuCF q then state p else (state p)\<lparr>tecuAddressClaimFailed := True\<rparr>) \<and>
    has_tcCF q = has_tcCF p \<and> has_tcServer q = has_tcServer p \<and> setup_calls q = setup_calls p \<and>
    (has_tecuCF q \<longrightarrow> on_own_address W ms (create_control_function W TECU (tecuNAME tractorECU) TractorECU_ADDRESS (world p)) (world q))"
proof -
  let ?w1 = "create_control_function W TECU (tecuNAME tractorECU) TractorECU_ADDRESS (world p)"
  let ?w2 = "tecu_claim_loop W MAX_TECU_CLAIM_ATTEMPTS ?w1"
  have r1: "bus_runs W (world p) ?w1" by (rule r_into_rtranclp, rule bus_step.create)
  have r2: "bus_runs W ?w1 ?w2" using tecu_claim_loop_ends [OF assms(1)] by blast
  have "ms ?w2 \<le> ms ?w1 + MAX_TECU_CLAIM_ATTEMPTS * (100 + 2 * u)" using tecu_claim_loop_ends [OF assms(1)] by blast
  then have m2: "ms ?w2 \<le> ms (world p) + 5000 + 101 * u"
    using time_okD(10) [OF assms(1), of TECU "tecuNAME tractorECU" TractorECU_ADDRESS "world p"]
    by (simp add: MAX_TECU_CLAIM_ATTEMPTS_def)
  show ?thesis
  proof (cases "cf_address_valid W ?w2 TECU \<and> cf_address W ?w2 TECU = TractorECU_ADDRESS")
    case True
    let ?p = "say [Tagged ''Init'' (''TECU claimed address '' @ to_string (unat (cf_address W ?w2 TECU)))]
      ((say [Tagged ''Init'' ''Creating Tractor ECU control function...'',
             Tagged ''Init'' ''Tractor ECU control function created, waiting for address claim...''] p)\<lparr>world := ?w2, has_tecuCF := True\<rparr>)"
    have p: "setup_tecu W tractorECU p = claim_delay W ''TECU '' ?p" using True by (simp add: setup_tecu_def Let_def)
    obtain q where q: "claim_delay W ''TECU '' ?p = Some q" "same_parts ?p q" "bus_runs W (world ?p) (world q)"
      "ms (world ?p) + 250 \<le> ms (world q)" "ms (world q) \<le> ms (world ?p) + 260 + 2 * u"
      using claim_delay_ends [OF assms] by blast
    then have "on_own_address W ms ?w1 (world q)" using r2 True by (auto simp: on_own_address_def)
    with q p r1 r2 m2 show ?thesis by (auto simp: same_parts_def intro: bus_runs_trans)
  next
    case False
    let ?w3 = "release_control_function W TECU ?w2"
    have r3: "bus_runs W ?w2 ?w3" by (rule r_into_rtranclp, rule bus_step.release)
    have "ms ?w3 \<le> ms ?w2 + u" using time_okD(12) [OF assms(1)] by blast
    then have "ms ?w3 \<le> ms (world p) + 5260 + 103 * u" using m2 by simp
    moreover have "bus_runs W (world p) ?w3" using r1 r2 r3 by (blast intro: bus_runs_trans)
    ultimately show ?thesis using False by (auto simp: setup_tecu_def tecu_refused_def Let_def)
  qed
qed

text \<open>
  What a finished \<open>setup_control_functions\<close> guarantees: at \<open>wc\<close> the task controller held an address,
  at \<open>wd\<close>, at least 250 ms later, the program went on; without the tractor ECU nothing more happened,
  with it the ECU was created only then, and is there only if it got its own address.
\<close>

definition claimed_in_order :: "'w can_world \<Rightarrow> ('w \<Rightarrow> nat) \<Rightarrow> u8 \<Rightarrow> bool \<Rightarrow> 'w \<Rightarrow> bool \<Rightarrow> 'w \<Rightarrow> bool" where
  "claimed_in_order W ms tractorECU enabled w tecu w' \<longleftrightarrow>
     (\<exists>wc wd. bus_runs W w wc \<and> cf_address_valid W wc TC \<and> bus_runs W wc wd \<and> ms wc + 250 \<le> ms wd \<and> bus_runs W wd w' \<and>
        (\<not> enabled \<longrightarrow> \<not> tecu \<and> w' = wd) \<and>
        (tecu \<longrightarrow> on_own_address W ms (create_control_function W TECU (tecuNAME tractorECU) TractorECU_ADDRESS wd) w'))"

text \<open>What follows a claim: the delay, and the tractor ECU if it is enabled.\<close>

lemma after_claim_ends:
  assumes "time_ok u ms W" "u \<le> 1000000" "\<not> has_tecuCF p" "bus_runs W w (world p)" "cf_address_valid W (world p) TC"
  shows "\<exists>q. Option.bind (claim_delay W '''' p)
      (\<lambda>p3. map_option (\<lambda>p4. (True, say (enumerate_bus_control_functions ''After creating internal control functions''
              (functions_on_bus W (world p4))) p4))
        (if tecuEnabled (udp_settings (udp (state p3))) then setup_tecu W tractorECU p3 else Some p3)) = Some (True, q) \<and>
    bus_runs W w (world q) \<and> ms (world q) \<le> ms (world p) + 5520 + 105 * u \<and> has_tcServer q = has_tcServer p \<and>
    setup_calls q = setup_calls p \<and>
    claimed_in_order W ms tractorECU (tecuEnabled (udp_settings (udp (state p)))) w (has_tecuCF q) (world q) \<and>
    state q = (if tecuEnabled (udp_settings (udp (state p))) \<and> \<not> has_tecuCF q
      then (state p)\<lparr>tecuAddressClaimFailed := True\<rparr> else state p)"
proof -
  obtain p3 where d: "claim_delay W '''' p = Some p3" "same_parts p p3" "bus_runs W (world p) (world p3)"
    "ms (world p) + 250 \<le> ms (world p3)" "ms (world p3) \<le> ms (world p) + 260 + 2 * u"
    using claim_delay_ends [OF assms(1,2), where who = "''''" and p = p] by auto
  have r3: "bus_runs W w (world p3)" using assms(4) d(3) by (rule bus_runs_trans)
  show ?thesis
  proof (cases "tecuEnabled (udp_settings (udp (state p)))")
    case False
    have "claimed_in_order W ms tractorECU False w (has_tecuCF p3) (world p3)"
      unfolding claimed_in_order_def using d assms(3-5) by (intro exI [of _ "world p"] exI [of _ "world p3"]) (simp add: same_parts_def)
    then show ?thesis using False d r3 assms(3) by (simp add: same_parts_def)
  next
    case enabled: True
    obtain q where q: "setup_tecu W tractorECU p3 = Some q" "bus_runs W (world p3) (world q)"
      "ms (world q) \<le> ms (world p3) + 5260 + 103 * u"
      "state q = (if has_tecuCF q then state p3 else (state p3)\<lparr>tecuAddressClaimFailed := True\<rparr>)"
      "has_tcServer q = has_tcServer p3" "setup_calls q = setup_calls p3"
      "has_tecuCF q \<longrightarrow> on_own_address W ms (create_control_function W TECU (tecuNAME tractorECU) TractorECU_ADDRESS (world p3)) (world q)"
      using setup_tecu_ends [OF assms(1,2)] by blast
    have "claimed_in_order W ms tractorECU True w (has_tecuCF q) (world q)"
      unfolding claimed_in_order_def using assms(4,5) d(3,4) q(2,7) by (intro exI [of _ "world p"] exI [of _ "world p3"]) simp
    moreover have "bus_runs W w (world q)" using r3 q(2) by (rule bus_runs_trans)
    ultimately show ?thesis using enabled d(1,2,5) q by (simp add: same_parts_def)
  qed
qed

lemma setup_control_functions_ends:
  assumes "time_ok u ms W" "u \<le> 1000000" "\<not> has_tecuCF p"
  shows "\<exists>ok q. setup_control_functions W taskController tractorECU p = Some (ok, q) \<and> bus_runs W (world p) (world q) \<and>
    ms (world q) \<le> ms (world p) + 10530 + 108 * u \<and> has_tcServer q = has_tcServer p \<and> setup_calls q = setup_calls p \<and>
    (\<not> ok \<longrightarrow> ms (world p) + 5000 \<le> ms (world q) \<and> \<not> has_tecuCF q) \<and>
    (ok \<longrightarrow> claimed_in_order W ms tractorECU (tecuEnabled (udp_settings (udp (state p)))) (world p) (has_tecuCF q) (world q)) \<and>
    state q = (if ok \<and> tecuEnabled (udp_settings (udp (state p))) \<and> \<not> has_tecuCF q
      then (state p)\<lparr>tecuAddressClaimFailed := True\<rparr> else state p)"
proof -
  let ?w1 = "create_control_function W TC (tcNAME taskController) PREFERRED_TC_ADDRESS (world p)"
  let ?enabled = "tecuEnabled (udp_settings (udp (state p)))"
  let ?head = "enumerate_bus_control_functions ''Before creating internal control functions'' (functions_on_bus W (world p))
    @ [Tagged ''Init'' ''Creating Task Controller control function...'']"
  have r1: "bus_runs W (world p) ?w1" by (rule r_into_rtranclp, rule bus_step.create)
  have m1: "ms (world p) \<le> ms ?w1" "ms ?w1 \<le> ms (world p) + u"
    using time_okD(9,10) [OF assms(1)] by blast+
  obtain ok w2 where c: "claim_loop W (get_timestamp_ms W ?w1) ?w1 = Some (ok, w2)" "bus_runs W ?w1 w2"
    "ms w2 \<le> ms ?w1 + 5010 + 2 * u" "ok \<longrightarrow> cf_address_valid W w2 TC" "\<not> ok \<longrightarrow> ms ?w1 + 5000 \<le> ms w2"
    using claim_loop_ends [OF assms(1,2), of "ms ?w1" ?w1] by (auto simp: time_okD(1) [OF assms(1)])
  have r2: "bus_runs W (world p) w2" using r1 c(2) by (rule bus_runs_trans)
  show ?thesis
  proof (cases ok)
    case False
    then have "setup_control_functions W taskController tractorECU p =
      Some (False, say [Line ''Failed to claim address for TC server. The control function might be invalid.'']
        ((say ?head p)\<lparr>world := w2, has_tcCF := True\<rparr>))"
      using c(1) by (simp only: setup_control_functions_def Let_def option.case prod.case bool.case)
    with False show ?thesis using c(3,5) m1 r2 assms(3) by auto
  next
    case True
    define p2 where "p2 = say [Tagged ''Init'' (''TC claimed address '' @ to_string (unat (cf_address W w2 TC)))]
      ((say ?head p)\<lparr>world := w2, has_tcCF := True\<rparr>)"
    have p2: "world p2 = w2" "state p2 = state p" "has_tecuCF p2 = has_tecuCF p" "has_tcServer p2 = has_tcServer p"
      "setup_calls p2 = setup_calls p" by (simp_all add: p2_def)
    let ?rest = "Option.bind (claim_delay W '''' p2)
      (\<lambda>p3. map_option (\<lambda>p4. (True, say (enumerate_bus_control_functions ''After creating internal control functions''
              (functions_on_bus W (world p4))) p4))
        (if tecuEnabled (udp_settings (udp (state p3))) then setup_tecu W tractorECU p3 else Some p3))"
    have run: "setup_control_functions W taskController tractorECU p = ?rest"
      using c(1) True by (simp only: setup_control_functions_def Let_def option.case prod.case bool.case p2_def)
    have "\<not> has_tecuCF p2" "bus_runs W (world p) (world p2)" "cf_address_valid W (world p2) TC"
      using assms(3) r2 c(4) True by (simp_all add: p2)
    then obtain q where q: "?rest = Some (True, q)" "bus_runs W (world p) (world q)" "ms (world q) \<le> ms w2 + 5520 + 105 * u"
      "has_tcServer q = has_tcServer p" "setup_calls q = setup_calls p"
      "claimed_in_order W ms tractorECU ?enabled (world p) (has_tecuCF q) (world q)"
      "state q = (if ?enabled \<and> \<not> has_tecuCF q then (state p)\<lparr>tecuAddressClaimFailed := True\<rparr> else state p)"
      using after_claim_ends [OF assms(1,2), of p2 "world p" tractorECU] unfolding p2 by blast
    have "ms (world q) \<le> ms (world p) + 10530 + 108 * u" using q(3) c(3) m1(2) by simp
    with q show ?thesis by (intro exI [of _ True] exI [of _ q]) (simp only: run simp_thms)
  qed
qed

text \<open>
  C13 The address comes first: claiming addresses always ends, within 10.53 seconds and a small multiple of
  the longest delay \<open>u\<close> a call of the library adds. If it reports success then the task controller held
  an address and at least 250 ms passed before the program went on; the tractor ECU was created only after
  that, only if the settings ask for it, and it is kept only if it held its own address and another 250 ms
  have passed, otherwise the failure is remembered. If it reports failure, five seconds were waited.
\<close>

theorem address_claimed_first:
  assumes "time_ok u ms W" "u \<le> 1000000" "\<not> has_tecuCF p"
  shows "\<exists>ok q. setup_control_functions W taskController tractorECU p = Some (ok, q) \<and>
    ms (world q) \<le> ms (world p) + 10530 + 108 * u \<and>
    (ok \<longrightarrow> claimed_in_order W ms tractorECU (tecuEnabled (udp_settings (udp (state p)))) (world p) (has_tecuCF q) (world q) \<and>
      (tecuEnabled (udp_settings (udp (state p))) \<and> \<not> has_tecuCF q \<longrightarrow> tecuAddressClaimFailed (state q))) \<and>
    (\<not> ok \<longrightarrow> ms (world p) + 5000 \<le> ms (world q) \<and> \<not> has_tecuCF q)"
proof -
  obtain ok q where "setup_control_functions W taskController tractorECU p = Some (ok, q)"
    "ms (world q) \<le> ms (world p) + 10530 + 108 * u" "\<not> ok \<longrightarrow> ms (world p) + 5000 \<le> ms (world q) \<and> \<not> has_tecuCF q"
    "ok \<longrightarrow> claimed_in_order W ms tractorECU (tecuEnabled (udp_settings (udp (state p)))) (world p) (has_tecuCF q) (world q)"
    "state q = (if ok \<and> tecuEnabled (udp_settings (udp (state p))) \<and> \<not> has_tecuCF q
      then (state p)\<lparr>tecuAddressClaimFailed := True\<rparr> else state p)"
    using setup_control_functions_ends [OF assms] by blast
  then show ?thesis by (intro exI [of _ ok] exI [of _ q]) auto
qed

text \<open>A network on which the task controller gets its address after 20 ms and the tractor ECU another one.\<close>

definition sample_world :: "nat can_world" where
  "sample_world = \<lparr>get_timestamp_ms = of_nat, get_time_elapsed_ms = (\<lambda>w t. of_nat w - t), network_update = (\<lambda>w. w),
     sleep_for_ms = (\<lambda>n w. w + n), start_hardware = (\<lambda>w. (True, w)), hardware_is_running = (\<lambda>_. True),
     driver_is_valid = (\<lambda>_. True), driver_last_error = (\<lambda>_. ''''), create_control_function = (\<lambda>_ _ _ w. w),
     release_control_function = (\<lambda>_ w. w), cf_address_valid = (\<lambda>w _. 20 \<le> w),
     cf_address = (\<lambda>w who. case who of TC \<Rightarrow> 247 | TECU \<Rightarrow> 241), functions_on_bus = (\<lambda>_. [])\<rparr>"

lemma sample_world_simps:
  "get_timestamp_ms sample_world w = of_nat w" "get_time_elapsed_ms sample_world w t = of_nat w - t"
  "network_update sample_world w = w" "sleep_for_ms sample_world n w = w + n" "start_hardware sample_world w = (True, w)"
  "driver_is_valid sample_world w" "create_control_function sample_world who name address w = w"
  "cf_address_valid sample_world w who \<longleftrightarrow> 20 \<le> w"
  by (simp_all add: sample_world_def)

lemma sample_world_time: "time_ok 0 (\<lambda>w. w) sample_world"
  by (simp add: time_ok_def sample_world_def)

lemma no_tecu_on_241: "\<not> on_own_address sample_world ms w w'"
  by (simp add: on_own_address_def sample_world_def TractorECU_ADDRESS_def)

lemma sample_claim: "claim_loop sample_world 0 0 = Some (True, 20)" "20 \<le> w \<Longrightarrow> claim_loop sample_world (of_nat w) w = Some (True, w)"
  by (simp_all add: claim_loop.simps [of sample_world] sample_world_simps MAX_ADDRESS_CLAIM_WAIT_MS_def)

lemma claim_decides:
  assumes "setup_control_functions W taskController tractorECU p = Some (ok, q)"
    "claim_loop W (get_timestamp_ms W w1) w1 = Some (True, w2)"
    "w1 = create_control_function W TC (tcNAME taskController) PREFERRED_TC_ADDRESS (world p)"
  shows ok
  using assms by (auto simp: setup_control_functions_def Let_def bind_eq_Some_conv)

theorem address_claimed_first_witness:
  "\<exists>ok q. setup_control_functions sample_world 130 129 (new_application (\<lambda>_. None :: jval option) 0) = Some (ok, q) \<and>
     ok \<and> world q \<le> 10530 \<and> \<not> has_tecuCF q \<and> tecuAddressClaimFailed (state q)"
proof -
  let ?p = "new_application (\<lambda>_. None :: jval option) 0 :: (jval, nat) application"
  have p: "\<not> has_tecuCF ?p" "world ?p = 0" "tecuEnabled (udp_settings (udp (state ?p)))"
    by (simp_all add: new_application_def new_app_def default_settings_def)
  obtain ok q where q: "setup_control_functions sample_world 130 129 ?p = Some (ok, q)" "world q \<le> 10530"
    "ok \<longrightarrow> claimed_in_order sample_world (\<lambda>w. w) 129 True 0 (has_tecuCF q) (world q) \<and> (\<not> has_tecuCF q \<longrightarrow> tecuAddressClaimFailed (state q))"
    "\<not> ok \<longrightarrow> \<not> has_tecuCF q"
    using address_claimed_first [OF sample_world_time _ p(1), of 130 129] by (auto simp: p)
  moreover have "\<not> has_tecuCF q" using q(3,4) no_tecu_on_241 unfolding claimed_in_order_def by blast
  moreover have ok
    by (rule claim_decides [OF q(1), of 0 20]) (simp_all add: sample_claim(1) p(2) sample_world_simps)
  ultimately show ?thesis by blast
qed

section \<open>The whole start\<close>

lemma setup_can_hardware_ends:
  assumes "time_ok u ms W" "u \<le> 1000000"
  shows "\<exists>ok q. setup_can_hardware W has_driver p = Some (ok, q) \<and> bus_runs W (world p) (world q) \<and>
    ms (world q) \<le> ms (world p) + 110 + 3 * u \<and> state q = state p \<and> has_tecuCF q = has_tecuCF p \<and>
    has_tcServer q = has_tcServer p \<and> (ok \<longrightarrow> has_driver \<and> ms (world p) + 100 \<le> ms (world q))"
proof (cases has_driver)
  case True
  obtain started w where s: "start_hardware W (world p) = (started, w)" by fastforce
  then have w: "bus_runs W (world p) w" "ms (world p) \<le> ms w" "ms w \<le> ms (world p) + u"
    using bus_step.start [of W "world p"] time_okD(7,8) [OF assms(1), of "world p"] by auto
  obtain w' where w': "wait_ms W (get_timestamp_ms W w) 100 w = Some w'" "bus_runs W w w'" "ms w + 100 \<le> ms w'" "ms w' \<le> ms w + 100 + 2 * u + 10"
    using wait_ms_ends [OF assms, of 100 "ms w" w] by (auto simp: time_okD(1) [OF assms(1)])
  have "bus_runs W (world p) w'" using w(1) w'(2) by (rule bus_runs_trans)
  show ?thesis
  proof (cases "started \<and> driver_is_valid W w")
    case valid: True
    then have "setup_can_hardware W has_driver p = Some (True, configure [SetPacketsPerCts 255] (p\<lparr>world := w'\<rparr>))"
      using True s w'(1) by (simp add: setup_can_hardware_def)
    then show ?thesis using \<open>bus_runs W (world p) w'\<close> True w w'(3,4) by (intro exI [of _ True]) simp
  next
    case False
    then show ?thesis using True s w by (intro exI [of _ False]) (auto simp: setup_can_hardware_def)
  qed
qed (auto simp: setup_can_hardware_def)

lemma setup_tecu_interfaces_frame:
  "udp (state (setup_tecu_interfaces W s n p)) = udp (state p)" "tcServer (state (setup_tecu_interfaces W s n p)) = tcServer (state p)"
  "vtClient (state (setup_tecu_interfaces W s n p)) = vtClient (state p)" "world (setup_tecu_interfaces W s n p) = world p"
  "has_tcServer (setup_tecu_interfaces W s n p) = has_tcServer p" "has_tecuCF (setup_tecu_interfaces W s n p) = has_tecuCF p"
  "has_tecuCF p \<or> speedMessagesInterface (state (setup_tecu_interfaces W s n p)) = speedMessagesInterface (state p)"
  "has_tecuCF p \<or> nmea2000MessageInterface (state (setup_tecu_interfaces W s n p)) = nmea2000MessageInterface (state p)"
  by (simp_all add: setup_tecu_interfaces_def Let_def)

lemma setup_server_frame:
  "udp (state (setup_task_controller_server p)) = udp (state p)" "tcServer (state (setup_task_controller_server p)) = new_server"
  "vtClient (state (setup_task_controller_server p)) = vtClient (state p)" "world (setup_task_controller_server p) = world p"
  "has_tcServer (setup_task_controller_server p)" "has_tecuCF (setup_task_controller_server p) = has_tecuCF p"
  "speedMessagesInterface (state (setup_task_controller_server p)) = speedMessagesInterface (state p)"
  "nmea2000MessageInterface (state (setup_task_controller_server p)) = nmea2000MessageInterface (state p)"
  by (simp_all add: setup_task_controller_server_def Let_def)

text \<open>The state in which the application starts to work.\<close>

definition ready :: "('j, 'f) start_env \<Rightarrow> ('f, 'w) application \<Rightarrow> bool" where
  "ready env q \<longleftrightarrow>
     has_tcServer q \<and> server_wf (tcServer (state q)) \<and> clients (tcServer (state q)) = [] \<and>
     (vtClient (state q) \<noteq> None \<longleftrightarrow> vtEnabled (udp_settings (udp (state q)))) \<and>
     (\<forall>v. vtClient (state q) = Some v \<longrightarrow> cache_ok 0 v \<and> \<not> vtClientStarted v) \<and>
     (has_tecuCF q \<or> speedMessagesInterface (state q) = None \<and> nmea2000MessageInterface (state q) = None) \<and>
     bound_endpoint (udp (state q)) = get_local_endpoint (net_platform (se_net env)) (udp_settings (udp (state q)))
       (net_interfaces (se_net env)) (net_resolved (se_net env))"

lemma setup_services_ready:
  assumes "setup_services W env p = (r, q)" "vtClient (state p) = None" "speedMessagesInterface (state p) = None"
    "nmea2000MessageInterface (state p) = None"
  shows "world q = world p" "has_tecuCF q = has_tecuCF p" "r \<noteq> Returned False"
    "udp_settings (udp (state q)) = udp_settings (udp (state p))" "r = Returned True \<Longrightarrow> ready env q"
proof -
  let ?p1 = "say [Line ''Task controller server started.'']
    (setup_tecu_interfaces W (se_speed env) (se_cog_sog env) (setup_task_controller_server p))"
  define p2 where "p2 = (if vtEnabled (udp_settings (udp (state ?p1))) then ?p1\<lparr>state := setup_vt_client (se_pool env) (se_hash env) (state ?p1)\<rparr>
    else say [Tagged ''Info'' ''VT UI disabled in settings, skipping VT client.''] ?p1)"
  have run: "setup_udp_connections env p2 = (r, q)" using assms(1) by (simp only: setup_services_def Let_def p2_def)
  have frame: "world p2 = world p" "has_tecuCF p2 = has_tecuCF p" "udp (state p2) = udp (state p)" "has_tcServer p2"
    "tcServer (state p2) = new_server"
    "vtClient (state p2) = (if vtEnabled (udp_settings (udp (state p))) then Some (new_vt (se_pool env) (se_hash env) (udp_settings (udp (state p)))) else None)"
    by (simp_all add: setup_server_frame setup_tecu_interfaces_frame setup_vt_client_def p2_def assms(2))
  have tecu: "has_tecuCF p \<or> speedMessagesInterface (state p2) = None \<and> nmea2000MessageInterface (state p2) = None"
    using setup_tecu_interfaces_frame(7,8) [of "setup_task_controller_server p" W "se_speed env" "se_cog_sog env"]
    by (auto simp: setup_server_frame setup_vt_client_def p2_def assms(3,4))
  show "world q = world p" "has_tecuCF q = has_tecuCF p" "r \<noteq> Returned False" "udp_settings (udp (state q)) = udp_settings (udp (state p))"
    using run frame by (auto simp: setup_udp_connections_def udp_open_def Let_def split: if_splits)
  show "ready env q" if "r = Returned True"
    using run frame tecu that cache_ok_new server_wf_new
    by (auto simp: setup_udp_connections_def udp_open_def Let_def ready_def new_vt_def new_server_def split: if_splits)
qed

text \<open>The start behind the settings: what is promised of its result, and that it comes.\<close>

definition start_promise :: "'w can_world \<Rightarrow> ('w \<Rightarrow> nat) \<Rightarrow> ('j, 'f) start_env \<Rightarrow> bool \<Rightarrow> 'w \<Rightarrow> call \<Rightarrow> ('f, 'w) application \<Rightarrow> bool" where
  "start_promise W ms env has_driver w r q \<longleftrightarrow>
     (r = Returned True \<longrightarrow> has_driver \<and> ready env q \<and>
       (\<exists>w1. bus_runs W w w1 \<and> ms w + 100 \<le> ms w1 \<and>
          claimed_in_order W ms (se_tractorECU env) (tecuEnabled (udp_settings (udp (state q)))) w1 (has_tecuCF q) (world q))) \<and>
     (r = Returned False \<longrightarrow> \<not> has_tcServer q \<and> vtClient (state q) = None \<and>
       speedMessagesInterface (state q) = None \<and> nmea2000MessageInterface (state q) = None)"

lemma claim_and_serve_ends:
  assumes "time_ok u ms W" "u \<le> 1000000" "bus_runs W w (world p)" "has_driver" "ms w + 100 \<le> ms (world p)"
    "\<not> has_tecuCF p" "\<not> has_tcServer p" "vtClient (state p) = None" "speedMessagesInterface (state p) = None"
    "nmea2000MessageInterface (state p) = None"
  shows "\<exists>r q. Option.bind (setup_control_functions W (se_taskController env) (se_tractorECU env) p)
      (\<lambda>(claimed, p2). Some (if \<not> claimed then (Returned False, p2) else setup_services W env p2)) = Some (r, q) \<and>
    ms (world q) \<le> ms (world p) + 10530 + 108 * u \<and> start_promise W ms env has_driver w r q"
proof -
  obtain claimed p2 where c: "setup_control_functions W (se_taskController env) (se_tractorECU env) p = Some (claimed, p2)"
    "ms (world p2) \<le> ms (world p) + 10530 + 108 * u" "\<not> has_tcServer p2"
    "claimed \<longrightarrow> claimed_in_order W ms (se_tractorECU env) (tecuEnabled (udp_settings (udp (state p)))) (world p) (has_tecuCF p2) (world p2)"
    "state p2 = (if claimed \<and> tecuEnabled (udp_settings (udp (state p))) \<and> \<not> has_tecuCF p2
      then (state p)\<lparr>tecuAddressClaimFailed := True\<rparr> else state p)"
    using setup_control_functions_ends [OF assms(1,2,6), of "se_taskController env" "se_tractorECU env"] assms(7) by auto
  have p2: "vtClient (state p2) = None" "speedMessagesInterface (state p2) = None" "nmea2000MessageInterface (state p2) = None"
    "udp (state p2) = udp (state p)" using c(5) assms(8-10) by simp_all
  obtain r q where s: "setup_services W env p2 = (r, q)" by fastforce
  note ready = setup_services_ready [OF s p2(1-3)]
  show ?thesis
  proof (cases claimed)
    case True
    have "claimed_in_order W ms (se_tractorECU env) (tecuEnabled (udp_settings (udp (state q)))) (world p) (has_tecuCF q) (world q)"
      using c(4) True ready(1,2,4) p2(4) by simp
    then have "start_promise W ms env has_driver w r q" using ready(3,5) assms(3-5) unfolding start_promise_def by blast
    then show ?thesis using c(1,2) s True ready(1) by simp
  qed (use c p2 in \<open>simp add: start_promise_def\<close>)
qed

lemma initialize_ends:
  assumes "time_ok u ms W" "u \<le> 1000000"
  shows "\<exists>r q. initialize W env has_driver (new_application fs w) = Some (r, q) \<and>
    ms (world q) \<le> ms w + 10640 + 111 * u \<and>
    (r = Returned True \<longrightarrow> has_driver \<and> ready env q \<and>
      (\<exists>w1. bus_runs W w w1 \<and> ms w + 100 \<le> ms w1 \<and>
         claimed_in_order W ms (se_tractorECU env) (tecuEnabled (udp_settings (udp (state q)))) w1 (has_tecuCF q) (world q))) \<and>
    (r = Returned False \<longrightarrow> \<not> has_tcServer q \<and> vtClient (state q) = None \<and>
      speedMessagesInterface (state q) = None \<and> nmea2000MessageInterface (state q) = None)"
proof -
  let ?p = "new_application fs w"
  obtain l st where l: "load_settings (se_settings env) (udp_files (udp (state ?p))) (udp_settings (udp (state ?p))) = (l, st)" by fastforce
  define p0 where "p0 = ?p\<lparr>state := (state ?p)\<lparr>udp := (udp (state ?p))\<lparr>udp_settings := st\<rparr>\<rparr>\<rparr>"
  have p0: "vtClient (state p0) = None" "speedMessagesInterface (state p0) = None" "nmea2000MessageInterface (state p0) = None"
    "world p0 = w" "\<not> has_tecuCF p0" "\<not> has_tcServer p0" by (simp_all add: p0_def new_application_def new_app_def)
  obtain started p1 where h: "setup_can_hardware W has_driver p0 = Some (started, p1)" "bus_runs W w (world p1)"
    "ms (world p1) \<le> ms w + 110 + 3 * u" "state p1 = state p0" "\<not> has_tecuCF p1" "\<not> has_tcServer p1"
    "started \<longrightarrow> has_driver \<and> ms w + 100 \<le> ms (world p1)"
    using setup_can_hardware_ends [OF assms, of has_driver p0] p0 by auto
  have run: "initialize W env has_driver ?p =
      (case l of None \<Rightarrow> Some (Threw (StdException (se_load_error env)), ?p)
       | Some _ \<Rightarrow> if \<not> started then Some (Returned False, p1)
           else Option.bind (setup_control_functions W (se_taskController env) (se_tractorECU env) p1)
                  (\<lambda>(claimed, p2). Some (if \<not> claimed then (Returned False, p2) else setup_services W env p2)))"
    using l h(1) by (simp add: initialize_def p0_def split: option.splits)
  have "\<exists>r q. initialize W env has_driver ?p = Some (r, q) \<and> ms (world q) \<le> ms w + 10640 + 111 * u \<and>
    start_promise W ms env has_driver w r q"
  proof (cases "l = None \<or> \<not> started")
    case True
    then show ?thesis using run h p0 by (auto simp: start_promise_def new_application_def split: option.splits)
  next
    case False
    then show ?thesis
      using claim_and_serve_ends [OF assms h(2), of has_driver env] run h(3-7) p0 by (fastforce split: option.splits)
  qed
  then show ?thesis unfolding start_promise_def .
qed

text \<open>
  C6 The start ends and leaves a working application or none: for any driver, settings file and bus, and a
  clock that runs, \<open>initialize\<close> returns or throws within 10.64 seconds and a small multiple of the library's own
  delays. When it returns true the addresses were claimed in order, the server is well-formed and has no
  clients, the terminal client exists exactly if the settings ask for it, speed and NMEA interfaces exist
  only with the tractor ECU, and the socket is bound to the address of the configured subnet. When it
  returns false no server, terminal client or interface exists.
\<close>

theorem start_ends_ready:
  assumes "time_ok u ms W" "u \<le> 1000000"
  shows "\<exists>r q. initialize W env has_driver (new_application fs w) = Some (r, q) \<and>
    ms (world q) \<le> ms w + 10640 + 111 * u \<and>
    (r = Returned True \<longrightarrow> has_driver \<and> ready env q \<and>
      (\<exists>w1. bus_runs W w w1 \<and> ms w + 100 \<le> ms w1 \<and>
         claimed_in_order W ms (se_tractorECU env) (tecuEnabled (udp_settings (udp (state q)))) w1 (has_tecuCF q) (world q))) \<and>
    (r = Returned False \<longrightarrow> \<not> has_tcServer q \<and> vtClient (state q) = None \<and>
      speedMessagesInterface (state q) = None \<and> nmea2000MessageInterface (state q) = None)"
  using initialize_ends [OF assms] .

definition sample_start :: "(jval, jval) start_env" where
  "sample_start = \<lparr>se_settings = sample_env, se_net = sample_net, se_taskController = 130, se_tractorECU = 129, se_pool = [],
     se_hash = (\<lambda>_. []),
     se_speed = (let d = \<lparr>machine_direction = Forward, machine_speed = 0, machine_distance = 0\<rparr>
       in \<lparr>groundBasedSpeed = d, wheelBasedSpeed = d, machineSelectedSpeed = d\<rparr>),
     se_cog_sog = \<lparr>sequence_id = 0, speed_over_ground = 0, course_over_ground = 0, sending_cyclically = False\<rparr>,
     se_load_error = ''parse error'', se_open_ok = True, se_open_error = ''''\<rparr>"


lemma sample_wait: "wait_ms sample_world 0 100 0 = Some 100"
  by (simp add: wait_ms.simps [of sample_world] sample_world_simps)

lemma sample_hardware:
  "world p = 0 \<Longrightarrow> setup_can_hardware sample_world True p = Some (True, configure [SetPacketsPerCts 255] (p\<lparr>world := 100\<rparr>))"
  using sample_wait by (simp add: setup_can_hardware_def sample_world_simps)

lemma services_open: "se_open_ok env \<Longrightarrow> fst (setup_services W env p) = Returned True"
  by (simp add: setup_services_def setup_udp_connections_def udp_open_def Let_def)

lemma sample_load: "load_settings sample_env (\<lambda>_. None) st = (Some False, st)"
proof -
  have "get_filename_path (set_os sample_env) ''settings.json'' = Some ''/c/AOG-TaskController/settings.json''" by code_simp
  then show ?thesis by (simp add: load_settings_def)
qed

lemma sample_starts:
  "\<exists>q. initialize sample_world sample_start True (new_application (\<lambda>_. None) 0) = Some (Returned True, q)"
proof -
  obtain r q where q: "initialize sample_world sample_start True (new_application (\<lambda>_. None) 0) = Some (r, q)"
    using initialize_ends [OF sample_world_time, of sample_start True "\<lambda>_. None" 0] by auto
  let ?p = "new_application (\<lambda>_. None) 0 :: (jval, nat) application"
  let ?begun = "configure [SetPacketsPerCts 255] (?p\<lparr>state := (state ?p)\<lparr>udp := (udp (state ?p))\<lparr>udp_settings := default_settings\<rparr>\<rparr>, world := 100\<rparr>)"
  have "load_settings (se_settings sample_start) (udp_files (udp (state ?p))) (udp_settings (udp (state ?p))) = (Some False, default_settings)"
    by (simp add: sample_start_def new_application_def new_app_def sample_load)
  moreover have "world ?p = 0" unfolding new_application_def by simp
  ultimately obtain claimed p2 where c: "setup_control_functions sample_world 130 129 ?begun = Some (claimed, p2)"
    "(if \<not> claimed then (Returned False, p2) else setup_services sample_world sample_start p2) = (r, q)"
    using q by (simp add: initialize_def sample_hardware bind_eq_Some_conv) (auto simp: sample_start_def)
  have claimed
    by (rule claim_decides [OF c(1), of 100 100]) (use sample_claim(2) [of 100] in \<open>simp_all add: sample_world_simps\<close>)
  then have "r = Returned True"
    using c(2) services_open [of sample_start sample_world p2] by (simp add: sample_start_def)
  with q show ?thesis by blast
qed

theorem start_ends_ready_witness:
  "\<exists>q. initialize sample_world sample_start True (new_application (\<lambda>_. None) 0) = Some (Returned True, q) \<and> world q \<le> 10640 \<and>
     bound_endpoint (udp (state q)) =
        get_local_endpoint Posix (udp_settings (udp (state q))) (net_interfaces sample_net) (net_resolved sample_net) \<and>
     speedMessagesInterface (state q) = None"
proof -
  obtain r q where q: "initialize sample_world sample_start True (new_application (\<lambda>_. None) 0) = Some (r, q)" "world q \<le> 10640"
    "r = Returned True \<longrightarrow> ready sample_start q \<and>
      (\<exists>w1 b. claimed_in_order sample_world (\<lambda>w. w) 129 b w1 (has_tecuCF q) (world q))"
    using start_ends_ready [OF sample_world_time, of sample_start True "\<lambda>_. None" 0] by (auto simp: sample_start_def)
  have r: "r = Returned True" using q(1) sample_starts by auto
  then have "\<not> has_tecuCF q" using q(3) no_tecu_on_241 unfolding claimed_in_order_def by blast
  then show ?thesis using q r by (auto simp: ready_def sample_start_def sample_net_def)
qed

end
