(* ===== verification/App_System.thy ===== *)
theory App_System
  imports Setup_Properties Tc_Safety
begin

text \<open>
  The whole program as a transition system. The main loop and the thread of the ISOBUS library run at
  the same time and meet at \<open>clientsMutex\<close>, which every call on the task controller server takes and
  gives back. So the steps are the parts of \<open>Application::update\<close> between which the other thread can
  get in, the callbacks of the library, and what arrives from the terminal, in any order and with any
  arguments. One cycle of \<open>Application::update\<close> is a sequence of such steps.
\<close>

section \<open>Steps\<close>

text \<open>What \<open>receive_from\<close> gives fits into the rest of the buffer it was offered.\<close>

fun fits_buffer :: "rx_result \<Rightarrow> rx_state \<Rightarrow> bool" where
  "fits_buffer (Received data) st \<longleftrightarrow> length data \<le> MAX_PACKET_SIZE - rxIndex st"
| "fits_buffer _ st = True"

text \<open>The calls the library makes on the server; the other calls on it are the application's own.\<close>

inductive library_call :: "tc_env \<Rightarrow> tc_server \<Rightarrow> tc_server \<Rightarrow> bool" for env where
  upload: "library_call env s (snd (store_device_descriptor_object_pool client pool app s))"
| activate: "library_call env s (snd (activate_object_pool env client s))"
| deactivate: "library_call env s (snd (deactivate_object_pool client s))"
| delete_pool: "library_call env s (snd (delete_device_descriptor_object_pool client s))"
| timeout: "library_call env s (on_client_timeout client s)"
| value_command: "library_call env s (snd (on_value_command client ddi el v s))"

inductive_simps library_call_iff: "library_call env s t"

lemma library_call_step: "library_call env s t \<Longrightarrow> tc_step env s t"
  by (auto simp: library_call_iff tc_step_iff)

inductive app_step :: "('j, 'f) settings_env \<Rightarrow> net_env \<Rightarrow> tc_env \<Rightarrow> 'f app \<Rightarrow> 'f app \<Rightarrow> bool" for senv net tenv where
  note_update: "app_step senv net tenv a (note_update_call clk a)"
| detect: "fits_buffer r (address_rx (udp a)) \<Longrightarrow> handle_address_detection senv net r (udp a) = Some u \<Longrightarrow>
    app_step senv net tenv a (a\<lparr>udp := u\<rparr>)"
| receive: "fits_buffer r (packet_rx (udp a)) \<Longrightarrow> handle_incoming_packets True r (packet_rx (udp a)) = Some (packets, rx') \<Longrightarrow>
    app_step senv net tenv a (a\<lparr>udp := (udp a)\<lparr>packet_rx := rx'\<rparr>\<rparr>)"
| packet: "app_tc env = tenv \<Longrightarrow> app_step senv net tenv a (packet_handler env clk p a)"
| request: "app_step senv net tenv a (a\<lparr>tcServer := request_measurement_commands tenv (tcServer a)\<rparr>)"
| library: "app_step senv net tenv a (note_library_calls clk a)"
| terminal: "app_tc env = tenv \<Longrightarrow> app_step senv net tenv a (update_vt_client env clk a)"
| log_demand: "app_step senv net tenv a (log_section_demand clk a)"
| check_demand: "app_tc env = tenv \<Longrightarrow> app_step senv net tenv a (check_demand_periodically env clk a)"
| conflict: "app_step senv net tenv a (check_conflict env clk a)"
| scan: "app_tc env = tenv \<Longrightarrow> app_step senv net tenv a (scan_implements env clk a)"
| claim_failure: "app_step senv net tenv a (report_claim_failure a)"
| heartbeat: "app_step senv net tenv a (send_heartbeat clk a)"
| speed: "app_step senv net tenv a (send_j1939_speed env clk a)"
| status: "app_step senv net tenv a (send_tc_status env clk a)"
| gnss: "app_step senv net tenv a (send_gnss clk a)"
| callback: "library_call tenv (tcServer a) s \<Longrightarrow> app_step senv net tenv a (a\<lparr>tcServer := s\<rparr>)"
| soft_key: "app_step senv net tenv a (a\<lparr>vtClient := map_option (on_soft_key pressed objectID) (vtClient a)\<rparr>)"
| setting: "on_numeric_value senv objectID v a = Some a' \<Longrightarrow> app_step senv net tenv a a'"

inductive_cases app_stepE: "app_step senv net tenv a a'"

section \<open>The server inside the program\<close>

lemma tcServer_packet:
  "tcServer (packet_handler env clk p a) = tcServer a \<or> tc_step tenv (tcServer a) (tcServer (packet_handler env clk p a))"
  by (cases p) (auto simp: packet_handler_tcServer intro: tc_step.sections tc_step.control)

lemma tcServer_setting: "on_numeric_value senv objectID v a = Some a' \<Longrightarrow> tcServer a' = tcServer a"
  by (auto simp: on_numeric_value_def config_refused_def with_settings_def Let_def split: if_splits option.splits prod.splits bool.splits)

text \<open>Every step of the program does one call on the server or none.\<close>

lemma app_step_server:
  assumes "app_step senv net tenv a a'"
  shows "tcServer a' = tcServer a \<or> tc_step tenv (tcServer a) (tcServer a')"
  using assms
proof cases
  case (packet env clk p)
  then show ?thesis using tcServer_packet by metis
next
  case (gnss clk)
  then show ?thesis using send_gnss_tcServer [of clk a] by (auto intro: tc_step.gnss)
next
  case (setting objectID v)
  then show ?thesis using tcServer_setting by blast
qed (auto intro: tc_step.measurement library_call_step)

section \<open>The invariant\<close>

definition packets_ok :: "packet list \<Rightarrow> bool" where
  "packets_ok ps \<longleftrightarrow> (\<forall>(src, pgn, data)\<in>set ps. src = 0x80 \<and> length data \<le> 62)"

definition udp_wf :: "'f udp_state \<Rightarrow> bool" where
  "udp_wf u \<longleftrightarrow> rx_wf (packet_rx u) \<and> rx_wf (address_rx u) \<and> settings_wf (udp_settings u)"

definition app_wf :: "'f app \<Rightarrow> bool" where
  "app_wf a \<longleftrightarrow> server_wf (tcServer a) \<and> udp_wf (udp a) \<and>
     sm_wf (workingWithoutDemand a) \<and> sm_wf (implementSnapshots a) \<and>
     length (sectionDemand a) \<in> {0, 64} \<and> gnssFixQuality a \<le> GNSS_QUALITY_MAX \<and>
     packets_ok (udp_out a) \<and> list_all (\<lambda>m. length (can_data m) = 8) (can_out a) \<and>
     pred_option (cache_ok 0) (vtClient a)"

named_theorems app_inv

text \<open>An operation that keeps these parts keeps the invariant.\<close>

lemma app_wf_same:
  assumes "app_wf a" "tcServer a' = tcServer a" "udp a' = udp a" "workingWithoutDemand a' = workingWithoutDemand a"
    "implementSnapshots a' = implementSnapshots a" "sectionDemand a' = sectionDemand a" "gnssFixQuality a' = gnssFixQuality a"
    "udp_out a' = udp_out a" "can_out a' = can_out a" "vtClient a' = vtClient a"
  shows "app_wf a'"
  using assms by (simp add: app_wf_def)

lemma app_wf_server: "app_wf a \<Longrightarrow> server_wf s \<Longrightarrow> app_wf (a\<lparr>tcServer := s\<rparr>)"
  by (simp add: app_wf_def)

lemma app_wf_udp: "app_wf a \<Longrightarrow> udp_wf u \<Longrightarrow> app_wf (a\<lparr>udp := u\<rparr>)"
  by (simp add: app_wf_def)

lemma app_wf_emit: "app_wf a \<Longrightarrow> length data \<le> 62 \<Longrightarrow> app_wf (udp_emit 0x80 pgn data a)"
  by (auto simp: app_wf_def udp_emit_def packets_ok_def)

lemma app_wf_message [app_inv]: "app_wf a \<Longrightarrow> app_wf (send_hardware_message msg d col a)"
  using text_length_le(1) [of msg] by (auto simp: send_hardware_message_def Let_def intro!: app_wf_emit)

lemma app_wf_can: "app_wf a \<Longrightarrow> length (can_data m) = 8 \<Longrightarrow> app_wf (can_emit m a)"
  by (simp add: app_wf_def can_emit_def)

lemma app_wf_fold:
  assumes "\<And>x b. x \<in> set xs \<Longrightarrow> app_wf b \<Longrightarrow> app_wf (f x b)" "app_wf a"
  shows "app_wf (fold f xs a)"
  using assms by (induction xs arbitrary: a) auto

lemma app_wf_notes [app_inv]:
  "app_wf a \<Longrightarrow> app_wf (note_update_call clk a)" "app_wf a \<Longrightarrow> app_wf (note_library_calls clk a)"
  "app_wf a \<Longrightarrow> app_wf (log_section_demand clk a)"
  by (auto simp: app_wf_def note_update_call_def note_library_calls_def log_section_demand_def Let_def split: prod.splits)

lemma app_wf_demand [app_inv]:
  assumes "app_wf a"
  shows "app_wf (check_demand_periodically env clk a)"
proof -
  have "app_wf (check_client_demand env clk arriving e b)" if "app_wf b" for arriving e and b :: "'a app"
  proof -
    obtain client c where e: "e = (client, c)" by fastforce
    have "app_wf (b\<lparr>workingWithoutDemand := sm_erase n (workingWithoutDemand b)\<rparr>)"
      "app_wf (b\<lparr>workingWithoutDemand := sm_put n t (workingWithoutDemand b)\<rparr>)" for n t
      using that by (simp_all add: app_wf_def smap.wf_put smap.wf_erase)
    then show ?thesis by (auto simp: e check_client_demand_def Let_def intro: app_wf_message)
  qed
  moreover have "app_wf (a\<lparr>sectionDemandArriving := b\<rparr>)" for b by (rule app_wf_same [OF assms]) simp_all
  ultimately have "app_wf (check_section_demand env clk a)"
    by (auto simp: check_section_demand_def Let_def intro: app_wf_fold)
  then show ?thesis
    using assms by (auto simp: check_demand_periodically_def Let_def intro: app_wf_same)
qed

lemma app_wf_conflict [app_inv]: "app_wf a \<Longrightarrow> app_wf (check_conflict env clk a)"
  by (auto simp: check_conflict_def Let_def intro: app_wf_same [OF app_wf_message] app_wf_same)

lemma app_wf_claim [app_inv]: "app_wf a \<Longrightarrow> app_wf (report_claim_failure a)"
  by (auto simp: report_claim_failure_def intro: app_wf_same [OF app_wf_message])

lemma app_wf_scan [app_inv]:
  assumes "app_wf a"
  shows "app_wf (scan_implements env clk a)"
proof -
  let ?new = "current_snapshots env (clients (tcServer a)) []"
  have "app_wf (announce_found m e b)" "app_wf (announce_lost m e b)" if "app_wf b" for m e and b :: "'a app"
    using that by (simp_all add: announce_found_def announce_lost_def app_wf_message)
  then have "app_wf (fold (announce_lost ?new) (implementSnapshots a) (fold (announce_found (implementSnapshots a)) ?new a))"
    using assms by (intro app_wf_fold)
  moreover have "sm_wf ?new" by (rule sm_wf_current_snapshots) simp
  ultimately show ?thesis using assms by (simp add: scan_implements_def Let_def app_wf_def)
qed

lemma app_wf_heartbeat [app_inv]:
  assumes "app_wf a"
  shows "app_wf (send_heartbeat clk a)"
proof -
  let ?live = "filter (\<lambda>(client, c). numberOfSections c \<noteq> 0) (clients (tcServer a))"
  have "app_wf (fold (\<lambda>(client, c). udp_emit 0x80 0xF0 (heartbeat_data c)) ?live a)"
    using assms order_trans [OF heartbeat_data_short, of 62] by (intro app_wf_fold) (auto intro!: app_wf_emit)
  moreover have "app_wf (b\<lparr>lastHeartbeatTransmit := t\<rparr>) = app_wf b" for b :: "'a app" and t by (simp add: app_wf_def)
  ultimately show ?thesis using assms by (simp add: send_heartbeat_def Let_def app_wf_emit)
qed

lemma app_wf_bus_messages [app_inv]:
  "app_wf a \<Longrightarrow> app_wf (send_j1939_speed env clk a)" "app_wf a \<Longrightarrow> app_wf (send_tc_status env clk a)"
  by (simp_all add: app_wf_def send_j1939_speed_def send_tc_status_def send_task_controller_status_message_def can_emit_def Let_def)

lemma app_wf_gnss [app_inv]: "app_wf a \<Longrightarrow> app_wf (send_gnss clk a)"
  by (auto simp: send_gnss_def app_wf_def intro: tc_wf)

lemma app_wf_values:
  "app_wf a \<Longrightarrow> app_wf (on_speed_value v a)" "app_wf a \<Longrightarrow> app_wf (on_distance_value v a)"
  "app_wf a \<Longrightarrow> app_wf (on_xte_value env clk v a)"
  by (auto simp: app_wf_def on_speed_value_def on_distance_value_def on_xte_value_def can_emit_def xte_data_def Let_def split: option.splits)

lemma app_wf_packet [app_inv]:
  assumes "app_wf a"
  shows "app_wf (packet_handler env clk p a)"
proof -
  obtain src pgn data where p: "p = (src, pgn, data)" by (metis prod_cases3)
  have "app_wf (on_gnss_packet clk data a)"
    using assms by (simp add: on_gnss_packet_def app_wf_def Let_def GNSS_QUALITY_MAX_def)
  moreover have "app_wf (on_section_packet clk data a)"
    using assms by (auto simp: on_section_packet_def app_wf_def Let_def length_decode_sections intro: tc_wf)
  moreover have "app_wf (on_control_packet clk data a)"
    using assms by (auto simp: on_control_packet_def app_wf_def intro: tc_wf)
  moreover have "app_wf (on_process_data_packet env clk data a)"
    using app_wf_same [OF assms, of "a\<lparr>lastAogPacketMs := timestamp_ms clk\<rparr>"]
    by (simp add: on_process_data_packet_def Let_def app_wf_values)
  ultimately show ?thesis using assms by (simp add: p packet_handler_def)
qed

lemma app_wf_terminal [app_inv]: "app_wf a \<Longrightarrow> app_wf (update_vt_client env clk a)"
  by (auto simp: app_wf_def update_vt_client_def option.pred_map comp_def elim!: option.pred_mono_strong intro: cache_ok_cycle)

lemma app_wf_soft_key: "app_wf a \<Longrightarrow> app_wf (a\<lparr>vtClient := map_option (on_soft_key pressed objectID) (vtClient a)\<rparr>)"
  by (auto simp: app_wf_def option.pred_map comp_def on_soft_key_def Let_def elim!: option.pred_mono_strong intro: cache_ok_emit)

lemma app_wf_setting:
  assumes "app_wf a" "on_numeric_value senv objectID v a = Some a'"
  shows "app_wf a'"
proof -
  have st: "settings_wf st'" if "set_tecu_enabled senv b True (udp_settings (udp a)) fs = (r, st', fs') \<or>
      set_nmea_send_enabled senv b True (udp_settings (udp a)) fs = (r, st', fs')" for b fs r st' fs'
    using that assms(1)
    by (auto simp: set_tecu_enabled_def set_nmea_send_enabled_def set_boolean_def app_wf_def udp_wf_def settings_wf_def Let_def
        split: if_splits prod.splits option.splits bool.splits dest!: save_if_frame)
  have refused: "app_wf (config_refused i b)" if "app_wf b" for i and b :: "'a app"
    using that by (auto simp: config_refused_def app_wf_def option.pred_map comp_def elim!: option.pred_mono_strong intro: cache_ok_emit)
  have saved: "app_wf (with_settings (st', fs') a)" if "settings_wf st'" for st' fs'
    using assms(1) that by (simp add: with_settings_def app_wf_def udp_wf_def)
  have interface: "app_wf (b\<lparr>nmea2000MessageInterface := i\<rparr>)" if "app_wf b" for i and b :: "'a app"
    using that by (simp add: app_wf_def)
  obtain r st' fs' r2 st2 fs2
    where r: "set_nmea_send_enabled senv (v \<noteq> 0) True (udp_settings (udp a)) (udp_files (udp a)) = (r, st', fs')"
      "set_tecu_enabled senv (v \<noteq> 0) True (udp_settings (udp a)) (udp_files (udp a)) = (r2, st2, fs2)"
    by (metis prod_cases3)
  then have "app_wf (with_settings (st', fs') a)" "app_wf (with_settings (st2, fs2) a)" using st saved by blast+
  then show ?thesis
    using assms r by (auto simp: on_numeric_value_def Let_def refused interface split: if_splits option.splits bool.splits)
qed

section \<open>What arrives\<close>

text \<open>What holds of the events of every frame holds of all events of a run of the receive loop.\<close>

lemma frame_loop_events:
  assumes "frame_loop handle buf rx index = Some r"
  shows "(\<forall>b i. list_all P (fst (handle b i))) \<longrightarrow> list_all P (fst r)"
  using assms
proof (rule frame_loop.raw_induct
    [where P = "\<lambda>handle buf rx index r. (\<forall>b i. list_all P (fst (handle b i))) \<longrightarrow> list_all P (fst r)", rotated])
  fix loop :: "(bytes \<Rightarrow> u8 \<Rightarrow> 'a list \<times> u8) \<Rightarrow> bytes \<Rightarrow> nat \<Rightarrow> u8 \<Rightarrow> ('a list \<times> rx_state) option"
    and handle buf rx index r
  assume IH: "\<And>handle buf rx index r. loop handle buf rx index = Some r \<Longrightarrow>
      (\<forall>b i. list_all P (fst (handle b i))) \<longrightarrow> list_all P (fst r)"
    and run: "(if rx \<ge> 8
      then (case frame_step handle buf rx index of
              (events, buf', rx', index') \<Rightarrow>
                Option.bind (loop handle buf' rx' index') (\<lambda>(rest, st). Some (events @ rest, st)))
      else Some ([], \<lparr>rxBuffer = buf, rxIndex = rx\<rparr>)) = Some r"
  obtain ev buf' rx' index' where step: "frame_step handle buf rx index = (ev, buf', rx', index')"
    by (metis prod_cases4)
  then have "ev = [] \<or> (\<exists>b i. ev = fst (handle b i))"
    by (auto simp: frame_step_def Let_def split: if_splits prod.splits) (metis fst_conv)+
  then show "(\<forall>b i. list_all P (fst (handle b i))) \<longrightarrow> list_all P (fst r)"
    using run step IH by (fastforce simp: bind_eq_Some_conv split: if_splits)
qed

lemma detect_subnet_octets: "list_all (\<lambda>subnet. length subnet = 3) (fst (detect_subnet buf index))"
  by (simp add: detect_subnet_def Let_def)

lemma udp_wf_apply_subnet: "udp_wf u \<Longrightarrow> length subnet = 3 \<Longrightarrow> udp_wf (apply_subnet env net subnet u)"
  by (auto simp: apply_subnet_def udp_wf_def split: prod.split intro: settings_wf_setters(4))

lemma udp_wf_apply_subnets:
  "udp_wf u \<Longrightarrow> list_all (\<lambda>subnet. length subnet = 3) subnets \<Longrightarrow> udp_wf (fold (apply_subnet env net) subnets u)"
  by (induction subnets arbitrary: u) (auto simp: udp_wf_apply_subnet)

lemma receive_frames_fits:
  "receive_frames handle r st = Some (ev, st') \<Longrightarrow> rx_wf st \<Longrightarrow> fits_buffer r st \<Longrightarrow> rx_wf st'"
  by (rule receive_frames_wf) (auto simp: MAX_PACKET_SIZE_def)

lemma udp_wf_detect:
  assumes "udp_wf u" "fits_buffer r (address_rx u)" "handle_address_detection senv net r u = Some u'"
  shows "udp_wf u'"
proof -
  obtain subnets rx' where run: "receive_frames detect_subnet r (address_rx u) = Some (subnets, rx')"
    and u': "u' = fold (apply_subnet senv net) subnets (u\<lparr>address_rx := rx'\<rparr>)"
    using assms(3) by (auto simp: handle_address_detection_def)
  have "list_all (\<lambda>subnet. length subnet = 3) subnets"
    using run frame_loop_events [of detect_subnet _ _ _ "(subnets, rx')" "\<lambda>subnet. length subnet = 3"]
    by (auto simp: receive_frames_def detect_subnet_octets split: rx_result.splits)
  moreover have "udp_wf (u\<lparr>address_rx := rx'\<rparr>)"
    using assms(1) receive_frames_fits [OF run _ assms(2)] by (simp add: udp_wf_def)
  ultimately show ?thesis using udp_wf_apply_subnets unfolding u' by blast
qed

lemma udp_wf_receive:
  "udp_wf u \<Longrightarrow> fits_buffer r (packet_rx u) \<Longrightarrow> handle_incoming_packets b r (packet_rx u) = Some (packets, rx') \<Longrightarrow>
   udp_wf (u\<lparr>packet_rx := rx'\<rparr>)"
  by (auto simp: handle_incoming_packets_def udp_wf_def intro: receive_frames_fits)

lemma app_wf_part: "app_wf a \<Longrightarrow> server_wf (tcServer a)" "app_wf a \<Longrightarrow> udp_wf (udp a)"
  by (simp_all add: app_wf_def)

section \<open>The program keeps its invariant\<close>

lemma app_step_wf:
  assumes "app_wf a" "app_step senv net tenv a a'"
  shows "app_wf a'"
  using assms(2)
proof cases
  case (detect r u)
  then show ?thesis using app_wf_udp [OF assms(1)] udp_wf_detect [OF app_wf_part(2) [OF assms(1)]] by blast
next
  case (receive r packets rx')
  then show ?thesis using app_wf_udp [OF assms(1)] udp_wf_receive [OF app_wf_part(2) [OF assms(1)]] by blast
next
  case request
  then show ?thesis using assms(1) by (simp add: app_wf_server app_wf_part tc_wf)
next
  case (callback s)
  then show ?thesis using app_wf_server [OF assms(1)] tc_step_wf [OF app_wf_part(1) [OF assms(1)]] library_call_step by blast
next
  case (setting objectID v)
  then show ?thesis using assms(1) app_wf_setting by blast
qed (use assms(1) in \<open>simp_all add: app_inv app_wf_soft_key\<close>)

lemma app_step_allowed:
  assumes "app_wf a" "app_step senv net tenv a a'"
  shows "\<exists>new. bus (tcServer a') = bus (tcServer a) @ new \<and> (\<forall>m\<in>set new. allowed (tcServer a) m)"
  using app_step_server [OF assms(2)] tc_step_allowed [OF app_wf_part(1) [OF assms(1)]] by auto

interpretation program: audited_system "app_step senv net tenv" app_wf "\<lambda>a. bus (tcServer a)" "\<lambda>a. allowed (tcServer a)"
  for senv net tenv
  by unfold_locales (auto intro: app_step_wf dest: app_step_allowed)

section \<open>The start establishes the invariant\<close>

lemma app_wf_new: "app_wf (new_app fs)"
  using server_wf_new rx_wf_initial settings_wf_default
  by (simp add: new_app_def app_wf_def udp_wf_def packets_ok_def)

lemma claim_delay_state: "claim_delay W who p = Some q \<Longrightarrow> state q = state p"
  by (auto simp: claim_delay_def Let_def say_def split: if_splits)

lemma setup_can_hardware_state: "setup_can_hardware W has_driver p = Some (started, q) \<Longrightarrow> state q = state p"
  by (auto simp: setup_can_hardware_def say_def configure_def split: if_splits prod.splits)

lemma setup_tecu_state:
  "setup_tecu W tractorECU p = Some q \<Longrightarrow> state q = state p \<or> state q = (state p)\<lparr>tecuAddressClaimFailed := True\<rparr>"
  by (auto simp: setup_tecu_def tecu_refused_def say_def Let_def dest!: claim_delay_state split: if_splits)

lemma setup_control_functions_state:
  assumes "setup_control_functions W taskController tractorECU p = Some (ok, q)"
  shows "state q = state p \<or> state q = (state p)\<lparr>tecuAddressClaimFailed := True\<rparr>"
proof -
  have "state q = state p \<or> (\<exists>p3. state p3 = state p \<and> (\<exists>p4. setup_tecu W tractorECU p3 = Some p4 \<and> state q = state p4))"
    using assms
    by (fastforce simp: setup_control_functions_def say_def Let_def bind_eq_Some_conv dest!: claim_delay_state
        split: option.splits prod.splits bool.splits if_splits)
  then show ?thesis using setup_tecu_state by metis
qed

lemma app_wf_flag: "app_wf (a\<lparr>tecuAddressClaimFailed := b\<rparr>) \<longleftrightarrow> app_wf a"
  by (simp add: app_wf_def)

lemma setup_services_wf:
  assumes "app_wf (state p)" "setup_services W env p = (r, q)"
  shows "app_wf (state q)"
proof -
  let ?p1 = "say [Line ''Task controller server started.'']
    (setup_tecu_interfaces W (se_speed env) (se_cog_sog env) (setup_task_controller_server p))"
  have p1: "app_wf (state ?p1)"
    using assms(1) server_wf_new
    by (simp add: app_wf_def say_def configure_def setup_tecu_interfaces_def setup_task_controller_server_def Let_def)
  have vt: "app_wf (setup_vt_client pool hash a)" if "app_wf a" for pool hash and a :: "'a app"
    using that cache_ok_new by (simp add: app_wf_def setup_vt_client_def)
  define p2 where "p2 = (if vtEnabled (udp_settings (udp (state ?p1))) then ?p1\<lparr>state := setup_vt_client (se_pool env) (se_hash env) (state ?p1)\<rparr>
    else say [Tagged ''Info'' ''VT UI disabled in settings, skipping VT client.''] ?p1)"
  have "app_wf (state p2)" using p1 vt by (simp add: p2_def say_def)
  moreover have "setup_udp_connections env p2 = (r, q)" using assms(2) by (simp only: setup_services_def Let_def p2_def)
  ultimately show ?thesis
    by (auto simp: setup_udp_connections_def udp_open_def say_def app_wf_def udp_wf_def split: if_splits)
qed

lemma load_settings_wf:
  assumes "json_lib_ok (set_json env)" "settings_wf st" "load_settings env fs st = (r, st')"
  shows "settings_wf st'"
  using assms by (auto simp: load_settings_def intro: settings_wf_from split: option.splits)

text \<open>The start ends after the settings, the hardware, the claims or the services.\<close>

lemma initialize_cases:
  assumes "initialize W env has_driver p = Some (r, q)"
  obtains (threw) "q = p"
  | (begun) l st a0 where "load_settings (se_settings env) (udp_files (udp (state p))) (udp_settings (udp (state p))) = (l, st)"
      "a0 = (state p)\<lparr>udp := (udp (state p))\<lparr>udp_settings := st\<rparr>\<rparr>"
      "state q = a0 \<or> (\<exists>p2. (state p2 = a0 \<or> state p2 = a0\<lparr>tecuAddressClaimFailed := True\<rparr>) \<and>
         (q = p2 \<or> setup_services W env p2 = (r, q)))"
proof -
  obtain l st where l: "load_settings (se_settings env) (udp_files (udp (state p))) (udp_settings (udp (state p))) = (l, st)"
    by fastforce
  define p0 where "p0 = p\<lparr>state := (state p)\<lparr>udp := (udp (state p))\<lparr>udp_settings := st\<rparr>\<rparr>\<rparr>"
  consider "q = p"
    | started p1 where "setup_can_hardware W has_driver p0 = Some (started, p1)" "q = p1"
    | started p1 claimed p2 where "setup_can_hardware W has_driver p0 = Some (started, p1)"
        "setup_control_functions W (se_taskController env) (se_tractorECU env) p1 = Some (claimed, p2)"
        "q = p2 \<or> setup_services W env p2 = (r, q)"
    using assms l
    by (auto simp: initialize_def p0_def [symmetric] bind_eq_Some_conv split: option.splits prod.splits if_splits)
  then show thesis
  proof cases
    case 2
    then show thesis using begun [OF l, of "state p0"] setup_can_hardware_state [OF 2(1)] by (simp add: p0_def)
  next
    case 3
    then have "state p2 = state p0 \<or> state p2 = (state p0)\<lparr>tecuAddressClaimFailed := True\<rparr>"
      using setup_can_hardware_state [OF 3(1)] setup_control_functions_state [OF 3(2)] by metis
    then show thesis using begun [OF l, of "state p0"] 3(3) by (auto simp: p0_def)
  qed (rule threw)
qed

lemma initialize_wf:
  assumes "json_lib_ok (set_json (se_settings env))" "initialize W env has_driver p = Some (r, q)" "app_wf (state p)"
  shows "app_wf (state q)"
  using assms(2)
proof (cases rule: initialize_cases)
  case (begun l st a0)
  have "app_wf a0"
    using assms(3) load_settings_wf [OF assms(1) _ begun(1)] by (simp add: begun(2) app_wf_def udp_wf_def)
  then show ?thesis using begun(3) app_wf_flag setup_services_wf by metis
qed (use assms(3) in simp)

lemma initialize_server:
  assumes "initialize W env has_driver p = Some (r, q)" "tcServer (state p) = new_server"
  shows "tcServer (state q) = new_server"
  using assms(1)
proof (cases rule: initialize_cases)
  case (begun l st a0)
  have "tcServer (state q) = new_server" if "setup_services W env p2 = (r, q)" for p2
    using that
    by (auto simp: setup_services_def setup_udp_connections_def udp_open_def setup_vt_client_def Let_def
        setup_server_frame setup_tecu_interfaces_frame split: if_splits)
  moreover have "tcServer a0 = new_server" using begun(2) assms(2) by simp
  ultimately show ?thesis using begun(3) by auto
qed (use assms(2) in simp)

section \<open>A cycle is a sequence of steps\<close>

lemma step_after:
  "app_step senv net tenv b c \<Longrightarrow> (app_step senv net tenv)\<^sup>*\<^sup>* a b \<Longrightarrow> (app_step senv net tenv)\<^sup>*\<^sup>* a c"
  by (rule rtranclp.rtrancl_into_rtrancl)

lemma rtranclp_fold:
  assumes "\<And>x s. R s (f x s)"
  shows "R\<^sup>*\<^sup>* s (fold f xs s)"
  by (induction xs arbitrary: s) (auto intro: converse_rtranclp_into_rtranclp assms)

lemma address_detection_packet_rx:
  assumes "handle_address_detection senv net r u = Some u'"
  shows "packet_rx u' = packet_rx u"
proof -
  have "packet_rx (fold (apply_subnet senv net) subnets v) = packet_rx v" for subnets v
    by (induction subnets arbitrary: v) (auto simp: apply_subnet_def split: prod.split)
  then show ?thesis using assms by (auto simp: handle_address_detection_def)
qed

lemma cycle_work_steps:
  assumes "app_tc env = tenv"
  shows "(app_step senv net tenv)\<^sup>*\<^sup>* a (cycle_work env clk a)"
  unfolding cycle_work_def
  by (rule step_after [OF app_step.gnss],
      rule step_after [OF app_step.status],
      rule step_after [OF app_step.speed],
      rule step_after [OF app_step.heartbeat],
      rule step_after [OF app_step.claim_failure],
      rule step_after [OF app_step.scan [OF assms]],
      rule step_after [OF app_step.conflict],
      rule step_after [OF app_step.check_demand [OF assms]],
      rule step_after [OF app_step.log_demand], rule rtranclp.rtrancl_refl)

lemma update_steps:
  assumes "application_update senv net env clk r_address r_packet a = Some a'"
    "fits_buffer r_address (address_rx (udp a))" "fits_buffer r_packet (packet_rx (udp a))"
  shows "(app_step senv net (app_tc env))\<^sup>*\<^sup>* a a'"
  using assms(1)
proof (rule application_update_cases)
  let ?step = "app_step senv net (app_tc env)"
  fix u packets rx' a1
  assume u: "handle_address_detection senv net r_address (udp a) = Some u"
    and rx: "handle_incoming_packets True r_packet (packet_rx u) = Some (packets, rx')"
    and a1: "a1 = fold (packet_handler env clk) packets ((note_update_call clk a)\<lparr>udp := u\<lparr>packet_rx := rx'\<rparr>\<rparr>)"
    and a': "a' = cycle_work env clk (update_vt_client env clk (note_library_calls clk
       (a1\<lparr>tcServer := request_measurement_commands (app_tc env) (tcServer a1)\<rparr>)))"
  define b where "b = note_update_call clk a"
  have b: "udp b = udp a" by (simp add: b_def)
  have "?step\<^sup>*\<^sup>* a b" unfolding b_def by (rule r_into_rtranclp) (rule app_step.note_update)
  also have "?step\<^sup>*\<^sup>* b (b\<lparr>udp := u\<rparr>)" by (rule r_into_rtranclp, rule app_step.detect) (use assms(2) u b in auto)
  also have "?step\<^sup>*\<^sup>* (b\<lparr>udp := u\<rparr>) (b\<lparr>udp := u\<lparr>packet_rx := rx'\<rparr>\<rparr>)"
    using app_step.receive [of r_packet "b\<lparr>udp := u\<rparr>" packets rx' senv net "app_tc env"] assms(3) rx
      address_detection_packet_rx [OF u] by (simp add: r_into_rtranclp)
  also have "?step\<^sup>*\<^sup>* (b\<lparr>udp := u\<lparr>packet_rx := rx'\<rparr>\<rparr>) a1"
    unfolding a1 b_def by (rule rtranclp_fold) (rule app_step.packet [OF refl])
  also have "?step\<^sup>*\<^sup>* a1 (a1\<lparr>tcServer := request_measurement_commands (app_tc env) (tcServer a1)\<rparr>)" by (rule r_into_rtranclp) (rule app_step.request)
  also have "?step\<^sup>*\<^sup>* \<dots> (note_library_calls clk \<dots>)" by (rule r_into_rtranclp) (rule app_step.library)
  also have "?step\<^sup>*\<^sup>* \<dots> (update_vt_client env clk \<dots>)" by (rule r_into_rtranclp) (rule app_step.terminal [OF refl])
  also have "?step\<^sup>*\<^sup>* \<dots> a'" unfolding a' by (rule cycle_work_steps) simp
  finally show ?thesis .
qed

end
