(* ===== verification/System_Properties.thy ===== *)
theory System_Properties
  imports App_System Tc_Properties App_Properties
begin

text \<open>
  What holds of the program as a whole, from a successful start on and for every order in which the
  main loop, the library and the network take turns: its state stays well-formed, what it sends to the
  implements is allowed and follows a packet, and its cycles are made of its steps.
\<close>

section \<open>The start\<close>

lemma started:
  assumes "json_lib_ok (set_json (se_settings env))" "initialize W env has_driver (new_application fs w) = Some (r, q)"
  shows "app_wf (state q)" "bus (tcServer (state q)) = []"
proof -
  show "app_wf (state q)" by (rule initialize_wf [OF assms]) (simp add: new_application_def app_wf_new)
  show "bus (tcServer (state q)) = []"
    using initialize_server [OF assms(2)] by (simp add: new_application_def new_app_def new_server_def)
qed

section \<open>What drives sections\<close>

lemma each_client_quiet:
  assumes "server_wf s" "\<And>client c m. client_wf c \<Longrightarrow> m \<in> set (snd (body client c)) \<Longrightarrow> \<not> drives_sections m"
  shows "\<exists>new. bus (each_client body s) = bus s @ new \<and> (\<forall>m\<in>set new. \<not> drives_sections m)"
proof -
  have "client_wf c" if "(client, c) \<in> set (clients s)" for client c
    using assms(1) that by (metis server_wf_def sm_in_find)
  with assms(2) bus_each_client [of body s] show ?thesis by blast
qed

lemma quiet_calls:
  assumes "server_wf s"
  shows "\<exists>new. bus (request_measurement_commands env s) = bus s @ new \<and> (\<forall>m\<in>set new. \<not> drives_sections m)"
    "\<exists>new. bus (update_section_control_enabled enabled s) = bus s @ new \<and> (\<forall>m\<in>set new. \<not> drives_sections m)"
    "\<exists>new. bus (send_gnss_quality quality s) = bus s @ new \<and> (\<forall>m\<in>set new. \<not> drives_sections m)"
  unfolding request_measurement_commands_def update_section_control_enabled_def send_gnss_quality_def
  by (rule each_client_quiet [OF assms];
      auto simp: update_client_control_enabled_def send_section_control_state_def send_client_gnss_quality_def Let_def
        dest!: request_client_messages split: if_splits)+

lemma library_call_bus: "server_wf s \<Longrightarrow> library_call env s t \<Longrightarrow> bus t = bus s"
  by (auto simp: library_call_iff on_value_command_bus store_device_descriptor_object_pool_def deactivate_object_pool_def
      delete_device_descriptor_object_pool_def on_client_timeout_def activate_object_pool_def Let_def
      split: option.split prod.split)

text \<open>A packet with section states, and the messages it causes in a state.\<close>

definition section_answer :: "'f app \<Rightarrow> bytes \<Rightarrow> bus_msg \<Rightarrow> bool" where
  "section_answer a data m \<longleftrightarrow> 8 \<le> length data \<and>
     (\<exists>client c. sm_find (clients (tcServer a)) client = Some c \<and> isSectionControlEnabled c \<and>
        m \<in> set (snd (update_client_sections (decode_sections data) client c)))"

lemma packet_drives:
  assumes "server_wf (tcServer a)" "bus (tcServer (packet_handler env clk p a)) = bus (tcServer a) @ new" "m \<in> set new" "drives_sections m"
  shows "\<exists>data. p = (0x7F, 0xE5, data) \<and> section_answer a data m"
proof -
  obtain src pgn data where p: "p = (src, pgn, data)" by (metis prod_cases3)
  consider (demand) "src = 0x7F" "pgn = 0xE5" "8 \<le> length data"
    | (control) enabled where "tcServer (packet_handler env clk p a) = update_section_control_enabled enabled (tcServer a)"
    | (none) "tcServer (packet_handler env clk p a) = tcServer a"
    using packet_handler_tcServer [of env clk src pgn data a] unfolding p by (metis (full_types))
  then show ?thesis
  proof cases
    case demand
    then have "bus (each_client (update_client_sections (decode_sections data)) (tcServer a)) = bus (tcServer a) @ new"
      using assms(2) by (simp add: p packet_handler_tcServer update_section_states_def)
    then obtain client c where c: "(client, c) \<in> set (clients (tcServer a))"
        "m \<in> set (snd (update_client_sections (decode_sections data) client c))"
      using bus_each_client [of "update_client_sections (decode_sections data)" "tcServer a"] assms(3) by auto
    then have "isSectionControlEnabled c" by (auto simp: update_client_sections_def split: if_splits)
    moreover have "sm_find (clients (tcServer a)) client = Some c"
      using assms(1) c(1) by (simp add: server_wf_def sm_in_find)
    ultimately show ?thesis using c(2) demand by (auto simp: p section_answer_def)
  next
    case (control enabled)
    then show ?thesis using quiet_calls(2) [OF assms(1), of enabled] assms(2-4) by auto
  qed (use assms(2,3) in simp)
qed

text \<open>A message that drives sections and is new after a step of the program is the answer to the packet of that step.\<close>

lemma app_step_drives:
  assumes "app_wf a" "app_step senv net tenv a a'" "bus (tcServer a') = bus (tcServer a) @ new" "m \<in> set new" "drives_sections m"
  shows "\<exists>env clk data. a' = packet_handler env clk (0x7F, 0xE5, data) a \<and> section_answer a data m"
proof -
  note wf = app_wf_part(1) [OF assms(1)]
  note quiet = quiet_calls [OF wf] assms(3-5)
  show ?thesis
    using assms(2)
  proof cases
    case (packet env clk p)
    then show ?thesis using packet_drives [OF wf _ assms(4,5), of env clk p] assms(3) by blast
  next
    case request
    then show ?thesis using quiet(1) [of tenv] quiet(4-6) by auto
  next
    case (gnss clk)
    then consider "tcServer a' = tcServer a" | q where "tcServer a' = send_gnss_quality q (tcServer a)"
      using send_gnss_tcServer by blast
    then show ?thesis
    proof cases
      case (2 q)
      then show ?thesis using quiet(3) [of q] quiet(4-6) by auto
    qed (use assms(3,4) in simp)
  next
    case (callback s)
    then show ?thesis using library_call_bus [OF wf] assms(3,4) by simp
  next
    case (setting objectID v)
    then have "tcServer a' = tcServer a" by (rule tcServer_setting)
    then show ?thesis using assms(3,4) by simp
  qed (use assms(3,4) in simp_all)
qed

section \<open>Cycles\<close>

text \<open>What one call of \<open>Application::update\<close> gets from outside, and the calls the main loop makes one after the other.\<close>

type_synonym cycle_input = "app_env \<times> clock \<times> rx_result \<times> rx_result"

fun update_cycles :: "('j, 'f) settings_env \<Rightarrow> net_env \<Rightarrow> cycle_input list \<Rightarrow> 'f app \<Rightarrow> 'f app option" where
  "update_cycles senv net [] a = Some a"
| "update_cycles senv net ((env, clk, r_address, r_packet) # rest) a =
     Option.bind (application_update senv net env clk r_address r_packet a) (update_cycles senv net rest)"

text \<open>A datagram that fits into the free space of every well-formed receive buffer, and an empty socket.\<close>

fun short_datagram :: "rx_result \<Rightarrow> bool" where
  "short_datagram (Received data) \<longleftrightarrow> length data \<le> 505"
| "short_datagram _ = True"

fun nothing_received :: "rx_result \<Rightarrow> bool" where
  "nothing_received (Received data) = False"
| "nothing_received _ = True"

lemma short_datagram_fits: "short_datagram r \<Longrightarrow> rx_wf st \<Longrightarrow> fits_buffer r st"
  by (cases r) (auto simp: rx_wf_def MAX_PACKET_SIZE_def)

lemma update_cycles_steps:
  assumes "update_cycles senv net ins a = Some a'" "app_wf a"
    "list_all (\<lambda>(env, clk, r_address, r_packet). app_tc env = tenv \<and> short_datagram r_address \<and> short_datagram r_packet) ins"
  shows "(app_step senv net tenv)\<^sup>*\<^sup>* a a'"
  using assms
proof (induction ins arbitrary: a)
  case (Cons i ins)
  obtain env clk r_address r_packet where i: "i = (env, clk, r_address, r_packet)" by (metis prod_cases4)
  with Cons.prems obtain b where b: "application_update senv net env clk r_address r_packet a = Some b"
    "update_cycles senv net ins b = Some a'" by (auto simp: bind_eq_Some_conv)
  have "udp_wf (udp a)" using Cons.prems(2) by (rule app_wf_part)
  then have ab: "(app_step senv net tenv)\<^sup>*\<^sup>* a b"
    using update_steps [OF b(1)] short_datagram_fits Cons.prems(3) by (auto simp: i udp_wf_def)
  moreover have "(app_step senv net tenv)\<^sup>*\<^sup>* b a'"
    using Cons.IH [OF b(2)] program.reach_inv [OF ab Cons.prems(2)] Cons.prems(3) by simp
  ultimately show ?case by (rule rtranclp_trans)
qed simp

section \<open>Silence\<close>

text \<open>What the server wants of a client, and of all of them.\<close>

definition commanded :: "client_state \<Rightarrow> u8 list \<times> bool \<times> bool" where
  "commanded c = (sectionSetpointStates c, setpointWorkState c, isSectionControlEnabled c)"

definition all_commanded :: "tc_server \<Rightarrow> (cf \<times> u8 list \<times> bool \<times> bool) list" where
  "all_commanded s = map (\<lambda>(client, c). (client, commanded c)) (clients s)"

definition keeps_commands :: "tc_server \<Rightarrow> tc_server \<Rightarrow> bool" where
  "keeps_commands s t \<longleftrightarrow> server_wf t \<and> all_commanded t = all_commanded s \<and>
     (\<exists>new. bus t = bus s @ new \<and> (\<forall>m\<in>set new. \<not> drives_sections m))"

lemma keeps_commands_refl: "server_wf s \<Longrightarrow> keeps_commands s s"
  by (simp add: keeps_commands_def)

lemma keeps_commands_trans: "keeps_commands s t \<Longrightarrow> keeps_commands t u \<Longrightarrow> keeps_commands s u"
  by (auto simp: keeps_commands_def)

lemma all_commanded_each_client:
  assumes "server_wf s" "\<And>client c. client_wf c \<Longrightarrow> commanded (fst (body client c)) = commanded c"
  shows "all_commanded (each_client body s) = all_commanded s"
proof -
  have "client_wf c" if "(client, c) \<in> set (clients s)" for client c
    using assms(1) that by (metis server_wf_def sm_in_find)
  with assms(2) show ?thesis by (auto simp: all_commanded_def each_client_eq)
qed

lemma commanded_request:
  assumes "client_wf c"
  shows "commanded (fst (request_client_commands env client c)) = commanded c"
proof (cases "\<not> areMeasurementCommandsSent c \<and> 0 < numberOfSections c")
  case True
  then obtain m where "fst (request_client_commands env client c) = c\<lparr>ddiToElementNumber := m, areMeasurementCommandsSent := True\<rparr>"
    using request_client_commands_spec(1) [OF assms] by blast
  then show ?thesis by (simp add: commanded_def)
next
  case False
  then show ?thesis by (auto simp: request_client_commands_def)
qed

lemma keeps_commands_calls:
  assumes "server_wf s"
  shows "keeps_commands s (request_measurement_commands env s)" "keeps_commands s (send_gnss_quality quality s)"
proof -
  have "all_commanded (request_measurement_commands env s) = all_commanded s"
    unfolding request_measurement_commands_def by (rule all_commanded_each_client [OF assms commanded_request])
  then show "keeps_commands s (request_measurement_commands env s)"
    using quiet_calls(1) [OF assms] server_wf_client_loops(1) [OF assms] by (simp add: keeps_commands_def)
  have "all_commanded (send_gnss_quality quality s) = all_commanded s"
    unfolding send_gnss_quality_def by (rule all_commanded_each_client [OF assms]) (simp add: send_client_gnss_quality_def)
  then show "keeps_commands s (send_gnss_quality quality s)"
    using quiet_calls(3) [OF assms] server_wf_client_loops(4) [OF assms] by (simp add: keeps_commands_def)
qed

lemma silent_cycle:
  assumes "server_wf (tcServer a)" "nothing_received r_address" "nothing_received r_packet"
  shows "\<exists>b. application_update senv net env clk r_address r_packet a = Some b \<and> keeps_commands (tcServer a) (tcServer b)"
proof -
  have d: "handle_address_detection senv net r_address (udp a) = Some (udp a)"
    using assms(2) by (cases r_address) (simp_all add: handle_address_detection_def receive_frames_def)
  have p: "handle_incoming_packets True r_packet (packet_rx (udp a)) = Some ([], packet_rx (udp a))"
    using assms(3) by (cases r_packet) (simp_all add: handle_incoming_packets_def receive_frames_def)
  obtain b where b: "application_update senv net env clk r_address r_packet a = Some b"
    using d p by (simp add: application_update_def Let_def)
  then obtain c where c: "b = cycle_work env clk c" "tcServer c = request_measurement_commands (app_tc env) (tcServer a)"
    by (rule application_update_cases) (use d p in \<open>auto simp: Let_def\<close>)
  have 1: "keeps_commands (tcServer a) (tcServer c)" using keeps_commands_calls(1) [OF assms(1)] c(2) by simp
  then have "server_wf (tcServer c)" by (simp add: keeps_commands_def)
  then have "keeps_commands (tcServer c) (tcServer b)"
    using cycle_work_tcServer [of env clk c] keeps_commands_refl keeps_commands_calls(2) unfolding c(1) by metis
  with 1 b show ?thesis using keeps_commands_trans by blast
qed

lemma silent_cycles:
  assumes "server_wf (tcServer a)"
    "list_all (\<lambda>(env, clk, r_address, r_packet). nothing_received r_address \<and> nothing_received r_packet) ins"
  shows "\<exists>b. update_cycles senv net ins a = Some b \<and> keeps_commands (tcServer a) (tcServer b)"
  using assms
proof (induction ins arbitrary: a)
  case Nil
  then show ?case by (simp add: keeps_commands_refl)
next
  case (Cons i ins)
  obtain env clk r_address r_packet where i: "i = (env, clk, r_address, r_packet)" by (metis prod_cases4)
  obtain b where b: "application_update senv net env clk r_address r_packet a = Some b" "keeps_commands (tcServer a) (tcServer b)"
    using silent_cycle [OF Cons.prems(1), of r_address r_packet senv net env clk] Cons.prems(2) by (auto simp: i)
  moreover obtain c where "update_cycles senv net ins b = Some c" "keeps_commands (tcServer b) (tcServer c)"
    using Cons.IH [of b] Cons.prems(2) b(2) by (auto simp: keeps_commands_def)
  ultimately show ?case using keeps_commands_trans by (auto simp: i)
qed

section \<open>Properties\<close>

text \<open>
  C4 The state of the program stays well-formed: after a start that succeeded, in any order of the steps of
  the main loop, the callbacks of the library, the packets and the inputs of the operator, the client
  table and its section vectors are consistent, both receive buffers keep their size with fewer than
  eight bytes waiting, the settings hold three octets and a known version, the demand has no or 64
  sections, and every packet and bus message sent has a legal size.
\<close>

theorem program_stays_wf:
  assumes "json_lib_ok (set_json (se_settings env))"
    "initialize W env has_driver (new_application fs w) = Some (Returned True, q)"
    "(app_step (se_settings env) (se_net env) tenv)\<^sup>*\<^sup>* (state q) a"
  shows "server_wf (tcServer a) \<and> rx_wf (packet_rx (udp a)) \<and> rx_wf (address_rx (udp a)) \<and> settings_wf (udp_settings (udp a)) \<and>
     sm_wf (workingWithoutDemand a) \<and> sm_wf (implementSnapshots a) \<and> length (sectionDemand a) \<in> {0, 64} \<and>
     list_all (\<lambda>(src, pgn, data). src = 0x80 \<and> length data \<le> 62) (udp_out a) \<and>
     list_all (\<lambda>m. length (can_data m) = 8) (can_out a)"
proof -
  have "app_wf a" by (rule program.reach_inv [OF assms(3) started(1) [OF assms(1,2)]])
  then show ?thesis by (auto simp: app_wf_def udp_wf_def packets_ok_def list_all_iff)
qed

text \<open>
  C1 Every message the program puts on the bus is legitimate in the state it is sent in: after a start that
  succeeded the bus is empty, and whatever the order of the threads, each step of the program only adds
  messages to it. A message a step adds goes to a client that was connected with at least one section in
  the state before that very step, and in automatic mode there if the message drives sections. And when a
  step adds a message that drives sections, the step is the handling of a packet with section states
  from AgOpenGPS, and the message is an answer to it: nothing else the program does switches a section.
\<close>

theorem program_bus_safety:
  assumes "json_lib_ok (set_json (se_settings env))"
    "initialize W env has_driver (new_application fs w) = Some (Returned True, q)"
    "(app_step (se_settings env) (se_net env) tenv)\<^sup>*\<^sup>* (state q) a"
    "app_step (se_settings env) (se_net env) tenv a a'"
  shows "bus (tcServer (state q)) = [] \<and>
    (\<exists>new. bus (tcServer a') = bus (tcServer a) @ new \<and>
      (\<forall>m. m \<in> set new \<longrightarrow> allowed (tcServer a) m \<and>
        (drives_sections m \<longrightarrow> (\<exists>aenv clk data. a' = packet_handler aenv clk (0x7F, 0xE5, data) a \<and> section_answer a data m))))"
proof -
  note s = started [OF assms(1,2)]
  have wf: "app_wf a" by (rule program.reach_inv [OF assms(3) s(1)])
  obtain new where new: "bus (tcServer a') = bus (tcServer a) @ new" "\<forall>m\<in>set new. allowed (tcServer a) m"
    using app_step_allowed [OF wf assms(4)] by blast
  with s(2) app_step_drives [OF wf assms(4) new(1)] show ?thesis by (intro conjI exI [of _ new]) simp_all
qed

text \<open>A sprayer connects, is switched to automatic mode and gets a demand for its first section.\<close>

lemma sample_commands:
  "snd (update_client_sections (decode_sections [1, 0, 0, 0, 0, 0, 0, 0]) 7
     (fst (update_client_control_enabled True 7 (fst (request_client_commands sample_tc_env 7 (activated_state sample_tc_env sprayer_pool)))))) =
   [SetValue 7 290 1 1, SetValue 7 289 1 1]"
  by code_simp

lemma sample_run:
  fixes a :: "'f app"
  assumes "tcServer a = new_server"
  shows "\<exists>b b'. (app_step senv net sample_tc_env)\<^sup>*\<^sup>* a b \<and> app_step senv net sample_tc_env b b' \<and>
    bus (tcServer b') = bus (tcServer b) @ [SetValue 7 290 1 1, SetValue 7 289 1 1]"
proof -
  let ?step = "app_step senv net sample_tc_env"
  define b where "b = packet_handler sample_app_env (clock_at 5) (0x7F, 0xF1, [1]) (a\<lparr>tcServer := sample_subscribed\<rparr>)"
  define b' where "b' = packet_handler sample_app_env (clock_at 5) (0x7F, 0xE5, [1, 0, 0, 0, 0, 0, 0, 0]) b"
  have "?step\<^sup>*\<^sup>* a (a\<lparr>tcServer := uploaded_server\<rparr>)"
    using app_step.callback [OF library_call.upload] assms unfolding uploaded_server_def by (metis r_into_rtranclp)
  also have "?step\<^sup>*\<^sup>* (a\<lparr>tcServer := uploaded_server\<rparr>) (a\<lparr>tcServer := sample_activated\<rparr>)"
    using app_step.callback [OF library_call.activate, of senv net sample_tc_env "a\<lparr>tcServer := uploaded_server\<rparr>" 7]
    by (simp add: sample_activated_def r_into_rtranclp)
  also have "?step\<^sup>*\<^sup>* (a\<lparr>tcServer := sample_activated\<rparr>) (a\<lparr>tcServer := sample_subscribed\<rparr>)"
    using app_step.request [of senv net sample_tc_env "a\<lparr>tcServer := sample_activated\<rparr>"]
    by (simp add: sample_subscribed_def r_into_rtranclp)
  also have "?step\<^sup>*\<^sup>* (a\<lparr>tcServer := sample_subscribed\<rparr>) b"
    unfolding b_def by (intro step_after [OF app_step.packet] rtranclp.rtrancl_refl) (simp_all add: sample_app_env_def)
  finally have "?step\<^sup>*\<^sup>* a b" .
  moreover have "?step b b'" unfolding b'_def by (rule app_step.packet) (simp_all add: sample_app_env_def)
  moreover have "bus (tcServer b') = bus (tcServer b) @ [SetValue 7 290 1 1, SetValue 7 289 1 1]"
    by (simp add: b'_def b_def packet_handler_tcServer update_section_states_def update_section_control_enabled_def sample_subscribed_def
        request_measurement_commands_def each_client_eq sample_activated_state sample_commands)
  ultimately show ?thesis by blast
qed

lemma sample_started:
  assumes "initialize sample_world sample_start True (new_application (\<lambda>_. None) 0) = Some (Returned True, q)"
  shows "\<exists>b b'. (app_step (se_settings sample_start) (se_net sample_start) sample_tc_env)\<^sup>*\<^sup>* (state q) b \<and>
    app_step (se_settings sample_start) (se_net sample_start) sample_tc_env b b' \<and>
    bus (tcServer b') = bus (tcServer b) @ [SetValue 7 290 1 1, SetValue 7 289 1 1]"
  by (rule sample_run)
    (use initialize_server [OF assms] in \<open>simp_all add: new_application_def new_app_def\<close>)

lemma sample_start_lib: "json_lib_ok (set_json (se_settings sample_start))"
  by (simp add: sample_start_def sample_env_def sample_lib_ok)

theorem program_stays_wf_witness:
  "\<exists>q a. initialize sample_world sample_start True (new_application (\<lambda>_. None) 0) = Some (Returned True, q) \<and>
     (app_step (se_settings sample_start) (se_net sample_start) sample_tc_env)\<^sup>*\<^sup>* (state q) a \<and>
     SetValue 7 290 1 1 \<in> set (bus (tcServer a)) \<and> server_wf (tcServer a) \<and> length (sectionDemand a) \<in> {0, 64}"
proof -
  obtain q where q: "initialize sample_world sample_start True (new_application (\<lambda>_. None) 0) = Some (Returned True, q)"
    using sample_starts by blast
  obtain b a where b: "(app_step (se_settings sample_start) (se_net sample_start) sample_tc_env)\<^sup>*\<^sup>* (state q) b"
    "app_step (se_settings sample_start) (se_net sample_start) sample_tc_env b a"
    "bus (tcServer a) = bus (tcServer b) @ [SetValue 7 290 1 1, SetValue 7 289 1 1]" using sample_started [OF q] by blast
  have "(app_step (se_settings sample_start) (se_net sample_start) sample_tc_env)\<^sup>*\<^sup>* (state q) a"
    using b(1,2) by (rule rtranclp.rtrancl_into_rtrancl)
  then show ?thesis using program_stays_wf [OF sample_start_lib q] q b(3) by (intro exI [of _ q] exI [of _ a]) simp
qed

theorem program_bus_safety_witness:
  "\<exists>q a a' data. initialize sample_world sample_start True (new_application (\<lambda>_. None) 0) = Some (Returned True, q) \<and>
     (app_step (se_settings sample_start) (se_net sample_start) sample_tc_env)\<^sup>*\<^sup>* (state q) a \<and>
     app_step (se_settings sample_start) (se_net sample_start) sample_tc_env a a' \<and>
     bus (tcServer a') = bus (tcServer a) @ [SetValue 7 290 1 1, SetValue 7 289 1 1] \<and>
     allowed (tcServer a) (SetValue 7 290 1 1) \<and> section_answer a data (SetValue 7 290 1 1)"
proof -
  obtain q where q: "initialize sample_world sample_start True (new_application (\<lambda>_. None) 0) = Some (Returned True, q)"
    using sample_starts by blast
  obtain a a' where a: "(app_step (se_settings sample_start) (se_net sample_start) sample_tc_env)\<^sup>*\<^sup>* (state q) a"
    "app_step (se_settings sample_start) (se_net sample_start) sample_tc_env a a'"
    "bus (tcServer a') = bus (tcServer a) @ [SetValue 7 290 1 1, SetValue 7 289 1 1]" using sample_started [OF q] by blast
  have "drives_sections (SetValue 7 290 1 1)" by code_simp
  with program_bus_safety [OF sample_start_lib q a(1,2)] a(3) obtain data where
    "allowed (tcServer a) (SetValue 7 290 1 1)" "section_answer a data (SetValue 7 290 1 1)" by auto
  with q a show ?thesis by blast
qed

text \<open>
  The main loop is a run of the transition system: from a well-formed state, calls of
  \<open>Application::update\<close> one after the other, with any clock, any answers of the library (the same for the
  task controller server in every cycle) and datagrams of at most 505 bytes, lead from a state to one that the steps reach. So what holds of every interleaving holds of
  the program as it runs.
\<close>

theorem cycles_are_steps:
  assumes "app_wf a" "update_cycles senv net ins a = Some a'"
    "list_all (\<lambda>(env, clk, r_address, r_packet). app_tc env = tenv \<and> short_datagram r_address \<and> short_datagram r_packet) ins"
  shows "(app_step senv net tenv)\<^sup>*\<^sup>* a a' \<and> app_wf a'"
  using update_cycles_steps [OF assms(2,1,3)] program.reach_inv [OF _ assms(1)] by blast

text \<open>
  C18 Silence switches nothing: when nothing arrives from AgOpenGPS, however many cycles pass and whatever
  the clock says, the main loop goes on and leaves the setpoints, the work state and the mode of every
  client as they are, and sends no message that drives sections. Sections that were on when the
  connection broke stay on.
\<close>

theorem silence_keeps_sections:
  assumes "server_wf (tcServer a)"
    "list_all (\<lambda>(env, clk, r_address, r_packet). nothing_received r_address \<and> nothing_received r_packet) ins"
  shows "\<exists>b. update_cycles senv net ins a = Some b \<and> all_commanded (tcServer b) = all_commanded (tcServer a) \<and>
     (\<exists>new. bus (tcServer b) = bus (tcServer a) @ new \<and> list_all (\<lambda>m. \<not> drives_sections m) new)"
  using silent_cycles [OF assms, of senv net] unfolding keeps_commands_def list_all_iff by blast

lemma sample_silence:
  "list_all (\<lambda>(env, clk, r_address, r_packet). nothing_received r_address \<and> nothing_received r_packet)
     (replicate n (sample_app_env, clock_at 100000, WouldBlock, WouldBlock))"
  by (induction n) simp_all

theorem silence_keeps_sections_witness:
  "\<exists>b. update_cycles sample_env sample_net (replicate 1000 (sample_app_env, clock_at 100000, WouldBlock, WouldBlock)) sample_app = Some b \<and>
     all_commanded (tcServer b) = all_commanded (tcServer sample_app)"
proof -
  have "server_wf (tcServer sample_app)" by (simp add: sample_app_def sample_server_wf)
  from silence_keeps_sections [OF this sample_silence] show ?thesis by blast
qed

theorem cycles_are_steps_witness:
  "\<exists>b. update_cycles sample_env sample_net [(sample_app_env, clock_at 5, WouldBlock, WouldBlock)] (new_app (\<lambda>_. None)) = Some b \<and>
     (app_step sample_env sample_net sample_tc_env)\<^sup>*\<^sup>* (new_app (\<lambda>_. None)) b \<and> app_wf b"
proof -
  let ?ins = "[(sample_app_env, clock_at 5, WouldBlock, WouldBlock)]"
  obtain b where b: "update_cycles sample_env sample_net ?ins (new_app (\<lambda>_. None)) = Some b"
    using silent_cycles [OF app_wf_part(1) [OF app_wf_new], of ?ins sample_env sample_net] by auto
  show ?thesis
    using cycles_are_steps [OF app_wf_new b, of sample_tc_env] b by (simp add: sample_app_env_def)
qed

end
