(* ===== verification/Iop_Validator.thy ===== *)
theory Iop_Validator
  imports Process_Log Std_Map
begin

text \<open>
  The build-time check of the terminal's object pool, \<open>src/tools/iop_validator.cpp\<close>: what it flags,
  what it prints and the code it exits with. Reading and parsing a pool file and the objects of a pool
  belong to the ISOBUS library and are parameters: the functions through which the tool looks at an
  object, with what the library logs while it parses a file or validates an object.
\<close>

section \<open>The library\<close>

datatype vt_object_type = InputBoolean | InputList | OutputList | InputNumber | OutputMeter
  | OutputLinearBarGraph | OutputArchedBarGraph | OtherObjectType

type_synonym log_lines = "(logging_level \<times> string) list"

text \<open>
  A tree maps identifiers to objects, \<open>None\<close> for a null pointer. \<open>vo_active_mask\<close> is \<open>None\<close> for an
  object that is not a working set. Values and limits are 8 to 32 bits wide in the library; widening
  them changes neither the comparisons nor the texts.
\<close>

type_synonym 'o object_tree = "(u16, 'o option) smap"

record 'o vt_objects =
  read_and_parse :: "string \<Rightarrow> 'o object_tree option \<times> log_lines"
  vo_is_valid :: "'o object_tree \<Rightarrow> 'o \<Rightarrow> bool \<times> log_lines"
  vo_number_children :: "'o \<Rightarrow> u16"
  vo_child_id :: "'o \<Rightarrow> u16 \<Rightarrow> u16"
  vo_active_mask :: "'o \<Rightarrow> u16 option"
  vo_type :: "'o \<Rightarrow> vt_object_type"
  vo_value :: "'o \<Rightarrow> u32"
  vo_minimum :: "'o \<Rightarrow> u32"
  vo_maximum :: "'o \<Rightarrow> u32"

section \<open>What is flagged\<close>

definition NULL_OBJECT :: u16 where "NULL_OBJECT = 0xFFFF"

definition flag :: "u16 \<Rightarrow> string \<Rightarrow> string" where
  "flag objectID reason = ''object '' @ to_string (unat objectID) @ '': '' @ reason"

fun is_complaint :: "logging_level \<Rightarrow> bool" where
  "is_complaint Debug = False"
| "is_complaint Info = False"
| "is_complaint Warning = True"
| "is_complaint Error = True"
| "is_complaint Critical = True"

definition parser_complaints :: "log_lines \<Rightarrow> string list" where
  "parser_complaints lines = map (\<lambda>(_, text). ''parser: '' @ text) (filter (\<lambda>(level, _). is_complaint level) lines)"

definition check_reference :: "u16 \<Rightarrow> string \<Rightarrow> u16 \<Rightarrow> 'o object_tree \<Rightarrow> string list" where
  "check_reference objectID label referencedID tree =
     (if referencedID \<noteq> NULL_OBJECT \<and> sm_find tree referencedID = None
      then [flag objectID (label @ '' references object '' @ to_string (unat referencedID) @ '' which is not in the pool'')]
      else [])"

definition outside :: "string \<Rightarrow> 'o vt_objects \<Rightarrow> u16 \<Rightarrow> 'o \<Rightarrow> string list" where
  "outside label lib objectID obj =
     (if vo_value lib obj < vo_minimum lib obj \<or> vo_value lib obj > vo_maximum lib obj
      then [flag objectID (label @ '' value '' @ to_string (unat (vo_value lib obj)) @ '' outside [''
              @ to_string (unat (vo_minimum lib obj)) @ '', '' @ to_string (unat (vo_maximum lib obj)) @ '']'')]
      else [])"

definition check_value :: "'o vt_objects \<Rightarrow> u16 \<Rightarrow> 'o \<Rightarrow> string list" where
  "check_value lib objectID obj =
     (case vo_type lib obj of
        InputBoolean \<Rightarrow>
          (if vo_value lib obj > 1
           then [flag objectID (''InputBoolean value '' @ to_string (unat (vo_value lib obj)) @ '' is not 0 or 1'')] else [])
      | InputNumber \<Rightarrow> outside ''InputNumber'' lib objectID obj
      | OutputMeter \<Rightarrow> outside ''OutputMeter'' lib objectID obj
      | OutputLinearBarGraph \<Rightarrow> outside ''OutputLinearBarGraph'' lib objectID obj
      | OutputArchedBarGraph \<Rightarrow> outside ''OutputArchedBarGraph'' lib objectID obj
      | OtherObjectType \<Rightarrow> []
      | _ \<Rightarrow>
          (let itemCount = vo_number_children lib obj
           in if itemCount \<noteq> 0 \<and> vo_value lib obj \<noteq> 0xFF \<and> vo_value lib obj \<ge> ucast itemCount
              then [flag objectID (''list value '' @ to_string (unat (vo_value lib obj)) @ '' selects item beyond the ''
                      @ to_string (unat itemCount) @ '' present'')]
              else []))"

text \<open>One round of the loop over the tree, a null object is skipped.\<close>

definition check_object :: "'o vt_objects \<Rightarrow> 'o object_tree \<Rightarrow> u16 \<times> 'o option \<Rightarrow> string list" where
  "check_object lib tree entry =
     (case entry of
        (_, None) \<Rightarrow> []
      | (objectID, Some obj) \<Rightarrow>
          (case vo_is_valid lib tree obj of (valid, lines) \<Rightarrow>
             parser_complaints lines
             @ (if valid then [] else [flag objectID ''failed object pool structural validation''])
             @ concat (map (\<lambda>i. check_reference objectID ''child'' (vo_child_id lib obj (of_nat i)) tree)
                        [0..<unat (vo_number_children lib obj)])
             @ (case vo_active_mask lib obj of
                  None \<Rightarrow> []
                | Some m \<Rightarrow> check_reference objectID ''active mask'' m tree)
             @ check_value lib objectID obj))"

section \<open>The program\<close>

record tool_run =
  exit_status :: int
  to_stderr :: "string list"
  to_stdout :: "string list"

definition validator_main :: "'o vt_objects \<Rightarrow> string list \<Rightarrow> tool_run" where
  "validator_main lib argv =
     (if length argv \<noteq> 2 then \<lparr>exit_status = 2, to_stderr = [''usage: iop_validator <path to .iop>''], to_stdout = []\<rparr>
      else (case read_and_parse lib (argv ! 1) of
              (None, _) \<Rightarrow> \<lparr>exit_status = 1, to_stderr = [''FAIL: could not read or parse '' @ argv ! 1], to_stdout = []\<rparr>
            | (Some tree, lines) \<Rightarrow>
                (let violations = parser_complaints lines @ concat (map (check_object lib tree) tree)
                 in if violations \<noteq> []
                    then \<lparr>exit_status = 1, to_stderr = (''FAIL: '' @ argv ! 1) # map (\<lambda>v. ''  '' @ v) violations, to_stdout = []\<rparr>
                    else \<lparr>exit_status = 0, to_stderr = [],
                          to_stdout = [''OK: '' @ argv ! 1 @ '', '' @ to_string (length tree) @ '' objects'']\<rparr>)))"

section \<open>What an accepted pool satisfies\<close>

text \<open>The rules of the tool, stated for a pool: references that resolve, and values inside their limits.\<close>

definition resolves :: "'o object_tree \<Rightarrow> u16 \<Rightarrow> bool" where
  "resolves tree i \<longleftrightarrow> i = NULL_OBJECT \<or> i \<in> fst ` set tree"

definition value_ok :: "'o vt_objects \<Rightarrow> 'o \<Rightarrow> bool" where
  "value_ok lib obj \<longleftrightarrow>
     (case vo_type lib obj of
        InputBoolean \<Rightarrow> vo_value lib obj \<in> {0, 1}
      | InputList \<Rightarrow> vo_number_children lib obj = 0 \<or> vo_value lib obj = 255 \<or> unat (vo_value lib obj) < unat (vo_number_children lib obj)
      | OutputList \<Rightarrow> vo_number_children lib obj = 0 \<or> vo_value lib obj = 255 \<or> unat (vo_value lib obj) < unat (vo_number_children lib obj)
      | OtherObjectType \<Rightarrow> True
      | _ \<Rightarrow> vo_value lib obj \<in> {vo_minimum lib obj..vo_maximum lib obj})"

definition object_ok :: "'o vt_objects \<Rightarrow> 'o object_tree \<Rightarrow> 'o \<Rightarrow> bool" where
  "object_ok lib tree obj \<longleftrightarrow>
     fst (vo_is_valid lib tree obj) \<and> \<not> list_ex (is_complaint \<circ> fst) (snd (vo_is_valid lib tree obj)) \<and>
     (\<forall>i<unat (vo_number_children lib obj). resolves tree (vo_child_id lib obj (of_nat i))) \<and>
     (\<forall>m. vo_active_mask lib obj = Some m \<longrightarrow> resolves tree m) \<and> value_ok lib obj"

definition pool_ok :: "'o vt_objects \<Rightarrow> 'o object_tree \<Rightarrow> bool" where
  "pool_ok lib tree \<longleftrightarrow> (\<forall>objectID obj. (objectID, Some obj) \<in> set tree \<longrightarrow> object_ok lib tree obj)"

lemma parser_complaints_Nil: "parser_complaints lines = [] \<longleftrightarrow> \<not> list_ex (is_complaint \<circ> fst) lines"
  by (auto simp: parser_complaints_def list_ex_iff filter_empty_conv)

lemma check_reference_Nil: "check_reference objectID label i tree = [] \<longleftrightarrow> resolves tree i"
  by (auto simp: check_reference_def resolves_def sm_find_def map_of_eq_None_iff)

lemma outside_Nil: "outside label lib objectID obj = [] \<longleftrightarrow> vo_value lib obj \<in> {vo_minimum lib obj..vo_maximum lib obj}"
  by (auto simp: outside_def)

lemma le_1_cases: "(x :: u32) \<le> 1 \<longleftrightarrow> x = 0 \<or> x = 1"
proof
  assume "x \<le> 1"
  then have "unat x = 0 \<or> unat x = unat (1 :: u32)" by (auto simp: word_le_nat_alt)
  then show "x = 0 \<or> x = 1" by (metis unat_0 word_unat_eq_iff)
qed auto

lemma unat_ucast_16_32: "unat (ucast (n :: u16) :: u32) = unat n"
proof -
  have "unat n < 2 ^ 16" using unsigned_less [of n] by simp
  then show ?thesis by (simp add: unsigned_ucast_eq take_bit_nat_eq_self)
qed

lemma check_value_Nil: "check_value lib objectID obj = [] \<longleftrightarrow> value_ok lib obj"
proof (cases "vo_type lib obj")
  case InputBoolean
  then show ?thesis using le_1_cases by (auto simp: check_value_def value_ok_def not_less)
qed (auto simp: check_value_def value_ok_def outside_Nil word_le_nat_alt unat_ucast_16_32 not_le split: if_splits)

lemma check_object_Nil: "check_object lib tree (objectID, Some obj) = [] \<longleftrightarrow> object_ok lib tree obj"
  by (auto simp: check_object_def object_ok_def parser_complaints_Nil check_reference_Nil check_value_Nil
      split: prod.splits option.splits)

lemma all_objects_Nil: "concat (map (check_object lib tree) tree) = [] \<longleftrightarrow> pool_ok lib tree"
proof -
  have "check_object lib tree (objectID, None) = []" for objectID by (simp add: check_object_def)
  then show ?thesis unfolding pool_ok_def concat_eq_Nil_conv by (auto simp: check_object_Nil) (metis check_object_Nil not_None_eq)
qed

text \<open>
  C31 The pool validator accepts exactly the good pools: it exits with 0 if and only if it is given one
  file, the file can be read and parsed without a warning, and every object of the pool is valid, refers
  only to objects of the pool and has a value inside its limits; and it prints something on the error
  output if and only if it does not exit with 0.
\<close>

theorem validator_accepts_iff:
  "(exit_status (validator_main lib argv) = 0 \<longleftrightarrow>
     (\<exists>program path tree lines. argv = [program, path] \<and> read_and_parse lib path = (Some tree, lines) \<and>
        \<not> list_ex (is_complaint \<circ> fst) lines \<and> pool_ok lib tree)) \<and>
   (to_stderr (validator_main lib argv) = [] \<longleftrightarrow> exit_status (validator_main lib argv) = 0)"
proof (cases "length argv = 2")
  case True
  then obtain program path where "argv = [program, path]" by (metis length_0_conv length_Suc_conv numeral_2_eq_2)
  then show ?thesis
    by (auto simp: validator_main_def Let_def all_objects_Nil parser_complaints_Nil simp del: concat_eq_Nil_conv split: prod.splits option.splits)
qed (auto simp: validator_main_def)

end
