(* ===== verification/Lock.thy ===== *)
theory Lock
  imports Main
begin

text \<open>
  Threads that share a memory and a \<open>std::recursive_mutex\<close>. A call is a program of small actions:
  taking and giving back the mutex, and reading and writing the memory, where what follows may depend on
  what was read. Nothing in the step relation keeps a thread from touching the memory without the
  mutex. That every call takes it first and gives it back last is the assumption of the locale, and
  what follows is that the calls act one after the other.
\<close>

section \<open>Programs\<close>

text \<open>\<open>Do w k\<close> reads the memory, writes it with \<open>w\<close> and goes on with what \<open>k\<close> makes of what was read.\<close>

datatype ('s, 'r) prog = Done 'r | Acquire "('s, 'r) prog" | Release "('s, 'r) prog" | Do "'s \<Rightarrow> 's" "'s \<Rightarrow> ('s, 'r) prog"

text \<open>A program that runs alone.\<close>

primrec run_alone :: "('s, 'r) prog \<Rightarrow> 's \<Rightarrow> 'r \<times> 's" where
  "run_alone (Done r) s = (r, s)"
| "run_alone (Acquire p) s = run_alone p s"
| "run_alone (Release p) s = run_alone p s"
| "run_alone (Do w k) s = run_alone (k s) (w s)"

text \<open>A program that holds the mutex \<open>n\<close> times, uses the memory only while it does and ends with the last release.\<close>

primrec holds_until_end :: "('s, 'r) prog \<Rightarrow> nat \<Rightarrow> bool" where
  "holds_until_end (Done r) n = False"
| "holds_until_end (Acquire p) n = holds_until_end p (Suc n)"
| "holds_until_end (Release p) n = (if n = 1 then \<exists>r. p = Done r else 1 < n \<and> holds_until_end p (n - 1))"
| "holds_until_end (Do w k) n = (0 < n \<and> (\<forall>s. holds_until_end (k s) n))"

definition guarded :: "('s, 'r) prog \<Rightarrow> bool" where
  "guarded p \<longleftrightarrow> (\<exists>q. p = Acquire q \<and> holds_until_end q 1)"

section \<open>The mutex\<close>

text \<open>Who holds it and how often. A thread that asks for a mutex of another thread waits (\<open>None\<close>).\<close>

type_synonym 't mutex = "('t \<times> nat) option"

fun acquire :: "'t \<Rightarrow> 't mutex \<Rightarrow> 't mutex option" where
  "acquire t None = Some (Some (t, 1))"
| "acquire t (Some (u, n)) = (if u = t then Some (Some (t, Suc n)) else None)"

fun release :: "'t \<Rightarrow> 't mutex \<Rightarrow> 't mutex option" where
  "release t None = None"
| "release t (Some (u, n)) = (if u = t then Some (if n = 1 then None else Some (t, n - 1)) else None)"

section \<open>Steps\<close>

record ('t, 's, 'r, 'c) shared =
  mutex :: "'t mutex"
  memory :: 's
  threads :: "'t \<Rightarrow> ('c \<times> ('s, 'r) prog) option"
  history :: "('t \<times> 'c \<times> 'r) list"

definition all_idle :: "'s \<Rightarrow> ('t, 's, 'r, 'c) shared" where
  "all_idle s = \<lparr>mutex = None, memory = s, threads = (\<lambda>_. None), history = []\<rparr>"

text \<open>The history notes a call with its result when its thread gives the mutex back for good.\<close>

definition completed :: "'t \<Rightarrow> 'c \<Rightarrow> ('s, 'r) prog \<Rightarrow> 't mutex \<Rightarrow> ('t \<times> 'c \<times> 'r) list" where
  "completed t c p m = (case p of Done r \<Rightarrow> if m = None then [(t, c, r)] else [] | _ \<Rightarrow> [])"

text \<open>The steps of one thread inside its call, and those of all threads together.\<close>

inductive busy_step :: "'t \<Rightarrow> ('t, 's, 'r, 'c) shared \<Rightarrow> ('t, 's, 'r, 'c) shared \<Rightarrow> bool" for t where
  acquire: "threads x t = Some (c, Acquire p) \<Longrightarrow> acquire t (mutex x) = Some m \<Longrightarrow>
    busy_step t x (x\<lparr>mutex := m, threads := (threads x)(t \<mapsto> (c, p))\<rparr>)"
| release: "threads x t = Some (c, Release p) \<Longrightarrow> release t (mutex x) = Some m \<Longrightarrow>
    busy_step t x (x\<lparr>mutex := m, threads := (threads x)(t \<mapsto> (c, p)), history := history x @ completed t c p m\<rparr>)"
| work: "threads x t = Some (c, Do w k) \<Longrightarrow>
    busy_step t x (x\<lparr>memory := w (memory x), threads := (threads x)(t \<mapsto> (c, k (memory x)))\<rparr>)"
| return: "threads x t = Some (c, Done r) \<Longrightarrow> busy_step t x (x\<lparr>threads := (threads x)(t := None)\<rparr>)"

inductive par_step :: "('c \<Rightarrow> ('s, 'r) prog) \<Rightarrow> ('t, 's, 'r, 'c) shared \<Rightarrow> ('t, 's, 'r, 'c) shared \<Rightarrow> bool" for program where
  call: "threads x t = None \<Longrightarrow> par_step program x (x\<lparr>threads := (threads x)(t \<mapsto> (c, program c))\<rparr>)"
| busy: "busy_step t x y \<Longrightarrow> par_step program x y"

inductive_cases busy_stepE: "busy_step t x y"

text \<open>A thread that runs on leaves the others where they are.\<close>

lemma busy_step_others: "busy_step t x y \<Longrightarrow> u \<noteq> t \<Longrightarrow> threads y u = threads x u"
  by (erule busy_stepE) simp_all

lemma busy_steps_others: "(busy_step t)\<^sup>*\<^sup>* x y \<Longrightarrow> u \<noteq> t \<Longrightarrow> threads y u = threads x u"
  by (induction rule: rtranclp_induct) (auto dest: busy_step_others)

text \<open>The calls of a history one after the other, each with the result it is said to have.\<close>

fun replay :: "('c \<Rightarrow> 's \<Rightarrow> 'r \<times> 's) \<Rightarrow> 's \<Rightarrow> ('t \<times> 'c \<times> 'r) list \<Rightarrow> 's option" where
  "replay operation s [] = Some s"
| "replay operation s ((t, c, r) # h) = (if fst (operation c s) = r then replay operation (snd (operation c s)) h else None)"

lemma replay_append:
  "replay operation s (h @ h') = Option.bind (replay operation s h) (\<lambda>u. replay operation u h')"
  by (induction operation s h rule: replay.induct) auto

text \<open>A thread that holds the mutex can run on, whatever the others wait for, until its call has completed.\<close>

definition finished :: "'t \<Rightarrow> 'c \<Rightarrow> ('s, 'r) prog \<Rightarrow> ('t, 's, 'r, 'c) shared \<Rightarrow> ('t, 's, 'r, 'c) shared" where
  "finished t c p x = x\<lparr>mutex := None, memory := snd (run_alone p (memory x)), threads := (threads x)(t := None),
     history := history x @ [(t, c, fst (run_alone p (memory x)))]\<rparr>"

lemma runs_to_end:
  assumes "threads x t = Some (c, p)" "mutex x = Some (t, n)" "holds_until_end p n"
  shows "(busy_step t)\<^sup>*\<^sup>* x (finished t c p x)"
  using assms
proof (induction p arbitrary: x n)
  case (Acquire p)
  let ?y = "x\<lparr>mutex := Some (t, Suc n), threads := (threads x)(t \<mapsto> (c, p))\<rparr>"
  have "busy_step t x ?y" by (rule busy_step.acquire [OF Acquire.prems(1)]) (simp add: Acquire.prems(2))
  moreover have "(busy_step t)\<^sup>*\<^sup>* ?y (finished t c p ?y)" using Acquire.IH [of ?y "Suc n"] Acquire.prems(3) by simp
  ultimately show ?case by (simp add: finished_def converse_rtranclp_into_rtranclp)
next
  case (Release p)
  let ?m = "if n = 1 then None else Some (t, n - 1)"
  let ?y = "x\<lparr>mutex := ?m, threads := (threads x)(t \<mapsto> (c, p)), history := history x @ completed t c p ?m\<rparr>"
  have step: "busy_step t x ?y" by (rule busy_step.release [OF Release.prems(1)]) (simp add: Release.prems(2))
  show ?case
  proof (cases "n = 1")
    case True
    then obtain r where r: "p = Done r" using Release.prems(3) by auto
    have returns: "busy_step t ?y (?y\<lparr>threads := (threads ?y)(t := None)\<rparr>)" by (rule busy_step.return) (simp add: r)
    have same: "?y\<lparr>threads := (threads ?y)(t := None)\<rparr> = finished t c (Release p) x"
      using True r by (cases x) (simp add: finished_def completed_def)
    show ?thesis
      by (rule converse_rtranclp_into_rtranclp, rule step, rule r_into_rtranclp, rule returns [unfolded same])
  next
    case False
    then have h: "holds_until_end p (n - 1)" using Release.prems(3) by simp
    then have "completed t c p ?m = []" by (cases p) (auto simp: completed_def)
    moreover have "(busy_step t)\<^sup>*\<^sup>* ?y (finished t c p ?y)" using Release.IH [of ?y "n - 1"] h False by simp
    ultimately show ?thesis using step by (simp add: finished_def converse_rtranclp_into_rtranclp)
  qed
next
  case (Do w k)
  let ?y = "x\<lparr>memory := w (memory x), threads := (threads x)(t \<mapsto> (c, k (memory x)))\<rparr>"
  have "busy_step t x ?y" by (rule busy_step.work [OF Do.prems(1)])
  moreover have "(busy_step t)\<^sup>*\<^sup>* ?y (finished t c (k (memory x)) ?y)"
    using Do.IH [of "k (memory x)" ?y n] Do.prems(2,3) by simp
  ultimately show ?case by (simp add: finished_def converse_rtranclp_into_rtranclp)
qed simp

section \<open>Guarded calls\<close>

text \<open>A thread outside its critical section: idle, about to take the mutex, or back from its call.\<close>

definition waiting :: "('c \<Rightarrow> ('s, 'r) prog) \<Rightarrow> ('c \<times> ('s, 'r) prog) option \<Rightarrow> bool" where
  "waiting program th = (case th of None \<Rightarrow> True | Some (c, p) \<Rightarrow> p = program c \<or> (\<exists>r. p = Done r))"

text \<open>
  The memory is what the calls of the history made of it, or on its way from there to what the call of
  the thread with the mutex will have made of it.
\<close>

fun serialized :: "('c \<Rightarrow> ('s, 'r) prog) \<Rightarrow> 's \<Rightarrow> 't mutex \<Rightarrow> 's \<Rightarrow> ('t \<Rightarrow> ('c \<times> ('s, 'r) prog) option) \<Rightarrow> bool" where
  "serialized program s None mem ths \<longleftrightarrow> mem = s \<and> (\<forall>t. waiting program (ths t))"
| "serialized program s (Some (u, n)) mem ths \<longleftrightarrow> 0 < n \<and> (\<forall>t. t \<noteq> u \<longrightarrow> waiting program (ths t)) \<and>
     (\<exists>c p. ths u = Some (c, p) \<and> holds_until_end p n \<and> run_alone p mem = run_alone (program c) s)"

definition serial :: "('c \<Rightarrow> ('s, 'r) prog) \<Rightarrow> 's \<Rightarrow> ('t, 's, 'r, 'c) shared \<Rightarrow> bool" where
  "serial program s0 x \<longleftrightarrow> (\<exists>s. replay (run_alone \<circ> program) s0 (history x) = Some s \<and> serialized program s (mutex x) (memory x) (threads x))"

locale guarded_calls =
  fixes program :: "'c \<Rightarrow> ('s, 'r) prog"
  assumes program_guarded: "guarded (program c)"
begin

lemma program_acquires: "\<exists>q. program c = Acquire q \<and> holds_until_end q 1"
  using program_guarded by (simp add: guarded_def)

lemma serialized_call:
  assumes "serialized program s m mem ths" "ths t = None"
  shows "serialized program s m mem (ths(t \<mapsto> (c, program c)))"
  using assms by (cases m) (auto simp: waiting_def)

lemma serialized_acquire:
  assumes "serialized program s m mem ths" "ths t = Some (c, Acquire p)" "acquire t m = Some m'"
  shows "serialized program s m' mem (ths(t \<mapsto> (c, p)))"
proof (cases m)
  case None
  have "waiting program (ths t)" using assms(1) None by simp
  then have "program c = Acquire p" using assms(2) by (auto simp: waiting_def)
  then have "holds_until_end p 1" using program_acquires [of c] by simp
  with assms None \<open>program c = Acquire p\<close> show ?thesis by auto
next
  case (Some un)
  with assms show ?thesis by (cases un) (auto split: if_splits)
qed

lemma serialized_release:
  assumes "serialized program s m mem ths" "ths t = Some (c, Release p)" "release t m = Some m'"
    "replay (run_alone \<circ> program) s0 h = Some s"
  shows "\<exists>s'. replay (run_alone \<circ> program) s0 (h @ completed t c p m') = Some s' \<and> serialized program s' m' mem (ths(t \<mapsto> (c, p)))"
proof -
  obtain n where m: "m = Some (t, n)" using assms(3) by (cases m) (auto split: if_splits)
  with assms have n: "0 < n" "\<And>u. u \<noteq> t \<Longrightarrow> waiting program (ths u)" "run_alone p mem = run_alone (program c) s"
    "if n = 1 then \<exists>r. p = Done r else 1 < n \<and> holds_until_end p (n - 1)" by auto
  show ?thesis
  proof (cases "n = 1")
    case True
    then obtain r where "p = Done r" using n(4) by auto
    then have "run_alone (program c) s = (r, mem)" using n(3) by simp
    then show ?thesis
      using \<open>p = Done r\<close> True assms(3,4) m n(2) by (auto simp: completed_def replay_append waiting_def)
  next
    case False
    then have "completed t c p m' = []" "m' = Some (t, n - 1)"
      using assms(3) m by (auto simp: completed_def split: prog.splits)
    then show ?thesis using False n assms(4) by auto
  qed
qed

lemma serialized_work:
  assumes "serialized program s m mem ths" "ths t = Some (c, Do w k)"
  shows "\<exists>n. m = Some (t, n)" "serialized program s m (w mem) (ths(t \<mapsto> (c, k mem)))"
proof -
  have "\<not> waiting program (ths t)" using assms(2) program_acquires [of c] by (auto simp: waiting_def)
  then obtain n where m: "m = Some (t, n)"
    using assms(1) by (metis option.exhaust surj_pair serialized.simps)
  then show "\<exists>n. m = Some (t, n)" "serialized program s m (w mem) (ths(t \<mapsto> (c, k mem)))" using assms by auto
qed

lemma serialized_return:
  assumes "serialized program s m mem ths" "ths t = Some (c, Done r)"
  shows "serialized program s m mem (ths(t := None))"
  using assms by (cases m) (auto simp: waiting_def)

lemma busy_step_serial:
  assumes "serial program s0 x" "busy_step t x y"
  shows "serial program s0 y"
proof -
  obtain s where s: "replay (run_alone \<circ> program) s0 (history x) = Some s" "serialized program s (mutex x) (memory x) (threads x)"
    using assms(1) by (auto simp: serial_def)
  show ?thesis
    using assms(2)
  proof cases
    case (release c p m)
    then show ?thesis using serialized_release [OF s(2) _ _ s(1)] by (simp add: serial_def)
  qed (use s in \<open>auto simp: serial_def intro: serialized_acquire serialized_work(2) serialized_return\<close>)
qed

lemma par_step_serial:
  assumes "serial program s0 x" "par_step program x y"
  shows "serial program s0 y"
  using assms(2)
proof cases
  case (call t c)
  then show ?thesis using assms(1) by (auto simp: serial_def intro: serialized_call)
next
  case (busy t)
  then show ?thesis by (rule busy_step_serial [OF assms(1)])
qed

lemma idle_serial: "serial program s0 (all_idle s0)"
  by (simp add: serial_def all_idle_def waiting_def)

lemma reach_serial: "(par_step program)\<^sup>*\<^sup>* (all_idle s0) x \<Longrightarrow> serial program s0 x"
  by (induction rule: rtranclp_induct) (auto intro: idle_serial par_step_serial)

text \<open>Only the thread that holds the mutex touches the memory.\<close>

lemma exclusive:
  assumes "(par_step program)\<^sup>*\<^sup>* (all_idle s0) x" "threads x t = Some (c, Do w k)"
  shows "\<exists>n. mutex x = Some (t, n)"
  using reach_serial [OF assms(1)] assms(2) by (auto simp: serial_def dest: serialized_work(1))

text \<open>The holder gives the mutex back by its own steps.\<close>

lemma holder_finishes:
  assumes "(par_step program)\<^sup>*\<^sup>* (all_idle s0) x" "mutex x = Some (u, n)"
  shows "\<exists>y. (busy_step u)\<^sup>*\<^sup>* x y \<and> mutex y = None \<and> threads y u = None"
proof -
  obtain c p where "threads x u = Some (c, p)" "holds_until_end p n"
    using reach_serial [OF assms(1)] assms(2) by (auto simp: serial_def)
  then have "(busy_step u)\<^sup>*\<^sup>* x (finished u c p x)" using runs_to_end [OF _ assms(2)] by blast
  then show ?thesis by (auto simp: finished_def)
qed

text \<open>When the mutex is free, a call that has begun can run to its end by the steps of its thread.\<close>

lemma begun_call_runs:
  fixes x :: "('t, 's, 'r, 'c) shared"
  assumes "threads x t = Some (c, program c)" "mutex x = None"
  shows "(busy_step t)\<^sup>*\<^sup>* x (finished t c (program c) x)"
proof -
  obtain q where q: "program c = Acquire q" "holds_until_end q 1" using program_acquires by blast
  let ?z = "x\<lparr>mutex := Some (t, 1), threads := (threads x)(t \<mapsto> (c, q))\<rparr>"
  have "busy_step t x ?z" using busy_step.acquire [of x t c q "Some (t, 1)"] assms q(1) by simp
  moreover have "(busy_step t)\<^sup>*\<^sup>* ?z (finished t c q ?z)" by (rule runs_to_end [OF _ _ q(2)]) simp_all
  moreover have "finished t c q ?z = finished t c (program c) x" using q(1) by (simp add: finished_def)
  ultimately show ?thesis by (metis converse_rtranclp_into_rtranclp)
qed

lemma free_call_finishes:
  assumes "(par_step program)\<^sup>*\<^sup>* (all_idle s0) x" "mutex x = None" "threads x t \<noteq> None"
  shows "\<exists>y. (busy_step t)\<^sup>*\<^sup>* x y \<and> mutex y = None \<and> threads y t = None"
proof -
  obtain c p where p: "threads x t = Some (c, p)" using assms(3) by auto
  have "waiting program (threads x t)" using reach_serial [OF assms(1)] assms(2) by (simp add: serial_def)
  then consider "p = program c" | r where "p = Done r" using p by (auto simp: waiting_def)
  then show ?thesis
  proof cases
    case 1
    then have "(busy_step t)\<^sup>*\<^sup>* x (finished t c (program c) x)" using begun_call_runs p assms(2) by simp
    then show ?thesis by (auto simp: finished_def)
  next
    case (2 r)
    then have "(busy_step t)\<^sup>*\<^sup>* x (x\<lparr>threads := (threads x)(t := None)\<rparr>)"
      using busy_step.return [of x t c r] p by (simp add: r_into_rtranclp)
    then show ?thesis using assms(2) by auto
  qed
qed

text \<open>A call of an idle thread can run from its start to its end when the mutex is free.\<close>

lemma call_completes:
  fixes x :: "('t, 's, 'r, 'c) shared"
  assumes "threads x t = None" "mutex x = None"
  shows "(par_step program)\<^sup>*\<^sup>* x (finished t c (program c) x)"
proof -
  let ?y = "x\<lparr>threads := (threads x)(t \<mapsto> (c, program c))\<rparr>"
  have "par_step program x ?y" by (rule par_step.call [OF assms(1)])
  moreover have "(busy_step t)\<^sup>*\<^sup>* ?y (finished t c (program c) ?y)" by (rule begun_call_runs) (simp_all add: assms(2))
  moreover have "finished t c (program c) ?y = finished t c (program c) x" by (simp add: finished_def)
  moreover have "(par_step program)\<^sup>*\<^sup>* a b" if "(busy_step t)\<^sup>*\<^sup>* a b" for a b :: "('t, 's, 'r, 'c) shared"
    using that by (induction rule: rtranclp_induct) (auto intro: par_step.busy rtranclp.rtrancl_into_rtrancl)
  ultimately show ?thesis by (metis converse_rtranclp_into_rtranclp)
qed

end

text \<open>Calls that, each alone and in a state that satisfies the invariant, do what an operation does.\<close>

locale atomic_calls = guarded_calls program
  for program :: "'c \<Rightarrow> ('s, 'r) prog" +
  fixes operation :: "'c \<Rightarrow> 's \<Rightarrow> 'r \<times> 's" and inv :: "'s \<Rightarrow> bool"
  assumes program_operation: "inv s \<Longrightarrow> run_alone (program c) s = operation c s"
    and operation_inv: "inv s \<Longrightarrow> inv (snd (operation c s))"
begin

lemma replay_program:
  "inv s \<Longrightarrow> replay (run_alone \<circ> program) s h = Some t \<Longrightarrow> replay operation s h = Some t \<and> inv t"
proof (induction h arbitrary: s)
  case (Cons e h)
  obtain th c r where e: "e = (th, c, r)" by (metis prod_cases3)
  show ?case
    using Cons.IH [OF operation_inv [OF Cons.prems(1)], of c] Cons.prems program_operation [OF Cons.prems(1), of c]
    by (auto simp: e split: if_splits)
qed simp

lemma linearizable:
  assumes "(par_step program)\<^sup>*\<^sup>* (all_idle s0) x" "inv s0"
  shows "\<exists>s. replay operation s0 (history x) = Some s \<and> inv s \<and> (mutex x = None \<longrightarrow> memory x = s)"
proof -
  obtain s where s: "replay (run_alone \<circ> program) s0 (history x) = Some s" "serialized program s (mutex x) (memory x) (threads x)"
    using reach_serial [OF assms(1)] by (auto simp: serial_def)
  then have "mutex x = None \<longrightarrow> memory x = s" by auto
  then show ?thesis using replay_program [OF assms(2) s(1)] by (intro exI [of _ s]) simp
qed

end

end
