(* ===== verification/Tc_Lock.thy ===== *)
theory Tc_Lock
  imports Tc_Safety Tc_Samples Lock
begin

text \<open>
  The entry points of \<open>MyTCServer\<close> as programs of small actions under \<open>clientsMutex\<close>, the way
  \<open>src/src/task_controller.cpp\<close> takes the mutex: the entry points that visit all clients act on one
  client or one section at a time, and \<open>send_section_setpoint_states\<close>, \<open>send_section_control_state\<close>
  and \<open>is_ddi_settable\<close> take the mutex again while their caller holds it. The bodies without calls and
  loops over the clients are one action each.
\<close>

section \<open>Actions on a client\<close>

text \<open>What a thread did to a client since it came to it: the client's new state and the messages it sent.\<close>

definition put_client :: "cf \<Rightarrow> client_state \<times> bus_msg list \<Rightarrow> tc_server \<Rightarrow> tc_server" where
  "put_client client st s = s\<lparr>clients := sm_put client (fst st) (clients s), bus := bus s @ snd st\<rparr>"

definition on_client :: "cf \<Rightarrow> (client_state \<Rightarrow> client_state \<times> bus_msg list) \<Rightarrow> tc_server \<Rightarrow> tc_server" where
  "on_client client f s = put_client client (f (client_at s client)) s"

section \<open>Programs\<close>

datatype tc_result = Finished | Answer bool | Activation "activation_result option" | Snapshot "(cf, client_state) smap"

type_synonym tc_prog = "(tc_server, tc_result) prog"

definition takes_legacy_path :: "client_state \<Rightarrow> u8 \<Rightarrow> bool" where
  "takes_legacy_path c ddiOffset \<longleftrightarrow> \<not> has_element_number_for_ddi c (SetpointCondensedWorkState1_16 + ucast ddiOffset) \<and>
     has_element_number_for_ddi c (ActualCondensedWorkState1_16 + ucast ddiOffset)"

definition is_ddi_settable_prog :: "cf \<Rightarrow> u16 \<Rightarrow> (bool \<Rightarrow> tc_prog) \<Rightarrow> tc_prog" where
  "is_ddi_settable_prog client ddi rest = Acquire (Do id (\<lambda>s. Release (rest (is_ddi_settable (client_at s client) ddi))))"

definition send_legacy :: "cf \<Rightarrow> u8 \<Rightarrow> bool \<Rightarrow> client_state \<Rightarrow> client_state \<times> bus_msg list" where
  "send_legacy client ddiOffset settable c =
     (let ddi = ActualCondensedWorkState1_16 + ucast ddiOffset
      in (c, if settable
             then [SetValue client ddi (get_element_number_for_ddi c ddi)
                     (setpoint_value c (ddiOffset * of_nat NUMBER_SECTIONS_PER_CONDENSED_MESSAGE))]
             else []))"

definition send_section_setpoint_states_prog :: "cf \<Rightarrow> u8 \<Rightarrow> tc_prog \<Rightarrow> tc_prog" where
  "send_section_setpoint_states_prog client ddiOffset rest =
     Acquire (Do id (\<lambda>s.
       if takes_legacy_path (client_at s client) ddiOffset
       then is_ddi_settable_prog client (ActualCondensedWorkState1_16 + ucast ddiOffset)
              (\<lambda>settable. Do (on_client client (send_legacy client ddiOffset settable)) (\<lambda>_. Release rest))
       else Do (on_client client (send_section_setpoint_states client ddiOffset)) (\<lambda>_. Release rest)))"

text \<open>The loop over the sections of a client, with the flag \<open>requiresUpdate\<close>.\<close>

fun sections_prog :: "cf \<Rightarrow> bool list \<Rightarrow> nat list \<Rightarrow> bool \<Rightarrow> (bool \<Rightarrow> tc_prog) \<Rightarrow> tc_prog" where
  "sections_prog client sectionStates [] requiresUpdate rest = rest requiresUpdate"
| "sections_prog client sectionStates (i # is) requiresUpdate rest =
     (let write = (\<lambda>b. Do (on_client client (\<lambda>c. (write_demand sectionStates i c, [])))
            (\<lambda>s. sections_prog client sectionStates is (b \<or> demand_differs sectionStates (client_at s client) i) rest))
      in if i mod NUMBER_SECTIONS_PER_CONDENSED_MESSAGE = 0 \<and> requiresUpdate
         then send_section_setpoint_states_prog client (of_nat (i div NUMBER_SECTIONS_PER_CONDENSED_MESSAGE - 1)) (write False)
         else write requiresUpdate)"

definition update_client_prog :: "bool list \<Rightarrow> cf \<Rightarrow> tc_prog \<Rightarrow> tc_prog" where
  "update_client_prog sectionStates client rest =
     Do id (\<lambda>s. let c = client_at s client; n = unat (numberOfSections c)
       in if \<not> isSectionControlEnabled c then rest
          else if numberOfSections c = 0 then rest
          else sections_prog client sectionStates [0..<n] False
                 (\<lambda>requiresUpdate. if requiresUpdate
                    then send_section_setpoint_states_prog client (of_nat ((n - 1) div NUMBER_SECTIONS_PER_CONDENSED_MESSAGE)) rest
                    else rest))"

definition send_section_control_state_prog :: "cf \<Rightarrow> bool \<Rightarrow> tc_prog \<Rightarrow> tc_prog" where
  "send_section_control_state_prog client enabled rest =
     Acquire (Do (on_client client (\<lambda>c. (c, send_section_control_state client enabled c))) (\<lambda>_. Release rest))"

definition control_client_prog :: "bool \<Rightarrow> cf \<Rightarrow> tc_prog \<Rightarrow> tc_prog" where
  "control_client_prog enabled client rest =
     Do (on_client client (\<lambda>c. (if isSectionControlEnabled c \<noteq> enabled then set_section_control_enabled enabled c else c, [])))
       (\<lambda>_. Do id (\<lambda>s. if has_element_number_for_ddi (client_at s client) SectionControlState \<and> numberOfSections (client_at s client) > 0
                       then send_section_control_state_prog client enabled rest else rest))"

text \<open>A call that visits the clients in the order of the map.\<close>

definition visit_clients :: "(cf \<Rightarrow> tc_prog \<Rightarrow> tc_prog) \<Rightarrow> tc_prog" where
  "visit_clients body = Acquire (Do id (\<lambda>s. foldr body (sm_keys (clients s)) (Release (Done Finished))))"

text \<open>A call whose body is one action.\<close>

definition one_action :: "(tc_server \<Rightarrow> tc_result \<times> tc_server) \<Rightarrow> tc_prog" where
  "one_action f = Acquire (Do (\<lambda>s. snd (f s)) (\<lambda>s. Release (Done (fst (f s)))))"

text \<open>Two erasures, which \<open>deactivate_object_pool\<close> and \<open>delete_device_descriptor_object_pool\<close> share.\<close>

definition erase_prog :: "cf \<Rightarrow> tc_prog" where
  "erase_prog client =
     Acquire (Do (\<lambda>s. s\<lparr>clients := sm_erase client (clients s)\<rparr>)
       (\<lambda>_. Do (\<lambda>s. s\<lparr>uploadedPools := sm_erase client (uploadedPools s)\<rparr>) (\<lambda>_. Release (Done (Answer True)))))"

text \<open>The copy of the client map, taken under the mutex.\<close>

definition get_clients :: tc_prog where
  "get_clients = one_action (\<lambda>s. (Snapshot (clients s), s))"

datatype tc_call =
    Upload cf bytes bool
  | Activate cf
  | Deactivate cf
  | DeletePool cf
  | Timeout cf
  | ValueCommand cf u16 u16 i32
  | RequestMeasurements
  | UpdateSections "bool list"
  | UpdateControl bool
  | SendGnss u8
  | GetClients

fun tc_program :: "tc_env \<Rightarrow> tc_call \<Rightarrow> tc_prog" where
  "tc_program env (Upload client pool app) = one_action (apfst Answer \<circ> store_device_descriptor_object_pool client pool app)"
| "tc_program env (Activate client) = one_action (apfst Activation \<circ> activate_object_pool env client)"
| "tc_program env (Deactivate client) = erase_prog client"
| "tc_program env (DeletePool client) = erase_prog client"
| "tc_program env (Timeout client) = one_action (\<lambda>s. (Finished, on_client_timeout client s))"
| "tc_program env (ValueCommand client ddi el v) = one_action (apfst Answer \<circ> on_value_command client ddi el v)"
| "tc_program env RequestMeasurements =
     visit_clients (\<lambda>client rest. Do (on_client client (request_client_commands env client)) (\<lambda>_. rest))"
| "tc_program env (UpdateSections sectionStates) = visit_clients (update_client_prog sectionStates)"
| "tc_program env (UpdateControl enabled) = visit_clients (control_client_prog enabled)"
| "tc_program env (SendGnss quality) =
     visit_clients (\<lambda>client rest. Do (on_client client (send_client_gnss_quality quality client)) (\<lambda>_. rest))"
| "tc_program env GetClients = get_clients"

section \<open>Every call is guarded\<close>

lemma guarded_send: "0 < n \<Longrightarrow> holds_until_end (send_section_setpoint_states_prog client off rest) n \<longleftrightarrow> holds_until_end rest n"
  by (auto simp: send_section_setpoint_states_prog_def is_ddi_settable_prog_def)

lemma guarded_sections:
  "0 < n \<Longrightarrow> (\<And>b. holds_until_end (rest b) n) \<Longrightarrow> holds_until_end (sections_prog client ss is ru rest) n"
  by (induction "is" arbitrary: ru) (simp_all add: Let_def guarded_send)

lemma guarded_update_client: "0 < n \<Longrightarrow> holds_until_end rest n \<Longrightarrow> holds_until_end (update_client_prog ss client rest) n"
  by (simp add: update_client_prog_def Let_def guarded_sections guarded_send)

lemma guarded_control_client: "0 < n \<Longrightarrow> holds_until_end rest n \<Longrightarrow> holds_until_end (control_client_prog enabled client rest) n"
  by (simp add: control_client_prog_def send_section_control_state_prog_def)

lemma guarded_visit:
  assumes "\<And>client rest. holds_until_end rest 1 \<Longrightarrow> holds_until_end (body client rest) 1"
  shows "guarded (visit_clients body)"
proof -
  have "holds_until_end (foldr body ks (Release (Done Finished))) 1" for ks
    by (induction ks) (simp_all add: assms [simplified])
  then show ?thesis by (simp add: visit_clients_def guarded_def)
qed

lemma tc_program_guarded: "guarded (tc_program env c)"
  by (cases c) (auto simp: one_action_def erase_prog_def get_clients_def guarded_def [of "Acquire _"]
      intro!: guarded_visit guarded_update_client guarded_control_client)

section \<open>A call alone is the operation\<close>

lemma sm_find_put_same: "sm_find (sm_put k v m) k = Some v"
  by (induction k v m rule: sm_put.induct) (auto simp: sm_find_def)

lemma put_client_put: "put_client client (c', out') (put_client client (c, out) s) = put_client client (c', out @ out') s"
  by (simp add: put_client_def sm_put_put)

lemma client_at_put: "client_at (put_client client (c, out) s) client = c"
  by (simp add: client_at_def put_client_def sm_find_put_same)

lemma on_client_put:
  "on_client client f (put_client client (c, out) s) = put_client client (fst (f c), out @ snd (f c)) s"
  by (cases "f c") (simp add: on_client_def client_at_put put_client_put)

lemma run_send:
  "run_alone (send_section_setpoint_states_prog client off rest) s =
     run_alone rest (on_client client (send_section_setpoint_states client off) s)"
proof (cases "takes_legacy_path (client_at s client) off")
  case True
  then have "send_section_setpoint_states client off (client_at s client) =
      send_legacy client off (is_ddi_settable (client_at s client) (ActualCondensedWorkState1_16 + ucast off)) (client_at s client)"
    by (simp add: takes_legacy_path_def send_section_setpoint_states_def send_legacy_def Let_def)
  with True show ?thesis
    by (simp add: send_section_setpoint_states_prog_def is_ddi_settable_prog_def on_client_def)
qed (simp add: send_section_setpoint_states_prog_def)

lemma run_send_put:
  "run_alone (send_section_setpoint_states_prog client off rest) (put_client client st s) =
     run_alone rest (put_client client (flush_block client off st) s)"
  by (cases st) (simp add: run_send on_client_put flush_block_def Let_def split_beta)

lemma run_sections:
  "run_alone (sections_prog client ss is ru rest) (put_client client st s) =
     (case fold (section_step client ss) is (st, ru) of (st', ru') \<Rightarrow> run_alone (rest ru') (put_client client st' s))"
proof (induction "is" arbitrary: st ru)
  case (Cons i "is")
  have written: "run_alone (Do (on_client client (\<lambda>c. (write_demand ss i c, [])))
      (\<lambda>s. sections_prog client ss is (b \<or> demand_differs ss (client_at s client) i) rest)) (put_client client st1 s) =
    run_alone (sections_prog client ss is (b \<or> demand_differs ss (fst st1) i) rest) (put_client client (write_demand ss i (fst st1), snd st1) s)"
    for b st1 by (cases st1) (simp add: on_client_put client_at_put)
  show ?case
    unfolding sections_prog.simps fold_simps comp_apply section_step_def [of client ss i "(st, ru)"] Let_def
    using Cons.IH by (simp only: run_send_put written fst_conv snd_conv prod.case split: if_split) simp
qed simp

text \<open>A body that acts on its client as a function does.\<close>

definition acts_as :: "(cf \<Rightarrow> tc_prog \<Rightarrow> tc_prog) \<Rightarrow> (cf \<Rightarrow> client_state \<Rightarrow> client_state \<times> bus_msg list) \<Rightarrow> bool" where
  "acts_as body f \<longleftrightarrow> (\<forall>client rest c s. run_alone (body client rest) (put_client client (c, []) s) =
     run_alone rest (put_client client (f client c) s))"

lemma acts_as_action: "acts_as (\<lambda>client rest. Do (on_client client (f client)) (\<lambda>_. rest)) f"
  by (simp add: acts_as_def on_client_put)

lemma acts_as_update: "acts_as (update_client_prog ss) (update_client_sections ss)"
  by (auto simp: acts_as_def update_client_prog_def update_client_sections_def client_at_put run_sections run_send_put Let_def
      split: prod.split)

lemma acts_as_control: "acts_as (control_client_prog enabled) (update_client_control_enabled enabled)"
  by (simp add: acts_as_def control_client_prog_def send_section_control_state_prog_def update_client_control_enabled_def
      on_client_put client_at_put Let_def)

lemma sm_put_middle: "\<forall>e\<in>set m. fst e < k \<Longrightarrow> sm_put k v (m @ (k, w) # m') = m @ (k, v) # m'"
  by (induction m) auto

lemma run_visit:
  assumes "acts_as body f" "sm_wf (clients s)"
  shows "run_alone (visit_clients body) s = (Finished, each_client f s)"
proof -
  have loop: "run_alone (foldr body (map fst m') (Release (Done Finished))) (s\<lparr>clients := m @ m', bus := out\<rparr>) =
      (Finished, s\<lparr>clients := m @ fst (for_clients f m'), bus := out @ snd (for_clients f m')\<rparr>)"
    if "sorted_wrt (<) (map fst (m @ m'))" for m m' out
    using that
  proof (induction m' arbitrary: m out)
    case (Cons e m')
    obtain k c where e: "e = (k, c)" by fastforce
    obtain c' new where f: "f k c = (c', new)" by fastforce
    have less: "\<forall>e\<in>set m. fst e < k" using Cons.prems by (auto simp: e sorted_wrt_append)
    let ?s = "s\<lparr>clients := m @ e # m', bus := out\<rparr>" and ?rest = "foldr body (map fst m') (Release (Done Finished))"
    have "?s = put_client k (c, []) ?s"
      using sm_put_middle [OF less, of c c m'] by (simp add: put_client_def e)
    then have "run_alone (body k ?rest) ?s = run_alone ?rest (put_client k (c', new) ?s)"
      using assms(1) f unfolding acts_as_def by metis
    moreover have "put_client k (c', new) ?s = s\<lparr>clients := (m @ [(k, c')]) @ m', bus := out @ new\<rparr>"
      using sm_put_middle [OF less, of c' c m'] by (simp add: put_client_def e)
    moreover have "sorted_wrt (<) (map fst ((m @ [(k, c')]) @ m'))" using Cons.prems by (simp add: e)
    ultimately show ?case
      using Cons.IH [of "m @ [(k, c')]" "out @ new"] f by (simp add: e split_beta)
  qed simp
  show ?thesis
    using loop [of "[]" "clients s" "bus s"] assms(2)
    by (simp add: visit_clients_def sm_keys_def sm_wf_def each_client_def split_beta)
qed

section \<open>The calls as operations\<close>

fun tc_operation :: "tc_env \<Rightarrow> tc_call \<Rightarrow> tc_server \<Rightarrow> tc_result \<times> tc_server" where
  "tc_operation env (Upload client pool app) s = apfst Answer (store_device_descriptor_object_pool client pool app s)"
| "tc_operation env (Activate client) s = apfst Activation (activate_object_pool env client s)"
| "tc_operation env (Deactivate client) s = apfst Answer (deactivate_object_pool client s)"
| "tc_operation env (DeletePool client) s = apfst Answer (delete_device_descriptor_object_pool client s)"
| "tc_operation env (Timeout client) s = (Finished, on_client_timeout client s)"
| "tc_operation env (ValueCommand client ddi el v) s = apfst Answer (on_value_command client ddi el v s)"
| "tc_operation env RequestMeasurements s = (Finished, request_measurement_commands env s)"
| "tc_operation env (UpdateSections sectionStates) s = (Finished, update_section_states sectionStates s)"
| "tc_operation env (UpdateControl enabled) s = (Finished, update_section_control_enabled enabled s)"
| "tc_operation env (SendGnss quality) s = (Finished, send_gnss_quality quality s)"
| "tc_operation env GetClients s = (Snapshot (clients s), s)"

lemma run_one_action: "run_alone (one_action f) s = f s"
  by (simp add: one_action_def)

lemma run_tc_program:
  assumes "server_wf s"
  shows "run_alone (tc_program env c) s = tc_operation env c s"
proof -
  have wf: "sm_wf (clients s)" using assms by (simp add: server_wf_def)
  show ?thesis
    by (cases c)
      (simp_all add: run_one_action erase_prog_def get_clients_def deactivate_object_pool_def delete_device_descriptor_object_pool_def
        run_visit [OF acts_as_action wf] run_visit [OF acts_as_update wf] run_visit [OF acts_as_control wf]
        request_measurement_commands_def update_section_states_def update_section_control_enabled_def send_gnss_quality_def)
qed

lemma tc_operation_step: "snd (tc_operation env c s) = s \<or> tc_step env s (snd (tc_operation env c s))"
  by (cases c) (simp_all add: tc_step_iff, blast+)

lemma tc_operation_steps: "(tc_step env)\<^sup>*\<^sup>* s (snd (tc_operation env c s))"
  using tc_operation_step [of env c s] by (metis r_into_rtranclp rtranclp.rtrancl_refl)

interpretation server: atomic_calls "tc_program env" "tc_operation env" server_wf for env
proof unfold_locales
  show "server_wf (snd (tc_operation env c s))" if "server_wf s" for c s
    using tc_operation_step [of env c s] that tc_step_wf by metis
qed (simp_all add: tc_program_guarded run_tc_program)

lemma replay_steps: "replay (tc_operation env) s h = Some t \<Longrightarrow> (tc_step env)\<^sup>*\<^sup>* s t"
  by (induction "tc_operation env" s h rule: replay.induct) (auto split: if_splits intro: rtranclp_trans tc_operation_steps)

lemma replay_snapshot:
  assumes "replay (tc_operation env) s h = Some t" "(th, GetClients, r) \<in> set h"
  shows "\<exists>u. (tc_step env)\<^sup>*\<^sup>* s u \<and> r = Snapshot (clients u)"
  using assms
proof (induction h arbitrary: s)
  case (Cons e h)
  obtain th' c r' where e: "e = (th', c, r')" by (metis prod_cases3)
  let ?s = "snd (tc_operation env c s)"
  have step: "(tc_step env)\<^sup>*\<^sup>* s ?s" by (rule tc_operation_steps)
  show ?case
  proof (cases "(th, GetClients, r) = e")
    case True
    then show ?thesis using Cons.prems(1) by (auto simp: e split: if_splits)
  next
    case False
    then have "replay (tc_operation env) ?s h = Some t" "(th, GetClients, r) \<in> set h"
      using Cons.prems by (auto simp: e split: if_splits)
    then show ?thesis using Cons.IH step by (meson rtranclp_trans)
  qed
qed simp

section \<open>Properties\<close>

datatype tc_thread = MainThread | StackThread

text \<open>
  C3 The mutex makes the server's calls atomic: the main thread and the thread of the ISOBUS library run
  the small actions of their calls on the server in any order. Then the calls that completed are, in
  the order in which they gave the mutex back and with the results they returned, a sequential run of
  the server's operations; whenever the mutex is free the shared state is what that run leaves, and it
  is a state the whole operations reach. What \<open>get_clients\<close> copies is the client map of such a state.
\<close>

theorem server_linearizable:
  fixes x :: "(tc_thread, tc_server, tc_result, tc_call) shared"
  assumes "(par_step (tc_program env))\<^sup>*\<^sup>* (all_idle new_server) x"
  shows "\<exists>s. replay (tc_operation env) new_server (history x) = Some s \<and> (tc_step env)\<^sup>*\<^sup>* new_server s \<and>
     (mutex x = None \<longrightarrow> memory x = s) \<and>
     (\<forall>t r. (t, GetClients, r) \<in> set (history x) \<longrightarrow> (\<exists>u. (tc_step env)\<^sup>*\<^sup>* new_server u \<and> r = Snapshot (clients u)))"
proof -
  obtain s where s: "replay (tc_operation env) new_server (history x) = Some s" "mutex x = None \<longrightarrow> memory x = s"
    using server.linearizable [OF assms server_wf_new] by (elim exE conjE)
  moreover have "(tc_step env)\<^sup>*\<^sup>* new_server s" using replay_steps [OF s(1)] .
  moreover have "\<forall>t r. (t, GetClients, r) \<in> set (history x) \<longrightarrow> (\<exists>u. (tc_step env)\<^sup>*\<^sup>* new_server u \<and> r = Snapshot (clients u))"
    using replay_snapshot [OF s(1)] by (intro allI impI)
  ultimately show ?thesis by (intro exI [of _ s]) simp
qed

text \<open>
  C17 No data race and no deadlock. In every state the two threads can reach, a thread that is about to
  read or write the server's maps holds the mutex, although calls take it again while they hold it. The
  thread that holds it can run on, by its own steps alone and with the other thread left where it is,
  until its call is over and the mutex is free. And when the mutex is free, every thread that is in a
  call can take it and bring the call to its end by its own steps.
\<close>

theorem server_mutex_works:
  fixes x :: "(tc_thread, tc_server, tc_result, tc_call) shared"
  assumes "(par_step (tc_program env))\<^sup>*\<^sup>* (all_idle new_server) x"
  shows "(\<forall>t c w k. threads x t = Some (c, Do w k) \<longrightarrow> (\<exists>n. mutex x = Some (t, n))) \<and>
     (\<forall>t n. mutex x = Some (t, n) \<longrightarrow>
        (\<exists>y. (busy_step t)\<^sup>*\<^sup>* x y \<and> mutex y = None \<and> threads y t = None \<and> (\<forall>u. u \<noteq> t \<longrightarrow> threads y u = threads x u))) \<and>
     (\<forall>t. mutex x = None \<and> threads x t \<noteq> None \<longrightarrow> (\<exists>y. (busy_step t)\<^sup>*\<^sup>* x y \<and> mutex y = None \<and> threads y t = None))"
proof (intro conjI allI impI)
  fix t n
  assume "mutex x = Some (t, n)"
  then obtain y where y: "(busy_step t)\<^sup>*\<^sup>* x y" "mutex y = None" "threads y t = None"
    using server.holder_finishes [OF assms] by blast
  then show "\<exists>y. (busy_step t)\<^sup>*\<^sup>* x y \<and> mutex y = None \<and> threads y t = None \<and> (\<forall>u. u \<noteq> t \<longrightarrow> threads y u = threads x u)"
    using busy_steps_others [OF y(1)] by (intro exI [of _ y]) simp
qed (use server.exclusive [OF assms] server.free_call_finishes [OF assms] in \<open>simp_all\<close>)

text \<open>The library stores an object pool, then the main thread copies the client map.\<close>

lemma sample_threads:
  "\<exists>x :: (tc_thread, tc_server, tc_result, tc_call) shared.
     (par_step (tc_program env))\<^sup>*\<^sup>* (all_idle new_server) x \<and> mutex x = None \<and>
     history x = [(StackThread, Upload 7 [1] False, Answer True), (MainThread, GetClients, Snapshot [])]"
proof -
  let ?up = "Upload 7 [1] False"
  define y where "y = finished StackThread ?up (tc_program env ?up) (all_idle new_server)"
  have "(par_step (tc_program env))\<^sup>*\<^sup>* (all_idle new_server) y"
    unfolding y_def by (rule server.call_completes) (simp_all add: all_idle_def)
  moreover have "(par_step (tc_program env))\<^sup>*\<^sup>* y (finished MainThread GetClients (tc_program env GetClients) y)"
    by (rule server.call_completes) (simp_all add: y_def finished_def all_idle_def)
  ultimately have "(par_step (tc_program env))\<^sup>*\<^sup>* (all_idle new_server) (finished MainThread GetClients (tc_program env GetClients) y)"
    by (rule rtranclp_trans)
  moreover have "mutex (finished MainThread GetClients (tc_program env GetClients) y) = None"
    "history (finished MainThread GetClients (tc_program env GetClients) y) =
       [(StackThread, ?up, Answer True), (MainThread, GetClients, Snapshot [])]"
    by (simp_all add: finished_def y_def all_idle_def run_one_action get_clients_def store_device_descriptor_object_pool_def new_server_def Let_def)
  ultimately show ?thesis by blast
qed

theorem server_linearizable_witness:
  "\<exists>x u. (par_step (tc_program sample_tc_env))\<^sup>*\<^sup>* (all_idle new_server) x \<and>
     (MainThread, GetClients, Snapshot []) \<in> set (history x) \<and>
     replay (tc_operation sample_tc_env) new_server (history x) = Some (memory x) \<and>
     (tc_step sample_tc_env)\<^sup>*\<^sup>* new_server u \<and> clients u = []"
proof -
  obtain x :: "(tc_thread, tc_server, tc_result, tc_call) shared" where x: "(par_step (tc_program sample_tc_env))\<^sup>*\<^sup>* (all_idle new_server) x"
    "mutex x = None" "(MainThread, GetClients, Snapshot []) \<in> set (history x)"
    using sample_threads by (metis list.set_intros)
  then show ?thesis using server_linearizable [OF x(1)] by fastforce
qed

text \<open>The library has taken the mutex for an upload while the main thread waits for it.\<close>

lemma sample_contention:
  "\<exists>x :: (tc_thread, tc_server, tc_result, tc_call) shared. (par_step (tc_program env))\<^sup>*\<^sup>* (all_idle new_server) x \<and>
     mutex x = Some (StackThread, 1) \<and> threads x MainThread = Some (GetClients, tc_program env GetClients)"
proof -
  let ?up = "Upload 7 [1] False" and ?get = "(GetClients, tc_program env GetClients)"
  obtain q where q: "tc_program env ?up = Acquire q" using server.program_acquires by blast
  define x1 x2 x3 where "x1 = (all_idle new_server)\<lparr>threads := [StackThread \<mapsto> (?up, Acquire q)]\<rparr>"
    and "x2 = x1\<lparr>threads := (threads x1)(MainThread \<mapsto> ?get)\<rparr>"
    and "x3 = x2\<lparr>mutex := Some (StackThread, 1), threads := (threads x2)(StackThread \<mapsto> (?up, q))\<rparr>"
  have "par_step (tc_program env) (all_idle new_server) x1"
    using par_step.call [of "all_idle new_server" StackThread "tc_program env" ?up] unfolding q x1_def by (simp add: all_idle_def)
  moreover have "par_step (tc_program env) x1 x2" unfolding x2_def by (rule par_step.call) (simp add: x1_def)
  moreover have "par_step (tc_program env) x2 x3"
    unfolding x3_def by (rule par_step.busy, rule busy_step.acquire) (simp_all add: x2_def x1_def all_idle_def)
  ultimately have "(par_step (tc_program env))\<^sup>*\<^sup>* (all_idle new_server) x3"
    by (intro rtranclp.rtrancl_into_rtrancl [OF rtranclp.rtrancl_into_rtrancl [OF r_into_rtranclp]])
  then show ?thesis by (intro exI [of _ x3]) (simp add: x3_def x2_def)
qed

theorem server_mutex_works_witness:
  "\<exists>x y :: (tc_thread, tc_server, tc_result, tc_call) shared. (par_step (tc_program sample_tc_env))\<^sup>*\<^sup>* (all_idle new_server) x \<and>
     mutex x = Some (StackThread, 1) \<and> (busy_step StackThread)\<^sup>*\<^sup>* x y \<and> mutex y = None \<and>
     threads y MainThread = Some (GetClients, tc_program sample_tc_env GetClients)"
proof -
  obtain x :: "(tc_thread, tc_server, tc_result, tc_call) shared" where x: "(par_step (tc_program sample_tc_env))\<^sup>*\<^sup>* (all_idle new_server) x"
    "mutex x = Some (StackThread, 1)" "threads x MainThread = Some (GetClients, tc_program sample_tc_env GetClients)"
    using sample_contention by blast
  obtain y where "(busy_step StackThread)\<^sup>*\<^sup>* x y" "mutex y = None" "\<forall>u. u \<noteq> StackThread \<longrightarrow> threads y u = threads x u"
    using server_mutex_works [OF x(1)] x(2) by blast
  then show ?thesis using x by (intro exI [of _ x] exI [of _ y]) simp
qed

end
