(* ===== verification/Settings_Lock.thy ===== *)
theory Settings_Lock
  imports Settings Lock
begin

text \<open>
  The methods of \<open>Settings\<close> as programs under \<open>settingsMutex\<close>, as \<open>src/src/settings.cpp\<close> takes it: a
  setter writes its member, calls \<open>save\<close>, which takes the mutex again, and \<open>set_boolean\<close> writes the old
  value back when the save failed. The main thread reads and writes the settings, and so does the
  thread of the ISOBUS library when the operator changes a value on the terminal.
\<close>

section \<open>Programs\<close>

type_synonym 'f store = "settings \<times> 'f fs"

datatype switch = TecuEnabled | NmeaSendEnabled | AogHeartbeatEnabled | VtEnabled

fun get_switch :: "switch \<Rightarrow> settings \<Rightarrow> bool" where
  "get_switch TecuEnabled st = tecuEnabled st"
| "get_switch NmeaSendEnabled st = nmeaSendEnabled st"
| "get_switch AogHeartbeatEnabled st = aogHeartbeatEnabled st"
| "get_switch VtEnabled st = vtEnabled st"

fun put_switch :: "switch \<Rightarrow> bool \<Rightarrow> settings \<Rightarrow> settings" where
  "put_switch TecuEnabled b st = st\<lparr>tecuEnabled := b\<rparr>"
| "put_switch NmeaSendEnabled b st = st\<lparr>nmeaSendEnabled := b\<rparr>"
| "put_switch AogHeartbeatEnabled b st = st\<lparr>aogHeartbeatEnabled := b\<rparr>"
| "put_switch VtEnabled b st = st\<lparr>vtEnabled := b\<rparr>"

text \<open>What a method returns; an \<open>Outcome None\<close> is an exception.\<close>

datatype settings_answer = Outcome "bool option" | Octets "u8 list" | Flag bool | Number u8 | Code string

type_synonym 'f settings_prog = "('f store, settings_answer) prog"

definition read_prog :: "(settings \<Rightarrow> settings_answer) \<Rightarrow> 'f settings_prog" where
  "read_prog f = Acquire (Do id (\<lambda>s. Release (Done (f (fst s)))))"

text \<open>\<open>save\<close>, called while the mutex is held or not; \<open>rest\<close> goes on with its outcome.\<close>

definition save_prog :: "('j, 'f) settings_env \<Rightarrow> (bool option \<Rightarrow> 'f settings_prog) \<Rightarrow> 'f settings_prog" where
  "save_prog env rest = Acquire (Do (\<lambda>(st, fs). (st, snd (save_settings env st fs)))
     (\<lambda>(st, fs). Release (rest (fst (save_settings env st fs)))))"

definition set_prog :: "('j, 'f) settings_env \<Rightarrow> (settings \<Rightarrow> settings) \<Rightarrow> bool \<Rightarrow> 'f settings_prog" where
  "set_prog env write save = Acquire (Do (apfst write) (\<lambda>_.
     if save then save_prog env (\<lambda>r. Release (Done (Outcome r))) else Release (Done (Outcome (Some True)))))"

definition set_boolean_prog :: "('j, 'f) settings_env \<Rightarrow> switch \<Rightarrow> bool \<Rightarrow> bool \<Rightarrow> 'f settings_prog" where
  "set_boolean_prog env sw enabled save = Acquire (Do (apfst (put_switch sw enabled)) (\<lambda>before.
     if \<not> save then Release (Done (Outcome (Some True)))
     else save_prog env (\<lambda>r.
       if r = Some False then Do (apfst (put_switch sw (get_switch sw (fst before)))) (\<lambda>_. Release (Done (Outcome r)))
       else Release (Done (Outcome r)))))"

definition load_prog :: "('j, 'f) settings_env \<Rightarrow> 'f settings_prog" where
  "load_prog env = Acquire (Do (\<lambda>(st, fs). (snd (load_settings env fs st), fs))
     (\<lambda>(st, fs). Release (Done (Outcome (fst (load_settings env fs st))))))"

datatype settings_call =
    Load
  | Save
  | GetSubnet
  | GetSubnetString
  | SetSubnet u8 u8 u8 bool
  | IsEnabled switch
  | SetEnabled switch bool bool
  | GetTcVersion
  | SetTcVersion u8 bool
  | GetLanguageCode
  | SetLanguage string bool
  | GetCountryCode
  | SetCountry string bool

fun settings_program :: "('j, 'f) settings_env \<Rightarrow> settings_call \<Rightarrow> 'f settings_prog" where
  "settings_program env Load = load_prog env"
| "settings_program env Save = save_prog env (\<lambda>r. Done (Outcome r))"
| "settings_program env GetSubnet = read_prog (Octets \<circ> configuredSubnet)"
| "settings_program env GetSubnetString = read_prog (Code \<circ> get_subnet_string)"
| "settings_program env (SetSubnet a b c save) = set_prog env (\<lambda>st. st\<lparr>configuredSubnet := [a, b, c]\<rparr>) save"
| "settings_program env (IsEnabled sw) = read_prog (Flag \<circ> get_switch sw)"
| "settings_program env (SetEnabled sw enabled save) = set_boolean_prog env sw enabled save"
| "settings_program env GetTcVersion = read_prog (Number \<circ> tcVersion)"
| "settings_program env (SetTcVersion version save) =
     set_prog env (\<lambda>st. st\<lparr>tcVersion := (if version > 4 then DEFAULT_TC_VERSION else version)\<rparr>) save"
| "settings_program env GetLanguageCode = read_prog (Code \<circ> languageCode)"
| "settings_program env (SetLanguage code save) = set_prog env (\<lambda>st. st\<lparr>languageCode := code\<rparr>) save"
| "settings_program env GetCountryCode = read_prog (Code \<circ> countryCode)"
| "settings_program env (SetCountry code save) = set_prog env (\<lambda>st. st\<lparr>countryCode := code\<rparr>) save"

section \<open>The methods as operations\<close>

definition set_switch :: "('j, 'f) settings_env \<Rightarrow> switch \<Rightarrow> bool \<Rightarrow> bool \<Rightarrow> settings \<Rightarrow> 'f fs \<Rightarrow> 'f setter_result" where
  "set_switch env sw = (case sw of TecuEnabled \<Rightarrow> set_tecu_enabled env | NmeaSendEnabled \<Rightarrow> set_nmea_send_enabled env
     | AogHeartbeatEnabled \<Rightarrow> set_aog_heartbeat_enabled env | VtEnabled \<Rightarrow> set_vt_enabled env)"

fun settings_operation :: "('j, 'f) settings_env \<Rightarrow> settings_call \<Rightarrow> 'f store \<Rightarrow> settings_answer \<times> 'f store" where
  "settings_operation env Load (st, fs) = (case load_settings env fs st of (r, st') \<Rightarrow> (Outcome r, st', fs))"
| "settings_operation env Save (st, fs) = (case save_settings env st fs of (r, fs') \<Rightarrow> (Outcome r, st, fs'))"
| "settings_operation env GetSubnet (st, fs) = (Octets (configuredSubnet st), st, fs)"
| "settings_operation env GetSubnetString (st, fs) = (Code (get_subnet_string st), st, fs)"
| "settings_operation env (SetSubnet a b c save) (st, fs) = apfst Outcome (set_subnet env [a, b, c] save st fs)"
| "settings_operation env (IsEnabled sw) (st, fs) = (Flag (get_switch sw st), st, fs)"
| "settings_operation env (SetEnabled sw enabled save) (st, fs) = apfst Outcome (set_switch env sw enabled save st fs)"
| "settings_operation env GetTcVersion (st, fs) = (Number (tcVersion st), st, fs)"
| "settings_operation env (SetTcVersion version save) (st, fs) = apfst Outcome (set_tc_version env version save st fs)"
| "settings_operation env GetLanguageCode (st, fs) = (Code (languageCode st), st, fs)"
| "settings_operation env (SetLanguage code save) (st, fs) = apfst Outcome (set_language_code env code save st fs)"
| "settings_operation env GetCountryCode (st, fs) = (Code (countryCode st), st, fs)"
| "settings_operation env (SetCountry code save) (st, fs) = apfst Outcome (set_country_code env code save st fs)"

section \<open>Guarded and atomic\<close>

lemma settings_program_guarded: "guarded (settings_program env c)"
  by (cases c) (auto simp: guarded_def read_prog_def load_prog_def save_prog_def set_prog_def set_boolean_prog_def split: prod.split)

lemma run_set: "run_alone (set_prog env write save) (st, fs) = apfst Outcome (save_if env save (write st) fs)"
  by (simp add: set_prog_def save_prog_def save_if_def split: prod.split)

lemma run_set_boolean:
  "run_alone (set_boolean_prog env sw enabled save) (st, fs) =
     apfst Outcome (set_boolean env (get_switch sw) (put_switch sw) enabled save st fs)"
  by (auto simp: set_boolean_prog_def save_prog_def set_boolean_def Let_def split: prod.split option.split bool.split)

lemma set_switch_boolean: "set_switch env sw = set_boolean env (get_switch sw) (put_switch sw)"
  by (cases sw) (auto simp: set_switch_def set_tecu_enabled_def set_nmea_send_enabled_def set_aog_heartbeat_enabled_def
      set_vt_enabled_def set_boolean_def Let_def fun_eq_iff split: prod.split option.split bool.split)

lemma run_settings_program: "run_alone (settings_program env c) s = settings_operation env c s"
  by (cases s, cases c)
    (auto simp: run_set run_set_boolean set_switch_boolean read_prog_def load_prog_def save_prog_def set_subnet_def
      set_tc_version_def set_language_code_def set_country_code_def split: prod.split)

lemma settings_wf_switch: "settings_wf (put_switch sw b st) = settings_wf st"
  by (cases sw) (simp_all add: settings_wf_def)

lemma settings_operation_wf:
  assumes "json_lib_ok (set_json env)" "settings_wf st"
  shows "settings_wf (fst (snd (settings_operation env c (st, fs))))"
proof -
  have saved: "settings_wf (fst (snd (save_if env save st' fs)))" if "settings_wf st'" for save st'
    using that by (simp add: save_if_def split: prod.split)
  have "settings_wf (fst (snd (set_boolean env (get_switch sw) (put_switch sw) b save st fs)))" for sw b save
    using assms(2) by (auto simp: set_boolean_def Let_def settings_wf_switch split: prod.split option.split bool.split)
  moreover have "settings_wf (snd (load_settings env fs st))"
    using assms by (auto simp: load_settings_def intro: settings_wf_from split: option.split)
  moreover have "settings_wf (st\<lparr>configuredSubnet := [x, y, z]\<rparr>)" "settings_wf (st\<lparr>languageCode := code\<rparr>)"
    "settings_wf (st\<lparr>countryCode := code\<rparr>)" "settings_wf (st\<lparr>tcVersion := (if v > 4 then DEFAULT_TC_VERSION else v)\<rparr>)" for x y z code v
    using assms(2) by (auto simp: settings_wf_def DEFAULT_TC_VERSION_def)
  ultimately show ?thesis
    using assms(2) by (cases c)
      (simp_all add: set_switch_boolean set_subnet_def set_tc_version_def set_language_code_def set_country_code_def saved split_beta)
qed

interpretation settings: atomic_calls "settings_program env" "settings_operation env"
  "\<lambda>s. json_lib_ok (set_json env) \<longrightarrow> settings_wf (fst s)" for env
  by unfold_locales (auto simp: settings_program_guarded run_settings_program intro: settings_operation_wf)

section \<open>Property\<close>

text \<open>
  C7 Settings change as a whole: any number of threads call the methods of \<open>Settings\<close> in any interleaving of
  their actions, saves and roll-backs included. The completed calls with their answers are a sequential
  run of the methods from the start, so no call reads a value that a failed save then takes back;
  whenever the mutex is free the values and the file are what that run leaves, with three octets
  and a known version; and only the thread that holds the mutex is about to touch them.
\<close>

theorem settings_atomic:
  fixes x :: "(nat, 'f store, settings_answer, settings_call) shared"
  assumes "json_lib_ok (set_json env)" "(par_step (settings_program env))\<^sup>*\<^sup>* (all_idle (default_settings, fs)) x"
  shows "(\<exists>s. replay (settings_operation env) (default_settings, fs) (history x) = Some s \<and> settings_wf (fst s) \<and>
      (mutex x = None \<longrightarrow> memory x = s)) \<and>
    (\<forall>t c w k. threads x t = Some (c, Do w k) \<longrightarrow> (\<exists>n. mutex x = Some (t, n)))"
proof
  show "\<exists>s. replay (settings_operation env) (default_settings, fs) (history x) = Some s \<and> settings_wf (fst s) \<and>
      (mutex x = None \<longrightarrow> memory x = s)"
    using settings.linearizable [OF assms(2)] assms(1) settings_wf_default by fastforce
  show "\<forall>t c w k. threads x t = Some (c, Do w k) \<longrightarrow> (\<exists>n. mutex x = Some (t, n))"
    using settings.exclusive [OF assms(2)] by (intro allI impI)
qed

text \<open>One thread tries to switch the tractor ECU off while nothing can be saved, another reads the switch.\<close>

theorem settings_atomic_witness:
  "\<exists>x :: (nat, jval store, settings_answer, settings_call) shared.
     (par_step (settings_program (sample_env\<lparr>rename_ok := False\<rparr>)))\<^sup>*\<^sup>* (all_idle (default_settings, Map.empty)) x \<and>
     history x = [(0, SetEnabled TecuEnabled False True, Outcome (Some False)), (1, IsEnabled TecuEnabled, Flag True)] \<and>
     settings_wf (fst (memory x))"
proof -
  let ?env = "sample_env\<lparr>rename_ok := False\<rparr>" and ?set = "SetEnabled TecuEnabled False True" and ?get = "IsEnabled TecuEnabled"
  let ?start = "all_idle (default_settings, Map.empty) :: (nat, jval store, settings_answer, settings_call) shared"
  define y where "y = finished 0 ?set (settings_program ?env ?set) ?start"
  define x where "x = finished 1 ?get (settings_program ?env ?get) y"
  have y: "(par_step (settings_program ?env))\<^sup>*\<^sup>* ?start y" "mutex y = None" "threads y 1 = None"
    unfolding y_def by (rule settings.call_completes) (simp_all add: finished_def all_idle_def)
  have "get_filename_path (set_os ?env) ''settings.json'' = Some ''/c/AOG-TaskController/settings.json''" by code_simp
  then obtain fs where "settings_operation ?env ?set (default_settings, Map.empty) = (Outcome (Some False), default_settings, fs)"
    by (simp add: set_switch_boolean set_boolean_def save_settings_def Let_def sample_env_def sample_os_def sample_lib_def default_settings_def)
  then have h: "history x = [(0, ?set, Outcome (Some False)), (1, ?get, Flag True)]" "mutex x = None"
    by (simp_all add: x_def y_def finished_def all_idle_def run_settings_program default_settings_def del: settings_program.simps)
  have "(par_step (settings_program ?env))\<^sup>*\<^sup>* y x" unfolding x_def by (rule settings.call_completes) (use y in simp_all)
  then have x: "(par_step (settings_program ?env))\<^sup>*\<^sup>* ?start x" using y(1) by (rule rtranclp_trans [rotated])
  then show ?thesis using settings_atomic [OF _ x] h sample_lib_ok by (intro exI [of _ x]) (auto simp: sample_env_def)
qed

end
