(* ===== verification/Tc_Notices.thy ===== *)
theory Tc_Notices
  imports App_Setup
begin

text \<open>
  The callbacks of \<open>MyTCServer\<close> that only write to the log, and what its constructor announces to the
  library. They touch neither the client map nor the uploaded pools, and take no mutex.
\<close>

definition identify_task_controller :: "u8 \<Rightarrow> log_item list" where
  "identify_task_controller tcNumber =
     [Line (replicate 40 (CHR ''='')), Line (''=== TC NUMBER '' @ to_string (unat tcNumber) @ '' IDENTIFIED ===''),
      Line (replicate 40 (CHR ''=''))]"

definition on_client_version_received :: "nat \<Rightarrow> u8 \<Rightarrow> log_item list" where
  "on_client_version_received full_name version =
     [Tagged ''TC Server'' (''Client '' @ to_string full_name @ '' reported TC version '' @ to_string (unat version))]"

text \<open>A \<open>std::bitset<8>\<close> on a stream: the most significant bit first.\<close>

definition bitset8 :: "u8 \<Rightarrow> string" where
  "bitset8 v = map (\<lambda>i. if bit v i then CHR ''1'' else CHR ''0'') (rev [0..<8])"

definition on_process_data_acknowledge :: "u8 \<Rightarrow> u16 \<Rightarrow> u16 \<Rightarrow> u8 \<Rightarrow> u8 \<Rightarrow> log_item list" where
  "on_process_data_acknowledge address dataDescriptionIndex elementNumber errorCodesFromClient processDataCommand =
     [Line (''Received process data acknowledge from client '' @ to_string (unat address) @ '' for DDI ''
        @ to_string (unat dataDescriptionIndex) @ '' element '' @ to_string (unat elementNumber) @ '' with error codes ''
        @ bitset8 errorCodesFromClient @ '' and command '' @ to_string (unat processDataCommand))]"

record server_options =
  number_booms :: nat
  number_sections :: nat
  number_channels :: nat
  implement_section_control :: bool
  server_version :: tc_version

definition MyTCServer :: "tc_version \<Rightarrow> server_options" where
  "MyTCServer version = \<lparr>number_booms = 1, number_sections = 64, number_channels = 64, implement_section_control = True,
     server_version = version\<rparr>"

section \<open>The error codes can be read off the line\<close>

text \<open>The line of an acknowledgement names the error codes: different codes give different texts.\<close>

lemma bitset8_inject: "bitset8 v = bitset8 w \<longleftrightarrow> v = w"
proof
  assume "bitset8 v = bitset8 w"
  then have "\<forall>i\<in>{0..<8}. bit v i = bit w i" by (auto simp: bitset8_def split: if_splits)
  then show "v = w" by (auto intro!: bit_word_eqI)
qed simp

text \<open>
  The limits the server announces to the library are those it announces on the bus: one boom and as
  many sections as a demand from AgOpenGPS has.
\<close>

lemma announced_limits_agree:
  "SetSectionControlOptions (number_booms (MyTCServer v)) (number_sections (MyTCServer v)) \<in>
     set (setup_calls (setup_task_controller_server p))"
  by (simp add: MyTCServer_def setup_task_controller_server_def say_def configure_def Let_def)

end
