(* ===== verification/Main_Program.thy ===== *)
theory Main_Program
  imports Command_Line
begin

text \<open>
  How the program is asked to end and how it ends when it crashes: the window procedure, the message pump
  and \<open>WinMain\<close> of \<open>src/src/main.cpp\<close> on Windows, the signal handler on POSIX, the arguments as each
  system hands them over, and the handlers that \<open>src/src/crash_handler.cpp\<close> installs. What the
  operating system answers is an input.
\<close>

section \<open>Requests to stop\<close>

text \<open>Windows: a message other than \<open>WM_CLOSE\<close> goes to the default procedure of the system.\<close>

datatype window_message = WM_CLOSE | OtherMessage nat

definition WndProc :: "(window_message \<Rightarrow> int) \<Rightarrow> window_message \<Rightarrow> bool \<Rightarrow> int \<times> bool" where
  "WndProc DefWindowProc message running =
     (case message of WM_CLOSE \<Rightarrow> (0, False) | OtherMessage _ \<Rightarrow> (DefWindowProc message, running))"

datatype wait_result = WAIT_OBJECT_0 | WAIT_TIMEOUT | WAIT_FAILED

text \<open>The messages are those \<open>PeekMessage\<close> takes from the queue until it finds none.\<close>

definition pump_messages :: "(window_message \<Rightarrow> int) \<Rightarrow> wait_result \<times> window_message list \<Rightarrow> bool \<Rightarrow> bool" where
  "pump_messages DefWindowProc i running =
     (case i of (wait, messages) \<Rightarrow>
        if wait = WAIT_OBJECT_0 then fold (\<lambda>m r. snd (WndProc DefWindowProc m r)) messages running else running)"

text \<open>POSIX: the dispositions of the signals the program knows; SIGPIPE is ignored.\<close>

datatype posix_signal = SIGINT | SIGTERM | SIGPIPE | Fatal fatal_signal
datatype disposition = DefaultAction | Ignored | CallsStop | CallsCrashHandler

definition signal_handler :: "bool \<Rightarrow> bool" where
  "signal_handler running = False"

definition install_crash_handlers :: "(posix_signal \<Rightarrow> disposition) \<Rightarrow> posix_signal \<Rightarrow> disposition" where
  "install_crash_handlers d = fold (\<lambda>sig d. d(Fatal sig := CallsCrashHandler)) fatalSignals d"

definition main_signals :: "(posix_signal \<Rightarrow> disposition) \<Rightarrow> posix_signal \<Rightarrow> disposition" where
  "main_signals d = (install_crash_handlers d)(SIGINT := CallsStop, SIGTERM := CallsStop, SIGPIPE := Ignored)"

text \<open>The signals that arrive during a round of the loop and do not end the process at once.\<close>

definition take_signals :: "(posix_signal \<Rightarrow> disposition) \<Rightarrow> posix_signal list \<Rightarrow> bool \<Rightarrow> bool" where
  "take_signals d signals running = fold (\<lambda>sig r. if d sig = CallsStop then signal_handler r else r) signals running"

section \<open>The rounds of the main loop\<close>

text \<open>
  A round with what arrives in it before the update, read by the next test of \<open>running\<close>. After the last
  round given the test is made once more.
\<close>

fun loop_rounds :: "('i \<Rightarrow> bool \<Rightarrow> bool) \<Rightarrow> bool \<Rightarrow> ('i \<times> call) list \<Rightarrow> (bool \<times> call) list" where
  "loop_rounds listen running [] = (if running then [] else [(False, Returned True)])"
| "loop_rounds listen running ((i, outcome) # rest) = (running, outcome) # loop_rounds listen (listen i running) rest"

definition WinMain :: "build \<Rightarrow> string \<Rightarrow> bool \<Rightarrow> string list \<Rightarrow> bool \<Rightarrow> (window_message \<Rightarrow> int) \<Rightarrow> call \<Rightarrow>
    ((wait_result \<times> window_message list) \<times> call) list \<Rightarrow> program_end option" where
  "WinMain b version file_log_ok arguments window_created DefWindowProc init rounds =
     (case prepare_application b version file_log_ok arguments of
        Exits (code, _) \<Rightarrow> Some (ExitCode code)
      | Crashed \<Rightarrow> Some Aborted
      | NoDriver _ \<Rightarrow> Some (ExitCode (- 1))
      | Driver _ _ \<Rightarrow>
          if \<not> window_created then Some (ExitCode (- 1))
          else map_option (\<lambda>(code, _). ExitCode code)
                 (run_application_loop init (loop_rounds (pump_messages DefWindowProc) True rounds)))"

text \<open>What is written to the console of the parent process, when there is one.\<close>

definition console_greeting :: "bool \<Rightarrow> string" where
  "console_greeting attached =
     (if attached
      then replicate 100 newline
           @ ''WARNING: Only start the application if you know what you are doing. It is intended to be started from AgIO!'' @ [newline]
           @ ''Press Ctrl+C to stop the application...'' @ [newline] @ [newline]
      else '''')"

text \<open>
  The arguments on Windows: \<open>argv\<close> is \<open>None\<close> when the system cannot split the command line. An argument is
  converted in two calls, for its size with the terminator and for its bytes; 0 and \<open>None\<close> are failures.
\<close>

definition convert_argument :: "('w \<Rightarrow> nat) \<Rightarrow> ('w \<Rightarrow> nat \<Rightarrow> string option) \<Rightarrow> 'w \<Rightarrow> string option" where
  "convert_argument required_size convert w = (if required_size w = 0 then None else convert w (required_size w))"

definition ParseCommandLine_windows :: "('w \<Rightarrow> nat) \<Rightarrow> ('w \<Rightarrow> nat \<Rightarrow> string option) \<Rightarrow> 'w list option \<Rightarrow> string list" where
  "ParseCommandLine_windows required_size convert argv =
     (case argv of None \<Rightarrow> [] | Some ws \<Rightarrow> List.map_filter (convert_argument required_size convert) ws)"

definition ParseCommandLine_posix :: "nat \<Rightarrow> (nat \<Rightarrow> string) \<Rightarrow> string list" where
  "ParseCommandLine_posix argc argv = map argv [0..<argc]"

section \<open>Crashes\<close>

text \<open>
  A fatal signal on POSIX. \<open>SA_RESETHAND\<close> gives the signal its default action before the handler runs, and
  while it runs the signal is blocked for its thread. The handler sends it to the process again: another
  thread may take it (\<open>taken\<close>), which kills the process; otherwise it stays pending and \<open>_exit\<close> comes
  first. The numbers of the signals are constants of the system.
\<close>

datatype process_end = KilledBy posix_signal | ExitedWith int

record process =
  dispositions :: "posix_signal \<Rightarrow> disposition"
  running_flag :: bool
  stderr_text :: string
  process_ended :: "process_end option"

definition crash_by_signal :: "(fatal_signal \<Rightarrow> int) \<Rightarrow> bool \<Rightarrow> fatal_signal \<Rightarrow> process \<Rightarrow> process" where
  "crash_by_signal number taken sig p =
     p\<lparr>dispositions := (dispositions p)(Fatal sig := DefaultAction),
       stderr_text := fatal_signal_handler sig (stderr_text p),
       process_ended := Some (if taken then KilledBy (Fatal sig) else ExitedWith (128 + number sig))\<rparr>"

definition deliver_signal :: "(fatal_signal \<Rightarrow> int) \<Rightarrow> bool \<Rightarrow> posix_signal \<Rightarrow> process \<Rightarrow> process" where
  "deliver_signal number taken sig p =
     (if process_ended p \<noteq> None then p
      else case dispositions p sig of
        DefaultAction \<Rightarrow> p\<lparr>process_ended := Some (KilledBy sig)\<rparr>
      | Ignored \<Rightarrow> p
      | CallsStop \<Rightarrow> p\<lparr>running_flag := signal_handler (running_flag p)\<rparr>
      | CallsCrashHandler \<Rightarrow> (case sig of Fatal f \<Rightarrow> crash_by_signal number taken f p | _ \<Rightarrow> p))"

text \<open>
  The exception filter on Windows: the crash log first, with the path of the dump, then the dump if its
  file can be created. The time is read twice. The text of the address is the library's.
\<close>

definition EXCEPTION_EXECUTE_HANDLER :: int where "EXCEPTION_EXECUTE_HANDLER = 1"

definition seh_reason :: "u32 \<Rightarrow> string \<Rightarrow> string \<Rightarrow> string" where
  "seh_reason code address dumpPath =
     ''Unhandled SEH exception 0x'' @ hex_string 0 (unat code) @ '' at address '' @ address @ ''. Writing minidump to '' @ dumpPath"

definition unhandled_exception_filter :: "os_env \<Rightarrow> local_time \<Rightarrow> local_time \<Rightarrow> u32 \<Rightarrow> string \<Rightarrow> bool \<Rightarrow> string \<Rightarrow>
    (string \<Rightarrow> string option) \<times> string \<Rightarrow> int \<times> (string \<Rightarrow> string option) \<times> string" where
  "unhandled_exception_filter env t1 t2 code address file_created dump st =
     (let dumpPath = crash_file_path env t1 ''.dmp'';
          st1 = log_crash env t2 (seh_reason code address dumpPath) st
      in (EXCEPTION_EXECUTE_HANDLER,
          if file_created then ((fst st1)(dumpPath \<mapsto> dump), snd st1) else st1))"

section \<open>A request to stop ends the loop\<close>

text \<open>Both systems promise the main loop the same: what arrives in a round can clear \<open>running\<close> and never sets it.\<close>

locale stop_source =
  fixes listen :: "'i \<Rightarrow> bool \<Rightarrow> bool" and asks_stop :: "'i \<Rightarrow> bool"
  assumes listens: "listen i running \<longleftrightarrow> running \<and> \<not> asks_stop i"
begin

lemma rounds_until_stop:
  assumes "list_all (\<lambda>(i, outcome). \<not> asks_stop i \<and> outcome = Returned True) before" "asks_stop i"
  shows "main_loop (loop_rounds listen True (before @ (i, Returned True) # after)) =
     Some (replicate (Suc (length before)) Update, None)"
  using assms(1)
proof (induction before)
  case Nil
  have "main_loop (loop_rounds listen False after) = Some ([], None)" by (cases after) auto
  with assms(2) show ?case using listens [of i True] by simp
next
  case (Cons e before)
  then show ?case using listens [of "fst e" True] by (cases e) simp
qed

lemma keeps_running:
  assumes "list_all (\<lambda>(i, outcome). \<not> asks_stop i \<and> outcome = Returned True) rounds"
  shows "main_loop (loop_rounds listen True rounds) = None"
  using assms
proof (induction rounds)
  case (Cons e rounds)
  then show ?case using listens [of "fst e" True] by (cases e) simp
qed simp

end

lemma fold_pump: "fold (\<lambda>m r. snd (WndProc D m r)) messages running \<longleftrightarrow> running \<and> WM_CLOSE \<notin> set messages"
  by (induction messages arbitrary: running) (auto simp: WndProc_def split: window_message.split)

interpretation windows: stop_source "pump_messages D" "\<lambda>(wait, messages). wait = WAIT_OBJECT_0 \<and> WM_CLOSE \<in> set messages" for D
  by unfold_locales (auto simp: pump_messages_def fold_pump split: prod.split)

lemma fold_signals: "take_signals d signals running \<longleftrightarrow> running \<and> CallsStop \<notin> d ` set signals"
  by (induction signals arbitrary: running) (auto simp: take_signals_def signal_handler_def)

interpretation posix: stop_source "take_signals d" "\<lambda>signals. CallsStop \<in> d ` set signals" for d
  by unfold_locales (auto simp: fold_signals)

lemma main_signals_dispositions:
  "main_signals d SIGINT = CallsStop" "main_signals d SIGTERM = CallsStop" "main_signals d SIGPIPE = Ignored"
  "main_signals d (Fatal sig) = (if sig \<in> set fatalSignals then CallsCrashHandler else d (Fatal sig))"
  by (auto simp: main_signals_def install_crash_handlers_def fatalSignals_def)

lemma run_until_stop:
  "main_loop rounds = Some (events, None) \<Longrightarrow> run_application_loop (Returned True) rounds =
     Some (0, [Initialize, Logged ''Press Ctrl+C to stop the application...''] @ events @ shut_down)"
  by (simp add: run_application_loop_def)

lemma crash_file_path_suffix: "\<exists>pre. crash_file_path env t extension = pre @ extension"
proof (cases "get_filename_path env (''logs/crash_'' @ crash_stamp t @ extension)")
  case (Some path)
  then obtain base where "path = path_join (os_platform env) base (''logs/crash_'' @ crash_stamp t @ extension)"
    by (auto simp: get_filename_path_def Let_def split: option.splits if_splits)
  then show ?thesis using path_join_suffix [of "os_platform env" base "''logs/crash_'' @ crash_stamp t @ extension"] Some
    by (auto simp: crash_file_path_def)
qed (simp add: crash_file_path_def)

lemma crash_log_not_dump: "crash_file_path env t ''.log'' \<noteq> crash_file_path env t' ''.dmp''"
proof -
  obtain a b where "crash_file_path env t ''.log'' = a @ ''.log''" "crash_file_path env t' ''.dmp'' = b @ ''.dmp''"
    using crash_file_path_suffix by metis
  moreover have "last (a @ ''.log'') \<noteq> last (b @ ''.dmp'')" by simp
  ultimately show ?thesis by metis
qed

section \<open>Properties\<close>

text \<open>
  C19 A request to stop is obeyed: when, in a round of the main loop, \<open>WM_CLOSE\<close> is among the messages taken
  from the queue, or on POSIX SIGINT or SIGTERM arrives, and all went well until then, the update of
  that round is the last one, the application is stopped, the log is waited for and the program ends
  with code 0. Without a request and without a failure the loop does not end.
\<close>

theorem stop_request_obeyed:
  assumes "list_all (\<lambda>((wait, messages), outcome). \<not> (wait = WAIT_OBJECT_0 \<and> WM_CLOSE \<in> set messages) \<and> outcome = Returned True) before"
    "WM_CLOSE \<in> set messages"
    "list_all (\<lambda>(signals, outcome). SIGINT \<notin> set signals \<and> SIGTERM \<notin> set signals \<and> outcome = Returned True) pbefore"
    "SIGINT \<in> set signals \<or> SIGTERM \<in> set signals" "\<And>sig. d sig \<noteq> CallsStop"
  shows "run_application_loop (Returned True) (loop_rounds (pump_messages D) True (before @ ((WAIT_OBJECT_0, messages), Returned True) # after)) =
      Some (0, [Initialize, Logged ''Press Ctrl+C to stop the application...''] @ replicate (Suc (length before)) Update @ shut_down) \<and>
    run_application_loop (Returned True) (loop_rounds (take_signals (main_signals d)) True (pbefore @ (signals, Returned True) # pafter)) =
      Some (0, [Initialize, Logged ''Press Ctrl+C to stop the application...''] @ replicate (Suc (length pbefore)) Update @ shut_down) \<and>
    run_application_loop (Returned True) (loop_rounds (pump_messages D) True before) = None \<and>
    run_application_loop (Returned True) (loop_rounds (take_signals (main_signals d)) True pbefore) = None"
proof -
  have calls: "main_signals d sig = CallsStop \<longleftrightarrow> sig = SIGINT \<or> sig = SIGTERM" for sig
    using assms(5) by (cases sig) (auto simp: main_signals_dispositions)
  have w: "list_all (\<lambda>(i, outcome). \<not> (case i of (wait, messages) \<Rightarrow> wait = WAIT_OBJECT_0 \<and> WM_CLOSE \<in> set messages) \<and> outcome = Returned True) before"
    using assms(1) by (auto simp: list_all_iff)
  have s: "list_all (\<lambda>(i, outcome). \<not> CallsStop \<in> main_signals d ` set i \<and> outcome = Returned True) pbefore"
    using assms(3) by (auto simp: list_all_iff dest!: sym [of CallsStop] simp: calls)
  obtain sig where "sig \<in> set signals" "main_signals d sig = CallsStop" using assms(4) calls by blast
  then have "CallsStop \<in> main_signals d ` set signals" by force
  then have "main_loop (loop_rounds (pump_messages D) True (before @ ((WAIT_OBJECT_0, messages), Returned True) # after)) =
      Some (replicate (Suc (length before)) Update, None)"
    "main_loop (loop_rounds (take_signals (main_signals d)) True (pbefore @ (signals, Returned True) # pafter)) =
      Some (replicate (Suc (length pbefore)) Update, None)"
    "main_loop (loop_rounds (pump_messages D) True before) = None"
    "main_loop (loop_rounds (take_signals (main_signals d)) True pbefore) = None"
    using windows.rounds_until_stop [OF w, of "(WAIT_OBJECT_0, messages)" D after] assms(2)
      posix.rounds_until_stop [OF s, of signals pafter] windows.keeps_running [OF w, of D] posix.keeps_running [OF s]
    by simp_all
  then show ?thesis by (simp only: run_until_stop) (simp add: run_application_loop_def)
qed

theorem stop_request_obeyed_witness:
  "run_application_loop (Returned True) (loop_rounds (pump_messages (\<lambda>_. 0)) True
     [((WAIT_TIMEOUT, []), Returned True), ((WAIT_OBJECT_0, [OtherMessage 15, WM_CLOSE]), Returned True), ((WAIT_TIMEOUT, []), Returned True)]) =
   Some (0, [Initialize, Logged ''Press Ctrl+C to stop the application...'', Update, Update] @ shut_down)"
  using stop_request_obeyed [of "[((WAIT_TIMEOUT, []), Returned True)]" "[OtherMessage 15, WM_CLOSE]" "[([], Returned True)]" "[SIGTERM]"
      "\<lambda>_. DefaultAction" "\<lambda>_. 0" "[((WAIT_TIMEOUT, []), Returned True)]"]
  by simp

text \<open>
  A crash on Windows leaves a report that finds the dump: whatever the log directory is, the filter
  appends to the crash log one line that names the path of the dump, the dump is at that path when its
  file could be created, no other file changes, and Windows is told to end the process.
\<close>

theorem crash_report_names_dump:
  assumes "os_can_write env (crash_file_path env t2 ''.log'')"
  shows "\<exists>files' dumpPath. unhandled_exception_filter env t1 t2 code address file_created dump (files, console) =
      (EXCEPTION_EXECUTE_HANDLER, files', console) \<and>
    dumpPath = crash_file_path env t1 ''.dmp'' \<and>
    files' (crash_file_path env t2 ''.log'') = Some ((case files (crash_file_path env t2 ''.log'') of Some old \<Rightarrow> old | None \<Rightarrow> [])
      @ ''['' @ get_timestamp t2 @ ''] [Crash] Unhandled SEH exception 0x'' @ hex_string 0 (unat code) @ '' at address '' @ address
      @ ''. Writing minidump to '' @ dumpPath @ [newline]) \<and>
    files' dumpPath = (if file_created then Some dump else files dumpPath) \<and>
    (\<forall>path. path \<notin> {dumpPath, crash_file_path env t2 ''.log''} \<longrightarrow> files' path = files path)"
  using assms crash_log_not_dump [of env t2 t1]
  by (auto simp: unhandled_exception_filter_def log_crash_def seh_reason_def Let_def)

definition crash_time :: local_time where
  "crash_time = \<lparr>tm_year = 125, tm_mon = 0, tm_mday = 20, tm_hour = 8, tm_min = 30, tm_sec = 0, tm_ms = 0\<rparr>"

definition windows_os :: os_env where
  "windows_os = \<lparr>os_platform = Windows, os_appdata = Some ''D'', os_home = None, os_xdg_config_home = None,
     os_create_directories = (\<lambda>_. True), os_can_write = (\<lambda>_. True)\<rparr>"

theorem crash_report_names_dump_witness:
  "\<exists>files'. unhandled_exception_filter windows_os crash_time crash_time 0xC0000005 ''0'' True ''MDMP'' (Map.empty, []) =
      (EXCEPTION_EXECUTE_HANDLER, files', []) \<and>
    files' (crash_file_path windows_os crash_time ''.dmp'') = Some ''MDMP''"
proof -
  have "os_can_write windows_os (crash_file_path windows_os crash_time ''.log'')" by (simp add: windows_os_def)
  from crash_report_names_dump [OF this, of crash_time "0xC0000005" "''0''" True "''MDMP''" Map.empty "[]"] show ?thesis
    by (simp only: if_True) blast
qed

text \<open>
  A fatal signal ends the process, after one line on the error output. The handler runs once: its signal has its
  default action again. Only when another thread takes the signal that the handler sends is the process
  killed by it, which is when a core can be written; otherwise the process exits.
\<close>

theorem fatal_signal_ends_process:
  assumes "dispositions p = main_signals d" "process_ended p = None" "sig \<in> set fatalSignals"
  shows "process_ended (deliver_signal number taken (Fatal sig) p) =
      Some (if taken then KilledBy (Fatal sig) else ExitedWith (128 + number sig)) \<and>
    stderr_text (deliver_signal number taken (Fatal sig) p) = stderr_text p @ ''[Crash] Fatal signal: '' @ signal_name sig @ [newline] \<and>
    dispositions (deliver_signal number taken (Fatal sig) p) (Fatal sig) = DefaultAction"
  using assms by (simp add: deliver_signal_def main_signals_dispositions crash_by_signal_def fatal_signal_handler_writes)

end
