(* ===== verification/Udp_Faults.thy ===== *)
theory Udp_Faults
  imports App_Setup App_Properties
begin

text \<open>
  The class \<open>UdpConnections\<close> with its two sockets as objects that can be open or closed, and with the
  exceptions that \<open>handle_address_detection\<close> can throw when a subnet announcement arrives (a socket
  counts as open when it is open and bound): the save of
  the settings may throw, and closing, opening and binding the socket again may. An exception leaves
  the loop at once.
\<close>

section \<open>The object\<close>

record 'f udp_link =
  link :: "'f udp_state"
  packet_open :: bool
  detection_open :: bool
  has_callback :: bool

definition UdpConnections :: "'f udp_state \<Rightarrow> 'f udp_link" where
  "UdpConnections u = \<lparr>link = u, packet_open = False, detection_open = False, has_callback = False\<rparr>"

definition set_packet_handler :: "'f udp_link \<Rightarrow> 'f udp_link" where
  "set_packet_handler l = l\<lparr>has_callback := True\<rparr>"

definition udp_close :: "'f udp_link \<Rightarrow> 'f udp_link" where
  "udp_close l = l\<lparr>packet_open := False, detection_open := False\<rparr>"

text \<open>
  What the system answers: the text of the exception with which closing, opening and binding to an endpoint
  fails, if it does, and the text of an exception of the save.
\<close>

record udp_faults =
  bind_error :: "u8 list \<times> nat \<Rightarrow> string option"
  save_error :: string

text \<open>An announcement: the subnet is set and saved, then the socket is closed, opened and bound again.\<close>

definition announce :: "('j, 'f) settings_env \<Rightarrow> net_env \<Rightarrow> udp_faults \<Rightarrow> u8 list \<Rightarrow> 'f udp_link \<Rightarrow>
    (thrown \<times> 'f udp_link) + 'f udp_link" where
  "announce env net faults subnet l =
     (case set_subnet env subnet True (udp_settings (link l)) (udp_files (link l)) of
        (saved, st', files') \<Rightarrow>
          (let l1 = l\<lparr>link := (link l)\<lparr>udp_settings := st', udp_files := files'\<rparr>\<rparr>;
               endpoint = get_local_endpoint (net_platform net) st' (net_interfaces net) (net_resolved net)
           in if saved = None then Inl (StdException (save_error faults), l1)
              else case bind_error faults endpoint of
                Some e \<Rightarrow> Inl (StdException e, l1\<lparr>packet_open := False\<rparr>)
              | None \<Rightarrow> Inr (l1\<lparr>link := (link l1)\<lparr>bound_endpoint := endpoint\<rparr>, packet_open := True\<rparr>)))"

fun announce_all :: "('j, 'f) settings_env \<Rightarrow> net_env \<Rightarrow> udp_faults \<Rightarrow> u8 list list \<Rightarrow> 'f udp_link \<Rightarrow>
    (thrown \<times> 'f udp_link) + 'f udp_link" where
  "announce_all env net faults [] l = Inr l"
| "announce_all env net faults (subnet # subnets) l =
     (case announce env net faults subnet l of Inl e \<Rightarrow> Inl e | Inr l' \<Rightarrow> announce_all env net faults subnets l')"

partial_function (option) detection_loop :: "('j, 'f) settings_env \<Rightarrow> net_env \<Rightarrow> udp_faults \<Rightarrow> bytes \<Rightarrow> nat \<Rightarrow> u8 \<Rightarrow>
    'f udp_link \<Rightarrow> ((thrown \<times> 'f udp_link) + (rx_state \<times> 'f udp_link)) option" where
  "detection_loop env net faults buf rx index l =
     (if rx \<ge> 8
      then (case frame_step detect_subnet buf rx index of
              (subnets, buf', rx', index') \<Rightarrow>
                (case announce_all env net faults subnets l of
                   Inl e \<Rightarrow> Some (Inl e)
                 | Inr l' \<Rightarrow> detection_loop env net faults buf' rx' index' l'))
      else Some (Inr (\<lparr>rxBuffer = buf, rxIndex = rx\<rparr>, l)))"

definition detect_addresses :: "('j, 'f) settings_env \<Rightarrow> net_env \<Rightarrow> udp_faults \<Rightarrow> rx_result \<Rightarrow> 'f udp_link \<Rightarrow>
    ((thrown \<times> 'f udp_link) + 'f udp_link) option" where
  "detect_addresses env net faults r l =
     (case r of
        Received data \<Rightarrow>
          map_option (\<lambda>result. case result of
              Inl e \<Rightarrow> Inl e
            | Inr (rx', l') \<Rightarrow> Inr (l'\<lparr>link := (link l')\<lparr>address_rx := rx'\<rparr>\<rparr>))
            (detection_loop env net faults (store_received (address_rx (link l)) data) (rxIndex (address_rx (link l)) + length data) 0 l)
      | _ \<Rightarrow> Some (Inr l))"

section \<open>Without faults\<close>

text \<open>No exception and no closed socket: every announcement saves, or fails to save without throwing, and can be bound.\<close>

definition no_faults :: "('j, 'f) settings_env \<Rightarrow> udp_faults \<Rightarrow> bool" where
  "no_faults env faults \<longleftrightarrow> (\<forall>endpoint. bind_error faults endpoint = None) \<and>
     (\<forall>st files. fst (save_settings env st files) \<noteq> None)"

lemma announce_no_faults:
  assumes "no_faults env faults"
  shows "announce env net faults subnet l = Inr (l\<lparr>link := apply_subnet env net subnet (link l), packet_open := True\<rparr>)"
proof -
  obtain saved st' files' where s: "set_subnet env subnet True (udp_settings (link l)) (udp_files (link l)) = (saved, st', files')"
    by (metis prod_cases3)
  then have "saved \<noteq> None"
    using assms by (auto simp: set_subnet_def save_if_def no_faults_def split: prod.splits) (metis fst_conv option.distinct(1))
  moreover have "bind_error faults endpoint = None" for endpoint using assms by (simp only: no_faults_def)
  ultimately show ?thesis using s by (simp add: announce_def apply_subnet_def Let_def)
qed

lemma announce_all_no_faults:
  assumes "no_faults env faults" "packet_open l"
  shows "announce_all env net faults subnets l = Inr (l\<lparr>link := fold (apply_subnet env net) subnets (link l)\<rparr>)"
  using assms(2)
proof (induction subnets arbitrary: l)
  case (Cons subnet subnets)
  then show ?case by (simp add: announce_no_faults [OF assms(1)])
qed simp

lemma detection_loop_of_frames:
  assumes "frame_loop handle buf rx index = Some r" "no_faults env faults" "packet_open l" "handle = detect_subnet"
  shows "detection_loop env net faults buf rx index l = Some (Inr (snd r, l\<lparr>link := fold (apply_subnet env net) (fst r) (link l)\<rparr>))"
proof -
  have "\<forall>l :: 'b udp_link. packet_open l \<longrightarrow> handle = detect_subnet \<longrightarrow>
      detection_loop env net faults buf rx index l = Some (Inr (snd r, l\<lparr>link := fold (apply_subnet env net) (fst r) (link l)\<rparr>))"
    using assms(1)
  proof (rule frame_loop.raw_induct [where P = "\<lambda>handle buf rx index r. \<forall>l :: 'b udp_link. packet_open l \<longrightarrow> handle = detect_subnet \<longrightarrow>
      detection_loop env net faults buf rx index l = Some (Inr (snd r, l\<lparr>link := fold (apply_subnet env net) (fst r) (link l)\<rparr>))", rotated],
      intro allI impI)
    fix loop :: "(bytes \<Rightarrow> u8 \<Rightarrow> u8 list list \<times> u8) \<Rightarrow> bytes \<Rightarrow> nat \<Rightarrow> u8 \<Rightarrow> (u8 list list \<times> rx_state) option"
      and handle buf rx index r and l :: "'b udp_link"
    assume IH: "\<And>handle buf rx index r. loop handle buf rx index = Some r \<Longrightarrow> \<forall>l :: 'b udp_link. packet_open l \<longrightarrow> handle = detect_subnet \<longrightarrow>
        detection_loop env net faults buf rx index l = Some (Inr (snd r, l\<lparr>link := fold (apply_subnet env net) (fst r) (link l)\<rparr>))"
      and run: "(if 8 \<le> rx then case frame_step handle buf rx index of
          (events, buf', rx', index') \<Rightarrow> Option.bind (loop handle buf' rx' index') (\<lambda>(rest, st). Some (events @ rest, st))
        else Some ([], \<lparr>rxBuffer = buf, rxIndex = rx\<rparr>)) = Some r"
      and l: "packet_open l" "handle = detect_subnet"
    obtain ev buf' rx' index' where step: "frame_step detect_subnet buf rx index = (ev, buf', rx', index')" by (metis prod_cases4)
    show "detection_loop env net faults buf rx index l = Some (Inr (snd r, l\<lparr>link := fold (apply_subnet env net) (fst r) (link l)\<rparr>))"
    proof (cases "8 \<le> rx")
      case True
      then obtain r' where r': "loop detect_subnet buf' rx' index' = Some r'" "r = (ev @ fst r', snd r')"
        using run step l(2) by (auto simp: bind_eq_Some_conv)
      then show ?thesis
        using IH [OF r'(1)] l(1) step True by (simp add: detection_loop.simps announce_all_no_faults [OF assms(2)])
    qed (use run in \<open>auto simp: detection_loop.simps\<close>)
  qed
  then show ?thesis using assms(3,4) by blast
qed

lemma frames_of_detection_loop:
  fixes env :: "('j, 'f) settings_env" and l :: "'f udp_link"
  assumes "detection_loop env net faults buf rx index l = Some res" "no_faults env faults" "packet_open l"
  shows "frame_loop detect_subnet buf rx index \<noteq> None"
proof -
  have "no_faults env faults \<longrightarrow> packet_open l \<longrightarrow> frame_loop detect_subnet buf rx index \<noteq> None"
    using assms(1)
  proof (rule detection_loop.raw_induct [where P = "\<lambda>env net faults buf rx index l res. no_faults env faults \<longrightarrow> packet_open l \<longrightarrow>
      frame_loop detect_subnet buf rx index \<noteq> None", rotated], intro impI)
    fix loop and env :: "('j, 'f) settings_env" and net faults buf rx index and l :: "'f udp_link" and res
    assume IH: "\<And>env net faults buf rx index l res. loop env net faults buf rx index l = Some res \<Longrightarrow>
        no_faults env faults \<longrightarrow> packet_open l \<longrightarrow> frame_loop detect_subnet buf rx index \<noteq> None"
      and run: "(if 8 \<le> rx then case frame_step detect_subnet buf rx index of
          (subnets, buf', rx', index') \<Rightarrow> (case announce_all env net faults subnets l of
             Inl e \<Rightarrow> Some (Inl e) | Inr l' \<Rightarrow> loop env net faults buf' rx' index' l')
        else Some (Inr (\<lparr>rxBuffer = buf, rxIndex = rx\<rparr>, l))) = Some res"
      and ok: "no_faults env faults" "packet_open l"
    obtain ev buf' rx' index' where step: "frame_step detect_subnet buf rx index = (ev, buf', rx', index')" by (metis prod_cases4)
    show "frame_loop detect_subnet buf rx index \<noteq> None"
    proof (cases "8 \<le> rx")
      case True
      let ?l = "l\<lparr>link := fold (apply_subnet env net) ev (link l)\<rparr>"
      have "loop env net faults buf' rx' index' ?l = Some res"
        using run step True announce_all_no_faults [OF ok] by simp
      then have "frame_loop detect_subnet buf' rx' index' \<noteq> None" using IH ok by simp
      then show ?thesis using step True by (auto simp: frame_loop.simps [of detect_subnet buf])
    qed (simp add: frame_loop.simps)
  qed
  then show ?thesis using assms(2,3) by blast
qed

text \<open>Without faults the loop with exceptions is the loop of \<open>Udp_Frame\<close>, also when it does not end.\<close>

theorem detect_addresses_no_faults:
  assumes "no_faults env faults" "packet_open l"
  shows "detect_addresses env net faults r l =
     map_option (\<lambda>u. Inr (l\<lparr>link := u\<rparr>)) (handle_address_detection env net r (link l))"
proof (cases r)
  case (Received data)
  let ?buf = "store_received (address_rx (link l)) data" and ?n = "rxIndex (address_rx (link l)) + length data"
  have rx: "fold (apply_subnet env net) subnets (u\<lparr>address_rx := rx'\<rparr>) = (fold (apply_subnet env net) subnets u)\<lparr>address_rx := rx'\<rparr>" for subnets u rx'
  proof (induction subnets arbitrary: u)
    case (Cons subnet subnets)
    have "apply_subnet env net subnet (u\<lparr>address_rx := rx'\<rparr>) = (apply_subnet env net subnet u)\<lparr>address_rx := rx'\<rparr>"
      by (cases u) (simp add: apply_subnet_def split_beta)
    then show ?case using Cons.IH by simp
  qed simp
  show ?thesis
  proof (cases "frame_loop detect_subnet ?buf ?n 0")
    case None
    then have "detection_loop env net faults ?buf ?n 0 l = None"
      using frames_of_detection_loop [OF _ assms] by (metis not_None_eq)
    with None Received show ?thesis by (simp add: detect_addresses_def handle_address_detection_def receive_frames_def)
  next
    case (Some res)
    then have "detection_loop env net faults ?buf ?n 0 l = Some (Inr (snd res, l\<lparr>link := fold (apply_subnet env net) (fst res) (link l)\<rparr>))"
      using detection_loop_of_frames [OF Some assms refl] by simp
    with Some Received show ?thesis
      by (simp add: detect_addresses_def handle_address_detection_def receive_frames_def rx split_beta)
  qed
qed (simp_all add: detect_addresses_def handle_address_detection_def receive_frames_def)

section \<open>With faults\<close>

text \<open>
  A call of \<open>Application::update\<close> in which the detection may throw, as the main loop sees it. What comes
  behind it runs only when it did not.
\<close>

definition update_call :: "('j, 'f) settings_env \<Rightarrow> net_env \<Rightarrow> udp_faults \<Rightarrow> app_env \<Rightarrow> clock \<Rightarrow> rx_result \<Rightarrow> rx_result \<Rightarrow>
    'f app \<Rightarrow> (call \<times> 'f app) option" where
  "update_call senv net faults env clk r_address r_packet a =
     (case detect_addresses senv net faults r_address \<lparr>link = udp a, packet_open = True, detection_open = True, has_callback = True\<rparr> of
        None \<Rightarrow> None
      | Some (Inl (e, l)) \<Rightarrow> Some (Threw e, (note_update_call clk a)\<lparr>udp := link l\<rparr>)
      | Some (Inr l) \<Rightarrow> map_option (\<lambda>a'. (Returned True, a')) (application_update senv net env clk WouldBlock r_packet (a\<lparr>udp := link l\<rparr>)))"

text \<open>Without faults it is the cycle of \<open>App_Update\<close>.\<close>

theorem update_call_no_faults:
  assumes "no_faults senv faults"
  shows "update_call senv net faults env clk r_address r_packet a =
    map_option (\<lambda>a'. (Returned True, a')) (application_update senv net env clk r_address r_packet a)"
proof -
  have note_udp: "note_update_call clk (a\<lparr>udp := u\<rparr>)\<lparr>udp := v\<rparr> = note_update_call clk a\<lparr>udp := v\<rparr>" for u v
    by (cases a) (simp add: note_update_call_def Let_def split_beta)
  have idle: "handle_address_detection senv net WouldBlock u = Some u" for u
    by (simp add: handle_address_detection_def receive_frames_def)
  show ?thesis
    by (simp add: update_call_def detect_addresses_no_faults [OF assms] application_update_def idle note_udp split: option.split)
qed





text \<open>A newly made object is closed; \<open>close\<close> brings it back to that.\<close>

lemma close_as_new: "udp_close l = (UdpConnections (link l))\<lparr>has_callback := has_callback l\<rparr>"
  by (cases l) (simp add: udp_close_def UdpConnections_def)

end
