(* ===== verification/Spec2Isabelle.thy ===== *)
theory Spec2Isabelle
  imports Tc_Properties Tc_Pool_Properties System_Properties Iop_Validator Tc_Lock Settings_Lock Tc_Notices Main_Program Udp_Faults
begin

text \<open>
  A model of AOG-TaskController, the program that connects AgOpenGPS with ISOBUS implements. AgOpenGPS
  sends UDP packets with the demanded section states, the control mode, the speed, the cross track
  error and the GNSS fix quality. The program is an ISO 11783-10 task controller server on the CAN
  bus: implements upload a device description (an object pool) and are then told which sections to
  switch. What the sections do is reported back to AgOpenGPS in a heartbeat packet. A virtual terminal
  on the bus, if there is one, shows the status and changes two settings.

  \<^bold>\<open>Parts of the program and theories.\<close>

  \<^item> \<open>TC_Prelude\<close>: the named collections, lemmas on words, lists and clocks, and the locales
    \<open>safe_system\<close> and \<open>audited_system\<close> for step relations with an invariant and with a log whose
    entries were allowed when written. \<open>Std_Map\<close>: \<open>std::map\<close> as a sorted association list with
    its interface as a locale. \<open>Text_Format\<close>: number formatting, file name and label cleaning, FNV-1a.
  \<^item> \<open>Ddop\<close> and \<open>Element_Hierarchy\<close>: the objects of a pool and the queries the server makes on them
    (\<open>find_owning_element_number\<close>, \<open>is_ddi_settable\<close>, the scan of the control method), and
    \<open>include/element_hierarchy.hpp\<close>.
  \<^item> \<open>Section_Codec\<close>: the three encodings of section states, two bits per section on the bus, one bit
    per section in the packets from and to AgOpenGPS.
  \<^item> \<open>Client_State\<close>: the class \<open>ClientState\<close> of \<open>task_controller.cpp\<close>, one definition per method. The
    setpoint and the actual vectors share the contract \<open>section_vector\<close>.
  \<^item> \<open>Config_Path\<close>, \<open>Settings\<close>: \<open>settings.cpp\<close> with its file, the temporary file and the roll-back of
    the setters; the four boolean settings are interpretations of the locale \<open>boolean_setting\<close>.
  \<^item> \<open>Tc_Server\<close>, \<open>Tc_Measurement\<close>, \<open>Tc_Sections\<close>: the class \<open>MyTCServer\<close>. \<open>Tc_Server\<close> holds the pool life
    cycle and \<open>on_value_command\<close>, \<open>Tc_Measurement\<close> the subscription, \<open>Tc_Sections\<close> section control,
    control mode and GNSS quality. The state \<open>tc_server\<close> has the two maps of the class and the list
    \<open>bus\<close> of the messages handed to the CAN library.
  \<^item> \<open>Tc_Safety\<close>: the step relation \<open>tc_step\<close>, one rule per entry point of \<open>MyTCServer\<close>, in any order.
  \<^item> \<open>Lock\<close>: threads, a \<open>std::recursive_mutex\<close> and a shared memory, with calls as programs of small
    actions; the locales \<open>guarded_calls\<close> (every call takes the mutex first and gives it back last) and
    \<open>atomic_calls\<close> (alone, a call does what an operation does). \<open>Tc_Lock\<close> interprets them on the entry
    points of \<open>MyTCServer\<close> under \<open>clientsMutex\<close>, which is why \<open>tc_step\<close> may take them as whole steps,
    and \<open>Settings_Lock\<close> on the methods of \<open>Settings\<close> under \<open>settingsMutex\<close>.
  \<^item> \<open>Tc_Notices\<close>: the callbacks of \<open>MyTCServer\<close> that only log, and the limits it announces.
  \<^item> \<open>Udp_Frame\<close>: \<open>udp_connections.cpp\<close>, both receive loops, the checksum, \<open>send\<close>, the detection of a
    subnet announcement and the choice of the local address. \<open>Udp_Faults\<close>: the object with its sockets
    and the exceptions of a subnet announcement; without faults its loop is that of \<open>Udp_Frame\<close>.
  \<^item> \<open>App_State\<close>, \<open>Packet_Handler\<close>, \<open>App_Update\<close>: the class \<open>Application\<close>. \<open>Packet_Handler\<close> is the
    callback that \<open>setup_udp_connections\<close> installs, \<open>App_Update\<close> is \<open>Application::update\<close>; its
    time-triggered parts are interpretations of the locale \<open>periodic\<close>.
    \<open>Implement_Details\<close> derives the name and the widths of an implement that both \<open>App_Update\<close> and the
    terminal show.
  \<^item> \<open>Vt_Client\<close>: the virtual terminal part of \<open>app.cpp\<close>, from \<open>setup_vt_client\<close> to
    \<open>update_vt_status_strings\<close>, with the object identifiers of \<open>resources/AOG_TC.iop.h\<close>.
  \<^item> \<open>App_Setup\<close>: \<open>Application::initialize\<close> with the waits for the CAN network, and \<open>stop\<close>.
  \<^item> \<open>App_System\<close>: the whole program as the step relation \<open>app_step\<close>: the phases of
    \<open>Application::update\<close>, the callbacks of the library and the inputs of the operator, with the
    invariant \<open>app_wf\<close>; the start establishes it.
  \<^item> \<open>Async_Log\<close>, \<open>Process_Log\<close>, \<open>Command_Line\<close>: \<open>async_log.cpp\<close> as a step relation of logging threads and
    the writer; \<open>logging_utils.hpp\<close>, \<open>logging.cpp\<close> and the reports of \<open>crash_handler.cpp\<close>;
    \<open>main.cpp\<close> with arguments, driver selection, main loop and exit code. \<open>Main_Program\<close>: how the
    program is asked to end and how it crashes, the window procedure, the message pump and \<open>WinMain\<close>
    on Windows, the signals on POSIX, the handlers of \<open>crash_handler.cpp\<close>. The two ways to ask the
    main loop to stop are interpretations of the locale \<open>stop_source\<close>.
  \<^item> \<open>Iop_Validator\<close>: \<open>tools/iop_validator.cpp\<close>, the build-time check of the terminal's object pool.
  \<^item> \<open>Tc_Samples\<close>: two implements, a sprayer with condensed section control and a seeder switched element
    by element, on which the properties are instantiated.
  \<^item> \<open>Tc_Properties\<close>, \<open>Tc_Pool_Properties\<close>, \<open>App_Properties\<close>, \<open>Vt_Properties\<close>, \<open>Setup_Properties\<close>,
    \<open>System_Properties\<close> and this theory: the properties. Those of \<open>Settings\<close>, \<open>Udp_Frame\<close>,
    \<open>Async_Log\<close>, \<open>Command_Line\<close>, \<open>Iop_Validator\<close>, \<open>Tc_Lock\<close>, \<open>Settings_Lock\<close> and \<open>Main_Program\<close>
    stand in these theories.

  \<^bold>\<open>How code becomes definitions.\<close> Integers have the width of the source (\<open>u8\<close> to \<open>u64\<close>, \<open>i32\<close>), with
  wrap-around. Exceptions and failed library calls are \<open>None\<close> or a case of a result. A loop whose
  counter may wrap (the checksum and the frame loop) or that waits for the clock (\<open>wait_ms\<close>,
  \<open>claim_loop\<close>) is a \<open>partial_function\<close> whose value is \<open>None\<close>
  when the loop never ends, so its termination is a theorem and not an assumption; \<open>any_in_chain\<close> has
  the bound of the source, the size of the parent map. Everything else recurses on its data; the main
  loop and \<open>flush\<close> recurse on the list of what they observe, round by round, and are \<open>None\<close> when that
  list ends before they do. No fuel is used. Messages to the bus, packets to AgOpenGPS and operator messages are lists that grow.

  \<^bold>\<open>Parameters.\<close> Code outside the repository is a field of an environment record: AgIsoStack's pool
  parser, serialiser and geometry helper (\<open>tc_env\<close>), the JSON library and the file calls
  (\<open>settings_env\<close>), interfaces and resolver (\<open>net_env\<close>), clock, bus functions and send results
  (\<open>app_env\<close>, \<open>clock\<close>), the network while the program starts (\<open>can_world\<close>), the objects of a terminal pool
  (\<open>vt_objects\<close>). Three laws of such parameters are relied on: \<open>json_lib_ok\<close> (what is dumped parses back),
  \<open>time_ok\<close> (the clock counts milliseconds, a sleep lasts as long as asked and nothing takes more than
  \<open>u\<close> ms longer, with \<open>u\<close> up to a thousand seconds so that a span of 32 bits cannot wrap) and \<open>names_ok\<close>
  (the parts of an ISO name have the width the standard gives them). Concrete parameters satisfy them.

  \<^bold>\<open>What is shown.\<close> From a successful start on, and in any order of the steps of the main loop and the
  library: every message a step sends goes to a client that is connected with sections when the step is
  made, and those that drive sections only to a client in automatic mode, in the step that handles a
  packet with section states; the whole state stays well-formed; the calls of \<open>Application::update\<close> are runs of these steps. The
  mutexes make the calls on the server and on the settings atomic, without data race and without
  deadlock: the holder gives the mutex back by its own steps, although it takes it again while it holds it. When nothing arrives from AgOpenGPS
  the program leaves setpoints and modes as they are. An announced subnet whose address cannot be bound
  ends it, with a crash report and code 0. A section packet
  sets the setpoints it demands, from the datagram to the client; the update loop equals a block by
  block reference, and the messages of condensed and of per-element clients are determined exactly.
  Activation, subscription and reports have their functional behaviour on the accepting and refusing
  branches; after an update the implement has been told the work state the client remembers. Settings
  survive a restart, saving is atomic and a switch, also one made on the terminal, is all or nothing unless
  the save throws, which leaves the new value in memory and the old file. The start ends in bounded time, claims the address before anything
  else and leaves a state that satisfies the invariants; the tractor ECU exists only on its own address.
  The terminal shows every status string after a cycle in which it is due, whatever it forgot while it
  was disconnected, and no string is longer than its object allows. The log loses nothing without saying
  how much, keeps the lines of each thread whole and in order, and is written out by a fair writer;
  \<open>flush\<close> answers true only when it was. However the program ends, it stops the application and
  flushes the log; a window message or a signal that asks for it ends it after the running update. A
  crash leaves a report, on Windows with the path of the dump. The pool validator accepts exactly the pools that satisfy its rules. The receive
  loop delivers each frame once, keeps its buffer, and never reads outside it; sending terminates.
  Heartbeat, operator messages, implement scan, speed, cross track error and GNSS quality say what
  they should. Some theorems state unintended behaviour: a frame with length byte 250 is never
  finished, the checksum loop does not end from 256 bytes on, a frame with one byte of payload
  swallows the next, the last chunk alone decides on a pool, an unsettable condensed state silences a
  per-element client, the work state glitches between blocks, the demand watch survives a
  disconnection, the exit code is 0 after an exception.

  \<^bold>\<open>Not modelled.\<close> The calls of the operating system behind windows, dumps and signals, whose answers are
  inputs; log lines other than those of the start, of crashes and of \<open>Tc_Notices\<close>; the \<open>update\<close>
  calls of the ISOBUS library; the two unit test programs. The steps of \<open>app_step\<close> are
  the phases of an update, so a race inside the terminal client, which no mutex protects, is outside
  the model.
\<close>

section \<open>From a datagram to the implement\<close>

lemma setpoint_request:
  assumes "client_wf c"
  shows "get_section_setpoint_state (fst (request_client_commands env client c)) i = get_section_setpoint_state c i"
proof (cases "\<not> areMeasurementCommandsSent c \<and> 0 < numberOfSections c")
  case True
  then obtain m where "fst (request_client_commands env client c) = c\<lparr>ddiToElementNumber := m, areMeasurementCommandsSent := True\<rparr>"
    using request_client_commands_spec(1) [OF assms] by blast
  then show ?thesis by (simp add: get_section_setpoint_state_def)
qed (auto simp: request_client_commands_def)

lemma address_detection_idle: "handle_address_detection senv net WouldBlock u = Some u"
  by (simp add: handle_address_detection_def receive_frames_def)

text \<open>A cycle in which one frame and no subnet announcement arrives.\<close>

lemma application_update_one_packet:
  fixes a :: "'f app"
  assumes "frame_bytes src pgn data = Some frame" "2 \<le> length data" "length data \<le> 249" "rxIndex (packet_rx (udp a)) = 0"
  obtains a1 a2 :: "'f app" where "tcServer a1 = tcServer a"
    "tcServer a2 = request_measurement_commands (app_tc env) (tcServer (packet_handler env clk (src, pgn, data) a1))"
    "application_update senv net env clk WouldBlock (Received frame) a = Some (cycle_work env clk a2)"
proof -
  let ?rx = "\<lparr>rxBuffer = store_received (packet_rx (udp a)) frame, rxIndex = 0\<rparr>"
  let ?a1 = "(note_update_call clk a)\<lparr>udp := (udp a)\<lparr>packet_rx := ?rx\<rparr>\<rparr>"
  let ?a2 = "update_vt_client env clk (note_library_calls clk ((packet_handler env clk (src, pgn, data) ?a1)
         \<lparr>tcServer := request_measurement_commands (app_tc env) (tcServer (packet_handler env clk (src, pgn, data) ?a1))\<rparr>))"
  have 1: "tcServer ?a1 = tcServer a" by simp
  have 2: "tcServer ?a2 = request_measurement_commands (app_tc env) (tcServer (packet_handler env clk (src, pgn, data) ?a1))" by simp
  have 3: "application_update senv net env clk WouldBlock (Received frame) a = Some (cycle_work env clk ?a2)"
    using receive_sent_frame [OF assms] by (simp add: application_update_def address_detection_idle Let_def)
  show thesis by (rule that [OF 1 2 3])
qed

text \<open>What the rest of a cycle keeps of a client's setpoints.\<close>

lemma cycle_keeps_setpoints:
  assumes "server_wf s" "sm_find (clients s) client = Some c"
    "b = cycle_work env clk a" "tcServer a = request_measurement_commands tenv s"
  shows "\<exists>c'. sm_find (clients (tcServer b)) client = Some c' \<and>
     (\<forall>i. get_section_setpoint_state c' i = get_section_setpoint_state c i)"
proof -
  have wf: "client_wf c" using assms(1,2) by (auto simp: server_wf_def)
  have 1: "sm_find (clients (request_measurement_commands tenv s)) client = Some (fst (request_client_commands tenv client c))"
    using assms(2) by (simp add: request_measurement_commands_def find_each_client)
  have "sm_find (clients (tcServer b)) client = Some (fst (request_client_commands tenv client c))"
    using cycle_work_tcServer [of env clk a] 1
    by (auto simp: assms(3,4) send_gnss_quality_def find_each_client send_client_gnss_quality_def)
  then show ?thesis by (auto simp: setpoint_request [OF wf])
qed

text \<open>
  C2 From the cable to the implement: a section packet with eight bytes of payload, received with an
  empty buffer in a cycle of \<open>Application::update\<close>, ends the cycle with every section of every client
  in automatic mode that the packet covers at the setpoint of its bit.
\<close>

theorem section_packet_end_to_end:
  fixes a :: "'f app"
  assumes "server_wf (tcServer a)" "sm_find (clients (tcServer a)) client = Some c" "isSectionControlEnabled c"
    "frame_bytes 0x7F 0xE5 data = Some frame" "length data = 8" "rxIndex (packet_rx (udp a)) = 0"
  shows "\<exists>a' c'. application_update senv net env clk WouldBlock (Received frame) a = Some a' \<and>
     sm_find (clients (tcServer a')) client = Some c' \<and>
     (\<forall>j i. j < 8 \<longrightarrow> i < 8 \<longrightarrow> 8 * j + i < unat (numberOfSections c) \<longrightarrow>
        get_section_setpoint_state c' (of_nat (8 * j + i)) = (if bit (data ! j) i then ON else OFF))"
proof -
  have wf: "client_wf c" using assms(1,2) by (auto simp: server_wf_def)
  obtain a1 a2 :: "'f app" where a1: "tcServer a1 = tcServer a"
    "tcServer a2 = request_measurement_commands (app_tc env) (tcServer (packet_handler env clk (0x7F, 0xE5, data) a1))"
    "application_update senv net env clk WouldBlock (Received frame) a = Some (cycle_work env clk a2)"
    by (rule application_update_one_packet [OF assms(4) _ _ assms(6), where env = env and clk = clk and senv = senv and net = net])
      (use assms(5) in auto)
  let ?s = "update_section_states (decode_sections data) (tcServer a)"
  let ?c = "fst (update_client_sections (decode_sections data) client c)"
  have "tcServer (packet_handler env clk (0x7F, 0xE5, data) a1) = ?s"
    using assms(5) a1(1) by (simp add: packet_handler_tcServer)
  moreover have "server_wf ?s" using assms(1) by (rule tc_wf)
  moreover have "sm_find (clients ?s) client = Some ?c"
    using assms(2) by (simp add: update_section_states_def find_each_client)
  ultimately obtain a' c' where a': "application_update senv net env clk WouldBlock (Received frame) a = Some a'"
    "sm_find (clients (tcServer a')) client = Some c'"
    "\<forall>i. get_section_setpoint_state c' i = get_section_setpoint_state ?c i"
    using cycle_keeps_setpoints [where s = ?s and client = client and c = ?c and env = env and clk = clk
        and a = a2 and tenv = "app_tc env", OF _ _ refl] a1(2,3) by auto
  have "get_section_setpoint_state ?c (of_nat (8 * j + i)) = (if bit (data ! j) i then ON else OFF)"
    if "j < 8" "i < 8" "8 * j + i < unat (numberOfSections c)" for j i
  proof -
    have u: "unat (of_nat (8 * j + i) :: u8) = 8 * j + i" using that by (intro unat_of_nat_u8) linarith
    have "8 * j + i < 64" using that by linarith
    moreover have "(of_nat (8 * j + i) :: u8) < numberOfSections c" using that(3) by (rule of_nat_u8_less)
    ultimately show ?thesis
      unfolding update_client_sections_state [OF wf assms(3)] demanded_def u
      using nth_decode_sections [OF that(1,2), of data] by simp
  qed
  with a' show ?thesis by auto
qed

theorem section_packet_end_to_end_witness:
  "\<exists>a' c'. application_update sample_env sample_net sample_app_env (clock_at 5) WouldBlock
       (Received [0x80, 0x81, 0x7F, 0xE5, 8, 1, 0, 2, 0, 0, 0, 0, 0, 0x6F]) sample_app = Some a' \<and>
     sm_find (clients (tcServer a')) 7 = Some c' \<and>
     get_section_setpoint_state c' 0 = ON \<and> get_section_setpoint_state c' 17 = ON \<and> get_section_setpoint_state c' 16 = OFF"
proof -
  have app: "server_wf (tcServer sample_app)" "sm_find (clients (tcServer sample_app)) 7 = Some sprayer"
    "rxIndex (packet_rx (udp sample_app)) = 0"
    by (simp_all add: sample_app_def sample_server_wf sample_server_clients sample_udp_def rx_initial_def)
  have f: "frame_bytes 0x7F 0xE5 [1, 0, 2, 0, 0, 0, 0, 0] = Some [0x80, 0x81, 0x7F, 0xE5, 8, 1, 0, 2, 0, 0, 0, 0, 0, 0x6F]"
    by (simp add: frame_bytes_eq)
  obtain a' c' where r: "application_update sample_env sample_net sample_app_env (clock_at 5) WouldBlock
       (Received [0x80, 0x81, 0x7F, 0xE5, 8, 1, 0, 2, 0, 0, 0, 0, 0, 0x6F]) sample_app = Some a'"
    "sm_find (clients (tcServer a')) 7 = Some c'"
    "\<forall>j i. j < 8 \<longrightarrow> i < 8 \<longrightarrow> 8 * j + i < unat (numberOfSections sprayer) \<longrightarrow>
        get_section_setpoint_state c' (of_nat (8 * j + i)) = (if bit ([1, 0, 2, 0, 0, 0, 0, 0 :: u8] ! j) i then ON else OFF)"
    using section_packet_end_to_end [where senv = sample_env and net = sample_net and env = sample_app_env and clk = "clock_at 5",
        OF app(1,2) sprayer_fields(2) f _ app(3)] by auto
  have "get_section_setpoint_state c' 0 = ON" "get_section_setpoint_state c' 17 = ON" "get_section_setpoint_state c' 16 = OFF"
    using r(3) [THEN spec, THEN spec, of 0 0] r(3) [THEN spec, THEN spec, of 2 1] r(3) [THEN spec, THEN spec, of 2 0]
    by (simp_all add: sprayer_fields)
  with r show ?thesis by blast
qed

text \<open>
  The mode packet: every client gets the flag AgOpenGPS sent, whatever it had; a client that maps
  the section control state is told so with one message, in client order, and nothing else is sent.
\<close>

theorem mode_packet_sets_all:
  assumes "server_wf (tcServer a)" "data \<noteq> []" "enabled = (data ! 0 = 1)"
  shows "(\<forall>client. sm_find (clients (tcServer (packet_handler env clk (0x7F, 0xF1, data) a))) client =
       map_option (\<lambda>c. c\<lparr>isSectionControlEnabled := enabled\<rparr>) (sm_find (clients (tcServer a)) client)) \<and>
     bus (tcServer (packet_handler env clk (0x7F, 0xF1, data) a)) = bus (tcServer a)
       @ map (\<lambda>(client, c). SetValue client SectionControlState (get_element_number_for_ddi c SectionControlState) (if enabled then 1 else 0))
           (filter (\<lambda>(client, c). has_element_number_for_ddi c SectionControlState) (clients (tcServer a)))"
proof -
  have wf: "client_wf c" if "(client, c) \<in> set (clients (tcServer a))" for client c
    using that assms(1) by (auto simp: server_wf_def dest: sm_in_find)
  have fst_eq: "fst (update_client_control_enabled enabled client c) = c\<lparr>isSectionControlEnabled := enabled\<rparr>" for client c
    by (auto simp: update_client_control_enabled_def Let_def set_section_control_enabled_def)
  have snd_eq: "snd (update_client_control_enabled enabled client c) =
      (if has_element_number_for_ddi c SectionControlState
       then [SetValue client SectionControlState (get_element_number_for_ddi c SectionControlState) (if enabled then 1 else 0)]
       else [])" if "client_wf c" for client c
    using mapped_has_sections [OF that, of SectionControlState]
      has_element_cong [of "c\<lparr>isSectionControlEnabled := enabled\<rparr>" c]
    by (cases "has_element_number_for_ddi c SectionControlState")
      (simp_all add: update_client_control_enabled_def Let_def set_section_control_enabled_def send_section_control_state_def)
  have "concat (map (\<lambda>(client, c). snd (update_client_control_enabled enabled client c)) xs) =
      map (\<lambda>(client, c). SetValue client SectionControlState (get_element_number_for_ddi c SectionControlState) (if enabled then 1 else 0))
        (filter (\<lambda>(client, c). has_element_number_for_ddi c SectionControlState) xs)"
    if "\<And>client c. (client, c) \<in> set xs \<Longrightarrow> client_wf c" for xs
    using that
  proof (induction xs)
    case (Cons x xs)
    obtain client c where x: "x = (client, c)" by fastforce
    then have "client_wf c" using Cons.prems [of client c] by simp
    moreover have "concat (map (\<lambda>(client, c). snd (update_client_control_enabled enabled client c)) xs) =
        map (\<lambda>(client, c). SetValue client SectionControlState (get_element_number_for_ddi c SectionControlState) (if enabled then 1 else 0))
          (filter (\<lambda>(client, c). has_element_number_for_ddi c SectionControlState) xs)"
      using Cons.IH Cons.prems by (meson list.set_intros(2))
    ultimately show ?case
      by (cases "has_element_number_for_ddi c SectionControlState") (simp_all add: x snd_eq split del: if_split)
  qed simp
  then have out: "bus (each_client (update_client_control_enabled enabled) (tcServer a)) = bus (tcServer a)
       @ map (\<lambda>(client, c). SetValue client SectionControlState (get_element_number_for_ddi c SectionControlState) (if enabled then 1 else 0))
           (filter (\<lambda>(client, c). has_element_number_for_ddi c SectionControlState) (clients (tcServer a)))"
    using wf by (simp add: each_client_eq)
  have "tcServer (packet_handler env clk (0x7F, 0xF1, data) a) = each_client (update_client_control_enabled enabled) (tcServer a)"
    using assms(2,3) by (simp add: packet_handler_tcServer update_section_control_enabled_def)
  then show ?thesis
    using out by (simp add: find_each_client fst_eq)
qed

theorem mode_packet_sets_all_witness:
  "bus (tcServer (packet_handler sample_app_env (clock_at 5) (0x7F, 0xF1, [0]) sample_app)) =
     [SetValue 7 160 1 0, SetValue 8 160 1 0]"
proof -
  have wf: "server_wf (tcServer sample_app)" by (simp add: sample_app_def sample_server_wf)
  have "filter (\<lambda>(client, c). has_element_number_for_ddi c SectionControlState) (clients (tcServer sample_app)) =
      [(7, sprayer), (8, seeder)]" "bus (tcServer sample_app) = []"
    by (simp_all add: sample_app_def sample_server_def new_server_def has_element_number_for_ddi_def sprayer_fields
        seeder_fields sm_find_def ddi_defs)
  moreover have "get_element_number_for_ddi sprayer SectionControlState = 1" "get_element_number_for_ddi seeder SectionControlState = 1"
    by (simp_all add: get_element_number_for_ddi_def sprayer_fields seeder_fields sm_find_def ddi_defs)
  ultimately show ?thesis
    using mode_packet_sets_all [OF wf, of "[0]" False sample_app_env "clock_at 5"] by (simp add: ddi_defs)
qed

end
